(* ===== verification/Proxy_Prelude.thy ===== *)
theory Proxy_Prelude
  imports Complex_Main "HOL-Library.Word"
begin

text \<open>
  What every component of the proxy model shares.

  \<^item> The data: \<open>byte\<close>, \<open>bytes\<close>, Python slices, \<open>int.from_bytes\<close> / \<open>int.to_bytes\<close>
    (big endian), \<open>range\<close> with a step and the slice comprehension
    \<open>[x[i:i+n] for i in range(0, len(x), n)]\<close> that the proxy uses in three places.
  \<^item> The errors: the exceptions the source raises or lets through, as one datatype.
  \<^item> The programs: a function of the mutable state that returns a value or an
    exception together with the state \<^emph>\<open>as it is when the call ends\<close>: a Python exception
    does not undo the assignments before it. \<open>None\<close> stands for a call that never returns.
  \<^item> A small Hoare logic over these programs with a postcondition for the normal return
    and one for the exception, used for the invariants of the stateful components.
\<close>

unbundle bit_operations_syntax

named_theorems prog_simps \<open>unfold the program combinators\<close>
named_theorems hoare_rules \<open>compositional rules of the Hoare logic\<close>

section \<open>Bytes and slices\<close>

type_synonym byte = "8 word"
type_synonym bytes = "byte list"

definition slice :: "'a list \<Rightarrow> nat \<Rightarrow> nat \<Rightarrow> 'a list" where
  "slice xs i j = drop i (take j xs)"

definition from_bytes_be :: "bytes \<Rightarrow> nat" where
  "from_bytes_be bs = foldl (\<lambda>acc b. acc * 256 + unat b) 0 bs"

primrec be_bytes :: "nat \<Rightarrow> nat \<Rightarrow> bytes" where
  "be_bytes 0 v = []"
| "be_bytes (Suc k) v = be_bytes k (v div 256) @ [word_of_nat (v mod 256)]"

definition py_range :: "nat \<Rightarrow> nat \<Rightarrow> nat \<Rightarrow> nat list" where
  "py_range lo hi st = map (\<lambda>k. lo + k * st) [0..<(hi - lo + st - 1) div st]"

definition py_chunks :: "'a list \<Rightarrow> nat \<Rightarrow> 'a list list" where
  "py_chunks xs n = map (\<lambda>i. slice xs i (i + n)) (py_range 0 (length xs) n)"

function chop :: "nat \<Rightarrow> 'a list \<Rightarrow> 'a list list" where
  "chop n xs = (if xs = [] \<or> n = 0 then [] else take n xs # chop n (drop n xs))"
  by pat_completeness auto
termination
  by (relation "measure (\<lambda>(n, xs). length xs)") auto

declare chop.simps [simp del]

lemma chop_Nil [simp]: "chop n [] = []"
  by (simp add: chop.simps)

lemma chop_step: "xs \<noteq> [] \<Longrightarrow> 0 < n \<Longrightarrow> chop n xs = take n xs # chop n (drop n xs)"
  by (simp add: chop.simps [of n xs])

lemma chop_eq_Nil_iff: "0 < n \<Longrightarrow> chop n xs = [] \<longleftrightarrow> xs = []"
  by (simp add: chop.simps [of n xs])

lemma slice_length: "length (slice xs i j) = min j (length xs) - i"
  by (simp add: slice_def)

lemma slice_shift: "slice (drop n xs) i (i + m) = slice xs (n + i) (n + i + m)"
  by (simp add: slice_def drop_take add_ac)

lemma py_range_empty [simp]: "0 < st \<Longrightarrow> py_range lo lo st = []"
  by (simp add: py_range_def)

lemma py_range_step:
  assumes "0 < hi" and "0 < st"
  shows "py_range 0 hi st = 0 # map ((+) st) (py_range 0 (hi - st) st)"
proof -
  have "(hi + st - 1) div st = Suc ((hi - st + st - 1) div st)"
  proof (cases "st \<le> hi")
    case True
    then have "hi + st - 1 = (hi - st + st - 1) + st" using assms by simp
    then have "(hi + st - 1) div st = ((hi - st + st - 1) + st) div st" by (rule arg_cong)
    also have "\<dots> = (hi - st + st - 1) div st + 1" using assms by (simp only: div_add_self2 neq0_conv)
    finally show ?thesis by (simp only: Suc_eq_plus1)
  next
    case False
    then have "hi + st - 1 = (hi - 1) + st" and "hi - 1 < st" using assms by simp_all
    then have one: "(hi + st - 1) div st = 1"
      using div_add_self2 [of st "hi - 1"] assms by (simp only: div_less neq0_conv)
    have "hi - st + st - 1 = st - 1" and "st - 1 < st" using False assms by simp_all
    then have "(hi - st + st - 1) div st = 0" by (simp only: div_less)
    with one show ?thesis by (simp only: One_nat_def)
  qed
  moreover have "map (\<lambda>k. k * st) [0..<Suc m] = 0 # map ((+) st) (map (\<lambda>k. k * st) [0..<m])" for m
    by (simp add: upt_conv_Cons map_Suc_upt [symmetric] comp_def del: upt_Suc)
  ultimately show ?thesis by (simp add: py_range_def del: upt_Suc map_map)
qed

lemma py_chunks_chop: "0 < n \<Longrightarrow> py_chunks xs n = chop n xs"
proof (induction n xs rule: chop.induct)
  case (1 n xs)
  show ?case
  proof (cases "xs = []")
    case True
    with "1.prems" show ?thesis by (simp add: py_chunks_def)
  next
    case False
    have "map (\<lambda>i. slice xs i (i + n)) (map ((+) n) (py_range 0 (length xs - n) n))
        = py_chunks (drop n xs) n"
      by (simp add: py_chunks_def slice_shift)
    moreover have "\<dots> = chop n (drop n xs)"
      using "1.IH" "1.prems" False by simp
    ultimately show ?thesis
      using "1.prems" False
      by (simp add: py_chunks_def [of xs] py_range_step chop_step slice_def del: map_map)
  qed
qed

lemma concat_chop: "0 < n \<Longrightarrow> concat (chop n xs) = xs"
proof (induction n xs rule: chop.induct)
  case (1 n xs)
  then show ?case by (cases "xs = []") (simp_all add: chop_step)
qed

lemma chop_length_le: "c \<in> set (chop n xs) \<Longrightarrow> length c \<le> n"
proof (induction n xs rule: chop.induct)
  case (1 n xs)
  then show ?case
    by (subst (asm) (2) chop.simps) (auto split: if_splits)
qed

lemma chop_nonempty: "c \<in> set (chop n xs) \<Longrightarrow> c \<noteq> []"
proof (induction n xs rule: chop.induct)
  case (1 n xs)
  then show ?case
    by (subst (asm) (2) chop.simps) (auto split: if_splits)
qed

lemma chop_butlast_full: "c \<in> set (butlast (chop n xs)) \<Longrightarrow> length c = n"
proof (induction n xs rule: chop.induct)
  case (1 n xs)
  show ?case
  proof (cases "xs = [] \<or> n = 0")
    case True
    with "1.prems" show ?thesis by (simp add: chop.simps)
  next
    case False
    then have step: "chop n xs = take n xs # chop n (drop n xs)" by (simp add: chop_step)
    show ?thesis
    proof (cases "drop n xs = []")
      case True
      with step "1.prems" show ?thesis by simp
    next
      case rest: False
      then have "chop n (drop n xs) \<noteq> []" using False by (simp add: chop_eq_Nil_iff)
      with step "1.prems" have "c = take n xs \<or> c \<in> set (butlast (chop n (drop n xs)))"
        by simp
      then show ?thesis using "1.IH" False rest by auto
    qed
  qed
qed

lemma length_chop: "0 < n \<Longrightarrow> length (chop n xs) = (length xs + n - 1) div n"
proof -
  assume "0 < n"
  then have "length (chop n xs) = length (py_chunks xs n)" by (simp only: py_chunks_chop)
  also have "\<dots> = (length xs + n - 1) div n"
    by (simp only: py_chunks_def py_range_def length_map length_upt diff_zero)
  finally show ?thesis .
qed

lemma chop_single: "xs \<noteq> [] \<Longrightarrow> length xs \<le> n \<Longrightarrow> chop n xs = [xs]"
  using chop_step [of xs n] by (cases "n = 0") simp_all

section \<open>Big-endian integers\<close>

lemma length_be_bytes [simp]: "length (be_bytes k v) = k"
  by (induction k arbitrary: v) simp_all

lemma from_bytes_be_snoc: "from_bytes_be (bs @ [b]) = from_bytes_be bs * 256 + unat b"
  by (simp add: from_bytes_be_def)

lemma from_bytes_be_Nil [simp]: "from_bytes_be [] = 0"
  by (simp add: from_bytes_be_def)

lemma from_be_bytes: "v < 256 ^ k \<Longrightarrow> from_bytes_be (be_bytes k v) = v"
proof (induction k arbitrary: v)
  case 0
  then show ?case by simp
next
  case (Suc k)
  then have "v div 256 < 256 ^ k" by (simp add: less_mult_imp_div_less mult.commute)
  then have "from_bytes_be (be_bytes k (v div 256)) = v div 256" by (rule Suc.IH)
  moreover have "unat (word_of_nat (v mod 256) :: byte) = v mod 256"
    by (simp add: unat_of_nat)
  ultimately show ?case by (simp add: from_bytes_be_snoc)
qed

lemma from_bytes_be_bound: "from_bytes_be bs < 256 ^ length bs"
proof (induction bs rule: rev_induct)
  case Nil
  show ?case by simp
next
  case (snoc b bs)
  have "unat b < 256" using unsigned_less [of b] by simp
  with snoc show ?case by (simp add: from_bytes_be_snoc)
qed

lemma be_bytes_from: "be_bytes (length bs) (from_bytes_be bs) = bs"
proof (induction bs rule: rev_induct)
  case Nil
  show ?case by simp
next
  case (snoc b bs)
  have b: "unat b < 256" using unsigned_less [of b] by simp
  then show ?case using snoc by (simp add: from_bytes_be_snoc)
qed

lemma be_bytes_from_length: "length bs = k \<Longrightarrow> be_bytes k (from_bytes_be bs) = bs"
  using be_bytes_from [of bs] by simp

lemma byte_unat_lt [simp]: "unat (b :: byte) < 256"
  using unsigned_less [of b] by simp


lemma unat_byte_of_nat: "n < 256 \<Longrightarrow> unat (word_of_nat n :: byte) = n"
  by (simp add: unat_of_nat)

section \<open>Exceptions\<close>

text \<open>
  The exceptions the modelled code raises itself (\<open>EapTlsError\<close>, the \<open>PacketError\<close> of the
  decoder, \<open>ValueError\<close> of the configuration) and those the interpreter or the libraries
  raise inside it. The reasons stand for the message texts. All but the last are subclasses of
  \<open>Exception\<close>; \<open>KeyboardInterrupt\<close> is not, and an \<open>except Exception\<close> lets it through.
\<close>

datatype eap_tls_reason =
    PacketTooShort nat
  | NotEapTls nat
  | LengthExceedsBuffer nat nat
  | MessageLengthTruncated
  | DeclaredTooLong nat int
  | BufferExceeded
  | BadFragmentSize

datatype packet_reason =
    HeaderCorrupt
  | InvalidLength
  | LengthTooLong nat
  | AttributeHeaderCorrupt
  | AttributeTooSmall nat

datatype py_error =
    EapTlsError eap_tls_reason
  | PacketError packet_reason
  | ValueError string
  | OverflowError
  | IndexError
  | KeyError
  | AttributeError
  | TypeError
  | UnicodeError
  | OSError
  | Timeout
  | KeyboardInterrupt

section \<open>Programs over a mutable state\<close>

type_synonym ('s, 'a) prog = "'s \<Rightarrow> ((py_error + 'a) \<times> 's) option"

definition returnP :: "'a \<Rightarrow> ('s, 'a) prog" where
  "returnP x s = Some (Inr x, s)"

definition raiseP :: "py_error \<Rightarrow> ('s, 'a) prog" where
  "raiseP e s = Some (Inl e, s)"

definition liftP :: "py_error + 'a \<Rightarrow> ('s, 'a) prog" where
  "liftP r s = Some (r, s)"

definition getP :: "('s \<Rightarrow> 'a) \<Rightarrow> ('s, 'a) prog" where
  "getP f s = Some (Inr (f s), s)"

definition modifyP :: "('s \<Rightarrow> 's) \<Rightarrow> ('s, unit) prog" where
  "modifyP f s = Some (Inr (), f s)"

definition bindP :: "('s, 'a) prog \<Rightarrow> ('a \<Rightarrow> ('s, 'b) prog) \<Rightarrow> ('s, 'b) prog" where
  "bindP m k s =
     (case m s of
        None \<Rightarrow> None
      | Some (Inl e, s') \<Rightarrow> Some (Inl e, s')
      | Some (Inr x, s') \<Rightarrow> k x s')"

definition thenP :: "('s, unit) prog \<Rightarrow> ('s, 'b) prog \<Rightarrow> ('s, 'b) prog" where
  "thenP m k = bindP m (\<lambda>_. k)"

primrec mapP :: "('x \<Rightarrow> ('s, 'a) prog) \<Rightarrow> 'x list \<Rightarrow> ('s, 'a list) prog" where
  "mapP f [] = returnP []"
| "mapP f (x # xs) = bindP (f x) (\<lambda>y. bindP (mapP f xs) (\<lambda>ys. returnP (y # ys)))"

text \<open>Run a program on a part of the state: a field of an object, a component of a pair.\<close>

definition zoomP :: "('s \<Rightarrow> 't) \<Rightarrow> ('t \<Rightarrow> 's \<Rightarrow> 's) \<Rightarrow> ('t, 'a) prog \<Rightarrow> ('s, 'a) prog" where
  "zoomP get put m s =
     (case m (get s) of None \<Rightarrow> None | Some (r, t) \<Rightarrow> Some (r, put t s))"

text \<open>
  The handlers run over an object and the outside world: \<open>getS\<close> and \<open>modS\<close> read and assign
  fields of the object, \<open>onS\<close> runs a method of it, \<open>ioP\<close> calls out to the world.
\<close>

definition getS :: "('o \<Rightarrow> 'a) \<Rightarrow> ('o \<times> 'w, 'a) prog" where
  "getS f = getP (\<lambda>(s, w). f s)"

definition modS :: "('o \<Rightarrow> 'o) \<Rightarrow> ('o \<times> 'w, unit) prog" where
  "modS f = modifyP (\<lambda>(s, w). (f s, w))"

definition onS :: "('o, 'a) prog \<Rightarrow> ('o \<times> 'w, 'a) prog" where
  "onS m = zoomP fst (\<lambda>s' (s, w). (s', w)) m"

definition ioP :: "('w \<Rightarrow> (py_error + 'a) \<times> 'w) \<Rightarrow> ('o \<times> 'w, 'a) prog" where
  "ioP f = (\<lambda>(s, w). case f w of (r, w') \<Rightarrow> Some (r, (s, w')))"

lemma getS_apply [prog_simps]: "getS f (s, w) = Some (Inr (f s), (s, w))"
  by (simp add: getS_def getP_def)

lemma bindP_getS [prog_simps]: "bindP (getS f) k (s, w) = k (f s) (s, w)"
  by (simp add: bindP_def getS_apply)

lemma modS_apply [prog_simps]: "modS f (s, w) = Some (Inr (), (f s, w))"
  by (simp add: modS_def modifyP_def)

lemma thenP_modS [prog_simps]: "thenP (modS f) k (s, w) = k (f s, w)"
  by (simp add: thenP_def bindP_def modS_apply)

lemma ioP_apply: "ioP f (s, w) = Some (fst (f w), (s, snd (f w)))"
  by (simp add: ioP_def split: prod.splits)

lemma onS_Some [prog_simps]: "m s = Some (r, s') \<Longrightarrow> onS m (s, w) = Some (r, (s', w))"
  by (simp add: onS_def zoomP_def)

lemma bindP_onS_Inr [prog_simps]: "m s = Some (Inr x, s') \<Longrightarrow> bindP (onS m) k (s, w) = k x (s', w)"
  by (simp add: bindP_def onS_Some)

lemma returnP_apply [prog_simps]: "returnP x s = Some (Inr x, s)"
  by (simp add: returnP_def)

lemma raiseP_apply [prog_simps]: "raiseP e s = Some (Inl e, s)"
  by (simp add: raiseP_def)

lemma liftP_apply [prog_simps]: "liftP r s = Some (r, s)"
  by (simp add: liftP_def)

lemma getP_apply [prog_simps]: "getP f s = Some (Inr (f s), s)"
  by (simp add: getP_def)

lemma modifyP_apply [prog_simps]: "modifyP f s = Some (Inr (), f s)"
  by (simp add: modifyP_def)

lemma bindP_returnP [prog_simps]: "bindP (returnP x) k = k x"
  by (simp add: fun_eq_iff bindP_def returnP_def)

lemma bindP_raiseP [prog_simps]: "bindP (raiseP e) k = raiseP e"
  by (simp add: fun_eq_iff bindP_def raiseP_def)

lemma bindP_liftP_Inr [prog_simps]: "bindP (liftP (Inr x)) k = k x"
  by (simp add: fun_eq_iff bindP_def liftP_def)

lemma bindP_liftP_Inl [prog_simps]: "bindP (liftP (Inl e)) k = raiseP e"
  by (simp add: fun_eq_iff bindP_def liftP_def raiseP_def)

lemma bindP_getP [prog_simps]: "bindP (getP f) k s = k (f s) s"
  by (simp add: bindP_def getP_def)

lemma bindP_modifyP [prog_simps]: "bindP (modifyP f) k s = k () (f s)"
  by (simp add: bindP_def modifyP_def)

lemma thenP_modifyP [prog_simps]: "thenP (modifyP f) k s = k (f s)"
  by (simp add: thenP_def bindP_def modifyP_def)

lemma zoomP_Some: "m (get s) = Some (r, t) \<Longrightarrow> zoomP get put m s = Some (r, put t s)"
  by (simp add: zoomP_def)

lemma zoomP_eq_Some:
  "zoomP get put m s = Some (r, s') \<longleftrightarrow> (\<exists>t. m (get s) = Some (r, t) \<and> s' = put t s)"
  by (auto simp: zoomP_def split: option.splits)

lemma zoomP_eq_None: "zoomP get put m s = None \<longleftrightarrow> m (get s) = None"
  by (auto simp: zoomP_def split: option.splits)

lemma bindP_assoc: "bindP (bindP m k) h = bindP m (\<lambda>x. bindP (k x) h)"
  by (auto simp: fun_eq_iff bindP_def split: option.splits sum.splits)

lemma bindP_thenP: "bindP (thenP m k) h = thenP m (bindP k h)"
  by (simp add: thenP_def bindP_assoc)

lemma thenP_assoc: "thenP (thenP m k) h = thenP m (thenP k h)"
  by (simp add: thenP_def bindP_assoc)

lemma thenP_bindP: "thenP (bindP m k) h = bindP m (\<lambda>x. thenP (k x) h)"
  by (simp add: thenP_def bindP_assoc)

lemmas prog_assoc = bindP_assoc bindP_thenP thenP_assoc thenP_bindP

lemma bindP_Some_Inr: "m s = Some (Inr x, s') \<Longrightarrow> bindP m k s = k x s'"
  by (simp add: bindP_def)

lemma bindP_Some_Inl: "m s = Some (Inl e, s') \<Longrightarrow> bindP m k s = Some (Inl e, s')"
  by (simp add: bindP_def)

lemma bindP_None: "m s = None \<Longrightarrow> bindP m k s = None"
  by (simp add: bindP_def)

lemmas bindP_run = bindP_Some_Inr bindP_Some_Inl bindP_None

lemma bindP_eq_Some_Inr:
  "bindP m k s = Some (Inr y, t) \<longleftrightarrow> (\<exists>x s'. m s = Some (Inr x, s') \<and> k x s' = Some (Inr y, t))"
  by (auto simp: bindP_def split: option.splits sum.splits)

lemma bindP_eq_Some_Inl:
  "bindP m k s = Some (Inl e, t) \<longleftrightarrow>
     m s = Some (Inl e, t) \<or> (\<exists>x s'. m s = Some (Inr x, s') \<and> k x s' = Some (Inl e, t))"
  by (auto simp: bindP_def split: option.splits sum.splits)

text \<open>
  The recursion of a loop that may not end goes through \<open>bindP\<close> and through conditionals
  applied to the state; these are the monotonicity facts \<open>partial_function\<close> needs.
\<close>

lemma bindP_mono [partial_function_mono]:
  assumes "\<And>x t. monotone (fun_ord option_ord) option_ord (\<lambda>f. k f x t)"
  shows "monotone (fun_ord option_ord) option_ord (\<lambda>f. bindP m (k f) s)"
  using assms
  by (auto simp: monotone_def bindP_def flat_ord_def split: option.splits sum.splits)

lemma thenP_mono [partial_function_mono]:
  assumes "\<And>t. monotone (fun_ord option_ord) option_ord (\<lambda>f. k f t)"
  shows "monotone (fun_ord option_ord) option_ord (\<lambda>f. thenP m (k f) s)"
  using bindP_mono [of "\<lambda>f _. k f", OF assms] by (simp add: thenP_def)

lemma if_apply_mono [partial_function_mono]:
  assumes "monotone orda ordb (\<lambda>f. F f s)" and "monotone orda ordb (\<lambda>f. G f s)"
  shows "monotone orda ordb (\<lambda>f. (if c then F f else G f) s)"
  using assms by (cases c) simp_all

lemma case_option_apply_mono [partial_function_mono]:
  assumes "monotone orda ordb (\<lambda>f. F f s)" and "\<And>x. monotone orda ordb (\<lambda>f. G f x s)"
  shows "monotone orda ordb (\<lambda>f. (case y of None \<Rightarrow> F f | Some x \<Rightarrow> G f x) s)"
  using assms by (cases y) simp_all

lemma case_list_apply_mono [partial_function_mono]:
  assumes "monotone orda ordb (\<lambda>f. F f s)" and "\<And>x xs. monotone orda ordb (\<lambda>f. G f x xs s)"
  shows "monotone orda ordb (\<lambda>f. (case y of [] \<Rightarrow> F f | x # xs \<Rightarrow> G f x xs) s)"
  using assms by (cases y) simp_all

section \<open>Programs that always return\<close>

lemma bindP_returns:
  "m sw \<noteq> None \<Longrightarrow> (\<And>x sw'. m sw = Some (Inr x, sw') \<Longrightarrow> k x sw' \<noteq> None) \<Longrightarrow> bindP m k sw \<noteq> None"
  by (simp add: bindP_def split: option.splits sum.splits)

lemma bindP_returns_pair:
  "m sw \<noteq> None \<Longrightarrow> (\<And>x s' w'. m sw = Some (Inr x, (s', w')) \<Longrightarrow> k x (s', w') \<noteq> None) \<Longrightarrow> bindP m k sw \<noteq> None"
  by (rule bindP_returns) auto

lemma total_simps [simp]:
  "returnP x sw \<noteq> None" "raiseP e sw \<noteq> None" "liftP r sw \<noteq> None" "getS f sw \<noteq> None" "modS g sw \<noteq> None"
  by (simp_all add: returnP_def raiseP_def liftP_def getS_def getP_def modS_def modifyP_def)

lemma ioP_total [simp]: "ioP f sw \<noteq> None"
  by (cases sw) (simp add: ioP_apply)

lemma bindP_total: "m sw \<noteq> None \<Longrightarrow> (\<And>x sw'. k x sw' \<noteq> None) \<Longrightarrow> bindP m k sw \<noteq> None"
  by (rule bindP_returns)

lemma thenP_total: "m sw \<noteq> None \<Longrightarrow> (\<And>sw'. k sw' \<noteq> None) \<Longrightarrow> thenP m k sw \<noteq> None"
  unfolding thenP_def by (rule bindP_total)

lemma if_total: "(c \<Longrightarrow> m sw \<noteq> None) \<Longrightarrow> (\<not> c \<Longrightarrow> m' sw \<noteq> None) \<Longrightarrow> (if c then m else m') sw \<noteq> None"
  by simp

lemma option_total:
  "(m sw \<noteq> None) \<Longrightarrow> (\<And>x. k x sw \<noteq> None) \<Longrightarrow> (case y of None \<Rightarrow> m | Some x \<Rightarrow> k x) sw \<noteq> None"
  by (simp split: option.split)

lemma list_total:
  "(m sw \<noteq> None) \<Longrightarrow> (\<And>x xs. k x xs sw \<noteq> None) \<Longrightarrow> (case y of [] \<Rightarrow> m | x # xs \<Rightarrow> k x xs) sw \<noteq> None"
  by (simp split: list.split)

lemmas total_intros = bindP_total thenP_total if_total option_total list_total

section \<open>Hoare triples with an exceptional postcondition\<close>

definition hoare ::
  "('s \<Rightarrow> bool) \<Rightarrow> ('s, 'a) prog \<Rightarrow> ('a \<Rightarrow> 's \<Rightarrow> bool) \<Rightarrow> (py_error \<Rightarrow> 's \<Rightarrow> bool) \<Rightarrow> bool" where
  "hoare P m Q E \<longleftrightarrow>
     (\<forall>s r s'. P s \<longrightarrow> m s = Some (r, s') \<longrightarrow> (case r of Inl e \<Rightarrow> E e s' | Inr x \<Rightarrow> Q x s'))"

abbreviation keeps :: "('s \<Rightarrow> bool) \<Rightarrow> ('s, 'a) prog \<Rightarrow> bool" where
  "keeps P m \<equiv> hoare P m (\<lambda>_. P) (\<lambda>_. P)"

definition returns :: "('s \<Rightarrow> bool) \<Rightarrow> ('s, 'a) prog \<Rightarrow> bool" where
  "returns P m \<longleftrightarrow> (\<forall>s. P s \<longrightarrow> m s \<noteq> None)"

lemma hoareI:
  assumes "\<And>s x s'. P s \<Longrightarrow> m s = Some (Inr x, s') \<Longrightarrow> Q x s'"
    and "\<And>s e s'. P s \<Longrightarrow> m s = Some (Inl e, s') \<Longrightarrow> E e s'"
  shows "hoare P m Q E"
  using assms by (auto simp: hoare_def split: sum.splits)

lemma hoare_Inr: "hoare P m Q E \<Longrightarrow> P s \<Longrightarrow> m s = Some (Inr x, s') \<Longrightarrow> Q x s'"
  by (fastforce simp: hoare_def)

lemma hoare_Inl: "hoare P m Q E \<Longrightarrow> P s \<Longrightarrow> m s = Some (Inl e, s') \<Longrightarrow> E e s'"
  by (fastforce simp: hoare_def)

lemma keeps_run: "keeps P m \<Longrightarrow> P s \<Longrightarrow> m s = Some (r, s') \<Longrightarrow> P s'"
  by (cases r) (auto dest: hoare_Inr hoare_Inl)

lemma hoare_weaken:
  assumes "hoare P' m Q' E'" and "\<And>s. P s \<Longrightarrow> P' s"
    and "\<And>x s. Q' x s \<Longrightarrow> Q x s" and "\<And>e s. E' e s \<Longrightarrow> E e s"
  shows "hoare P m Q E"
  using assms by (fastforce simp: hoare_def split: sum.splits)

lemma hoare_returnP [hoare_rules]: "(\<And>s. P s \<Longrightarrow> Q x s) \<Longrightarrow> hoare P (returnP x) Q E"
  by (auto simp: hoare_def returnP_def)

lemma hoare_raiseP [hoare_rules]: "(\<And>s. P s \<Longrightarrow> E e s) \<Longrightarrow> hoare P (raiseP e) Q E"
  by (auto simp: hoare_def raiseP_def)

lemma hoare_liftP [hoare_rules]:
  "(\<And>s x. P s \<Longrightarrow> r = Inr x \<Longrightarrow> Q x s) \<Longrightarrow> (\<And>s e. P s \<Longrightarrow> r = Inl e \<Longrightarrow> E e s)
     \<Longrightarrow> hoare P (liftP r) Q E"
  by (auto simp: hoare_def liftP_def split: sum.splits)

lemma hoare_getP [hoare_rules]: "(\<And>s. P s \<Longrightarrow> Q (f s) s) \<Longrightarrow> hoare P (getP f) Q E"
  by (auto simp: hoare_def getP_def)

lemma hoare_modifyP [hoare_rules]: "(\<And>s. P s \<Longrightarrow> Q () (f s)) \<Longrightarrow> hoare P (modifyP f) Q E"
  by (auto simp: hoare_def modifyP_def)

lemma hoare_bindP:
  assumes "hoare P m R E" and "\<And>x. hoare (R x) (k x) Q E"
  shows "hoare P (bindP m k) Q E"
proof (rule hoareI)
  fix s x s'
  assume "P s" and "bindP m k s = Some (Inr x, s')"
  then show "Q x s'"
    using hoare_Inr [OF assms(1)] hoare_Inr [OF assms(2)]
    unfolding bindP_eq_Some_Inr by blast
next
  fix s e s'
  assume "P s" and "bindP m k s = Some (Inl e, s')"
  then show "E e s'"
    using hoare_Inr [OF assms(1)] hoare_Inl [OF assms(1)] hoare_Inl [OF assms(2)]
    unfolding bindP_eq_Some_Inl by blast
qed

lemma keeps_bindP [hoare_rules]:
  "keeps P m \<Longrightarrow> (\<And>x. keeps P (k x)) \<Longrightarrow> keeps P (bindP m k)"
  by (rule hoare_bindP)

lemma keeps_thenP [hoare_rules]: "keeps P m \<Longrightarrow> keeps P k \<Longrightarrow> keeps P (thenP m k)"
  unfolding thenP_def by (rule hoare_bindP)

lemma hoare_then_modifyP:
  "hoare P' k Q E \<Longrightarrow> (\<And>s. P s \<Longrightarrow> P' (f s)) \<Longrightarrow> hoare P (thenP (modifyP f) k) Q E"
  by (simp add: hoare_def prog_simps) blast

lemma keeps_getP [hoare_rules]: "keeps P (getP f)"
  by (rule hoare_getP)

lemma hoare_if [hoare_rules]:
  "(c \<Longrightarrow> hoare P m Q E) \<Longrightarrow> (\<not> c \<Longrightarrow> hoare P m' Q E) \<Longrightarrow> hoare P (if c then m else m') Q E"
  by simp

lemma hoare_case_option [hoare_rules]:
  "(y = None \<Longrightarrow> hoare P m Q E) \<Longrightarrow> (\<And>x. y = Some x \<Longrightarrow> hoare P (k x) Q E)
     \<Longrightarrow> hoare P (case y of None \<Rightarrow> m | Some x \<Rightarrow> k x) Q E"
  by (simp split: option.splits)

lemma hoare_case_list [hoare_rules]:
  "(y = [] \<Longrightarrow> hoare P m Q E) \<Longrightarrow> (\<And>x xs. y = x # xs \<Longrightarrow> hoare P (k x xs) Q E)
     \<Longrightarrow> hoare P (case y of [] \<Rightarrow> m | x # xs \<Rightarrow> k x xs) Q E"
  by (simp split: list.splits)

lemma hoare_case_prod [hoare_rules]:
  "(\<And>a b. y = (a, b) \<Longrightarrow> hoare P (k a b) Q E) \<Longrightarrow> hoare P (case y of (a, b) \<Rightarrow> k a b) Q E"
  by (simp split: prod.splits)

end
