(* ===== verification/Eap_Tls.thy ===== *)
theory Eap_Tls
  imports Proxy_Prelude
begin

text \<open>
  \<open>proxy/eap_tls.py\<close>, first half: the EAP-TLS packet codec (\<open>parse\<close>, \<open>build\<close>,
  \<open>build_ack\<close>). The lemmas give the wire layout \<open>build\<close> produces, the exact error
  conditions of both directions, the two round trips, and that the payload is opaque.
  The reassembler and \<open>fragment\<close> are in \<open>Eap_Reassembly\<close>.
\<close>

section \<open>Constants\<close>

datatype EapCode = REQUEST | RESPONSE | SUCCESS | FAILURE

fun eap_code_value :: "EapCode \<Rightarrow> nat" where
  "eap_code_value REQUEST = 1"
| "eap_code_value RESPONSE = 2"
| "eap_code_value SUCCESS = 3"
| "eap_code_value FAILURE = 4"

definition EAP_TYPE_TLS :: nat where "EAP_TYPE_TLS = 13"
definition EAP_HEADER_LEN :: nat where "EAP_HEADER_LEN = 4"
definition EAP_TLS_FLAGS_LEN :: nat where "EAP_TLS_FLAGS_LEN = 1"
definition EAP_TLS_MSGLEN_LEN :: nat where "EAP_TLS_MSGLEN_LEN = 4"

definition FLAG_LENGTH_INCLUDED :: byte where "FLAG_LENGTH_INCLUDED = 0x80"
definition FLAG_MORE_FRAGMENTS :: byte where "FLAG_MORE_FRAGMENTS = 0x40"
definition FLAG_START :: byte where "FLAG_START = 0x20"

lemmas eap_const_defs =
  EAP_TYPE_TLS_def EAP_HEADER_LEN_def EAP_TLS_FLAGS_LEN_def EAP_TLS_MSGLEN_LEN_def
  FLAG_LENGTH_INCLUDED_def FLAG_MORE_FRAGMENTS_def FLAG_START_def

section \<open>Packets\<close>

record eap_tls_packet =
  eap_code :: nat
  eap_identifier :: nat
  length_included :: bool
  more_fragments :: bool
  start :: bool
  tls_message_length :: "nat option"
  tls_data :: bytes

definition is_ack :: "eap_tls_packet \<Rightarrow> bool" where
  "is_ack pkt \<longleftrightarrow>
     \<not> length_included pkt \<and> \<not> more_fragments pkt \<and> \<not> start pkt \<and> length (tls_data pkt) = 0"

text \<open>
  \<open>packet[5]\<close> is read without a length check of its own: on a packet of exactly five bytes
  that passes the tests before it, Python raises \<open>IndexError\<close>.
\<close>

definition parse :: "bytes \<Rightarrow> py_error + eap_tls_packet" where
  "parse packet =
     (if length packet < EAP_HEADER_LEN + 1 then
        Inl (EapTlsError (PacketTooShort (length packet)))
      else
        let code = unat (packet ! 0);
            ident = unat (packet ! 1);
            declared_len = from_bytes_be (slice packet 2 4);
            eap_type = unat (packet ! 4) in
        if eap_type \<noteq> EAP_TYPE_TLS then Inl (EapTlsError (NotEapTls eap_type))
        else if declared_len \<noteq> length packet \<and> declared_len > length packet then
          Inl (EapTlsError (LengthExceedsBuffer declared_len (length packet)))
        else if length packet \<le> 5 then Inl IndexError
        else
          let flags = packet ! 5;
              has_length = flags AND FLAG_LENGTH_INCLUDED \<noteq> 0;
              mf = flags AND FLAG_MORE_FRAGMENTS \<noteq> 0;
              st = flags AND FLAG_START \<noteq> 0;
              offset = (6 :: nat) in
          if has_length \<and> length packet < offset + EAP_TLS_MSGLEN_LEN then
            Inl (EapTlsError MessageLengthTruncated)
          else
            let tml = (if has_length
                       then Some (from_bytes_be (slice packet offset (offset + EAP_TLS_MSGLEN_LEN)))
                       else None);
                offset' = (if has_length then offset + EAP_TLS_MSGLEN_LEN else offset);
                data = (if declared_len \<noteq> 0 then slice packet offset' declared_len
                        else drop offset' packet) in
            Inr \<lparr>eap_code = code, eap_identifier = ident, length_included = has_length,
                 more_fragments = mf, start = st, tls_message_length = tml,
                 tls_data = data\<rparr>)"

text \<open>
  \<open>int.to_bytes\<close> raises \<open>OverflowError\<close> when the value does not fit, \<open>bytes([x])\<close> raises
  \<open>ValueError\<close> when \<open>x\<close> is no byte; the order is the order of evaluation in the source.
\<close>

definition int_to_bytes :: "nat \<Rightarrow> nat \<Rightarrow> py_error + bytes" where
  "int_to_bytes v k = (if v < 256 ^ k then Inr (be_bytes k v) else Inl OverflowError)"

definition py_bytes :: "nat list \<Rightarrow> py_error + bytes" where
  "py_bytes xs = (if \<forall>x \<in> set xs. x < 256 then Inr (map word_of_nat xs)
                  else Inl (ValueError ''bytes must be in range(0, 256)''))"

definition build_flags :: "bool \<Rightarrow> nat option \<Rightarrow> bool \<Rightarrow> byte" where
  "build_flags mf tml st =
     (let flags = (0 :: byte);
          flags = (if tml \<noteq> None then flags OR FLAG_LENGTH_INCLUDED else flags);
          flags = (if mf then flags OR FLAG_MORE_FRAGMENTS else flags) in
      if st then flags OR FLAG_START else flags)"

definition build ::
  "nat \<Rightarrow> nat \<Rightarrow> bytes \<Rightarrow> bool \<Rightarrow> nat option \<Rightarrow> bool \<Rightarrow> py_error + bytes" where
  "build code ident data mf tml st =
     (let flags = build_flags mf tml st in
      case (case tml of None \<Rightarrow> Inr [] | Some n \<Rightarrow> int_to_bytes n EAP_TLS_MSGLEN_LEN) of
        Inl e \<Rightarrow> Inl e
      | Inr length_field \<Rightarrow>
          let body = [word_of_nat EAP_TYPE_TLS, flags] @ length_field @ data;
              total_len = EAP_HEADER_LEN + length body in
          case py_bytes [code, ident] of
            Inl e \<Rightarrow> Inl e
          | Inr front \<Rightarrow>
              (case int_to_bytes total_len 2 of
                 Inl e \<Rightarrow> Inl e
               | Inr len_field \<Rightarrow> Inr (front @ len_field @ body)))"

definition build_ack :: "nat \<Rightarrow> nat \<Rightarrow> py_error + bytes" where
  "build_ack code ident = build code ident [] False None False"

section \<open>The codec: layout, errors, round trips\<close>

lemma be_bytes_2: "be_bytes 2 v = [word_of_nat (v div 256 mod 256), word_of_nat (v mod 256)]"
  by (simp add: numeral_2_eq_2)

lemma be_bytes_4:
  "be_bytes 4 v = [word_of_nat (v div 16777216 mod 256), word_of_nat (v div 65536 mod 256),
     word_of_nat (v div 256 mod 256), word_of_nat (v mod 256)]"
proof -
  have "be_bytes (Suc (Suc (Suc (Suc 0)))) v =
     [word_of_nat (v div 16777216 mod 256), word_of_nat (v div 65536 mod 256),
      word_of_nat (v div 256 mod 256), word_of_nat (v mod 256)]"
    by (simp add: div_mult2_eq [symmetric])
  moreover have "(4 :: nat) = Suc (Suc (Suc (Suc 0)))" by simp
  ultimately show ?thesis by (rule ssubst [rotated])
qed

lemma slice_2_4 [simp]: "slice (a # b # c # d # xs) 2 4 = [c, d]"
  by (simp add: slice_def)

lemma build_flags_bits [simp]:
  "build_flags mf tml st AND FLAG_LENGTH_INCLUDED \<noteq> 0 \<longleftrightarrow> tml \<noteq> None"
  "build_flags mf tml st AND FLAG_MORE_FRAGMENTS \<noteq> 0 \<longleftrightarrow> mf"
  "build_flags mf tml st AND FLAG_START \<noteq> 0 \<longleftrightarrow> st"
  by (cases tml; cases mf; cases st; simp add: build_flags_def eap_const_defs)+

lemma build_flags_bits_eq_0 [simp]:
  "build_flags mf tml st AND FLAG_LENGTH_INCLUDED = 0 \<longleftrightarrow> tml = None"
  "build_flags mf tml st AND FLAG_MORE_FRAGMENTS = 0 \<longleftrightarrow> \<not> mf"
  "build_flags mf tml st AND FLAG_START = 0 \<longleftrightarrow> \<not> st"
  using build_flags_bits by blast+

definition length_field :: "nat option \<Rightarrow> bytes" where
  "length_field tml = (case tml of None \<Rightarrow> [] | Some n \<Rightarrow> be_bytes 4 n)"

definition wire_length :: "nat option \<Rightarrow> bytes \<Rightarrow> nat" where
  "wire_length tml data = 6 + length (length_field tml) + length data"

definition wire_layout :: "nat \<Rightarrow> nat \<Rightarrow> bytes \<Rightarrow> bool \<Rightarrow> nat option \<Rightarrow> bool \<Rightarrow> bytes" where
  "wire_layout c i data mf tml st =
     [word_of_nat c, word_of_nat i] @ be_bytes 2 (wire_length tml data) @
     [word_of_nat EAP_TYPE_TLS, build_flags mf tml st] @ length_field tml @ data"

definition buildable :: "nat \<Rightarrow> nat \<Rightarrow> bytes \<Rightarrow> nat option \<Rightarrow> bool" where
  "buildable c i data tml \<longleftrightarrow>
     c < 256 \<and> i < 256 \<and> wire_length tml data < 65536 \<and>
     (case tml of None \<Rightarrow> True | Some n \<Rightarrow> n < 256 ^ 4)"

lemma build_Inr:
  "build c i data mf tml st = Inr bs \<longleftrightarrow>
     buildable c i data tml \<and> bs = wire_layout c i data mf tml st"
  by (auto simp: build_def buildable_def wire_layout_def wire_length_def length_field_def
      int_to_bytes_def py_bytes_def Let_def EAP_HEADER_LEN_def EAP_TLS_MSGLEN_LEN_def
      split: option.splits if_splits)

lemma build_ack_Inr:
  "c < 256 \<Longrightarrow> i < 256 \<Longrightarrow> build_ack c i = Inr (wire_layout c i [] False None False)"
  by (simp add: build_ack_def build_Inr buildable_def wire_length_def length_field_def)

lemma length_wire_layout: "length (wire_layout c i data mf tml st) = wire_length tml data"
  by (simp add: wire_layout_def wire_length_def)

lemma from_be_bytes_2: "v < 65536 \<Longrightarrow> from_bytes_be (be_bytes 2 v) = v"
  by (rule from_be_bytes) simp

lemma parse_wire_layout:
  assumes "buildable c i data tml"
  shows "parse (wire_layout c i data mf tml st) =
    Inr \<lparr>eap_code = c, eap_identifier = i, length_included = (tml \<noteq> None),
         more_fragments = mf, start = st, tls_message_length = tml, tls_data = data\<rparr>"
proof -
  let ?n = "wire_length tml data"
  from assms have c: "c < 256" and i: "i < 256" and n: "?n < 65536"
    by (simp_all add: buildable_def)
  obtain a b where ab: "be_bytes 2 ?n = [a, b]" by (simp add: be_bytes_2)
  then have declared: "from_bytes_be [a, b] = ?n" using from_be_bytes_2 [OF n] by simp
  have layout: "wire_layout c i data mf tml st =
      word_of_nat c # word_of_nat i # a # b # 13 # build_flags mf tml st #
      (length_field tml @ data)"
    by (simp add: wire_layout_def ab EAP_TYPE_TLS_def)
  have len: "length (word_of_nat c # word_of_nat i # a # b # 13 # build_flags mf tml st #
      (length_field tml @ data)) = ?n"
    by (simp add: wire_length_def)
  show ?thesis
  proof (cases tml)
    case None
    then have "?n = 6 + length data" by (simp add: wire_length_def length_field_def)
    with None c i declared show ?thesis
      unfolding layout
      by (simp add: parse_def Let_def length_field_def EAP_TYPE_TLS_def EAP_HEADER_LEN_def
          slice_def [of _ 6] unat_of_nat)
  next
    case (Some m)
    then have "m < 256 ^ 4" and "?n = 10 + length data"
      using assms by (simp_all add: buildable_def wire_length_def length_field_def)
    with Some c i declared show ?thesis
      unfolding layout
      by (simp add: parse_def Let_def length_field_def EAP_TYPE_TLS_def EAP_HEADER_LEN_def
          EAP_TLS_MSGLEN_LEN_def slice_def [of _ 6] slice_def [of _ 10] unat_of_nat from_be_bytes)
  qed
qed

text \<open>C25: whatever \<open>build\<close> encodes, \<open>parse\<close> decodes to the same fields and payload.\<close>

theorem parse_build_roundtrip:
  assumes "build c i data mf tml st = Inr packet"
  shows "parse packet =
    Inr \<lparr>eap_code = c, eap_identifier = i, length_included = (tml \<noteq> None),
         more_fragments = mf, start = st, tls_message_length = tml, tls_data = data\<rparr>"
  using assms parse_wire_layout by (simp add: build_Inr)


theorem parse_build_roundtrip_witness:
  "parse [2, 7, 0, 12, 13, 0x80, 0, 0, 0, 2, 0xAB, 0xCD] =
    Inr \<lparr>eap_code = 2, eap_identifier = 7, length_included = True, more_fragments = False,
         start = False, tls_message_length = Some 2, tls_data = [0xAB, 0xCD]\<rparr>"
proof -
  have "build 2 7 [0xAB, 0xCD] False (Some 2) False =
      Inr [2, 7, 0, 12, 13, 0x80, 0, 0, 0, 2, 0xAB, 0xCD]"
    by (simp add: build_Inr buildable_def wire_layout_def wire_length_def length_field_def
        be_bytes_2 be_bytes_4 build_flags_def eap_const_defs)
  from parse_build_roundtrip [OF this] show ?thesis by simp
qed

text \<open>
  The exact outcome of \<open>build\<close>: the 4-octet TLS Message Length overflows first, then
  the header octets are checked, then the 16-bit EAP Length; otherwise the packet has
  the RFC layout.
\<close>

lemma build_outcome:
  "build c i data mf tml st =
     (if (\<exists>n. tml = Some n \<and> 256 ^ 4 \<le> n) then Inl OverflowError
      else if 256 \<le> c \<or> 256 \<le> i then Inl (ValueError ''bytes must be in range(0, 256)'')
      else if 65536 \<le> wire_length tml data then Inl OverflowError
      else Inr (wire_layout c i data mf tml st))"
proof -
  have header: "EAP_HEADER_LEN + length ([word_of_nat EAP_TYPE_TLS, fl] @ length_field tml @ data)
      = wire_length tml data" for fl :: byte
    by (simp add: wire_length_def EAP_HEADER_LEN_def)
  have len_field: "(case tml of None \<Rightarrow> Inr [] | Some n \<Rightarrow> int_to_bytes n EAP_TLS_MSGLEN_LEN) =
      (if (\<exists>n. tml = Some n \<and> 256 ^ 4 \<le> n) then Inl OverflowError else Inr (length_field tml))"
    by (simp add: int_to_bytes_def length_field_def EAP_TLS_MSGLEN_LEN_def not_le
        split: option.split)
  show ?thesis
  proof (cases "\<exists>n. tml = Some n \<and> 256 ^ 4 \<le> n")
    case True
    then show ?thesis unfolding build_def len_field Let_def by (simp only: if_True sum.case)
  next
    case False
    then show ?thesis unfolding build_def len_field Let_def
      by (simp only: if_False sum.case header int_to_bytes_def)
        (simp add: py_bytes_def wire_layout_def not_le)
  qed
qed

definition declared_length :: "bytes \<Rightarrow> nat" where
  "declared_length p = from_bytes_be (slice p 2 4)"

definition has_l_bit :: "bytes \<Rightarrow> bool" where
  "has_l_bit p \<longleftrightarrow> (p ! 5) AND FLAG_LENGTH_INCLUDED \<noteq> 0"

lemma parse_accepts:
  "(\<exists>pkt. parse p = Inr pkt) \<longleftrightarrow>
     6 \<le> length p \<and> unat (p ! 4) = EAP_TYPE_TLS \<and> declared_length p \<le> length p \<and>
     (if has_l_bit p then 10 else 6) \<le> length p"
  by (auto simp: parse_def Let_def declared_length_def has_l_bit_def EAP_HEADER_LEN_def
      EAP_TLS_MSGLEN_LEN_def)

text \<open>
  C38: the packets \<open>parse\<close> accepts, exactly, and the one kind of packet that gets past its
  length test and makes it read beyond the end: five octets of EAP-TLS, for which the caller
  gets an \<open>IndexError\<close> and not the \<open>EapTlsError\<close> of malformed framing.
\<close>

theorem parse_accepts_iff:
  "((\<exists>pkt. parse p = Inr pkt) \<longleftrightarrow>
     6 \<le> length p \<and> unat (p ! 4) = EAP_TYPE_TLS \<and> declared_length p \<le> length p \<and>
     (if has_l_bit p then 10 else 6) \<le> length p) \<and>
   (parse p = Inl IndexError \<longleftrightarrow> length p = 5 \<and> unat (p ! 4) = EAP_TYPE_TLS \<and> declared_length p \<le> 5)"
proof
  show "parse p = Inl IndexError \<longleftrightarrow> length p = 5 \<and> unat (p ! 4) = EAP_TYPE_TLS \<and> declared_length p \<le> 5"
    by (auto simp: parse_def Let_def declared_length_def EAP_HEADER_LEN_def)
qed (rule parse_accepts)

text \<open>
  The payload is opaque: it is a verbatim contiguous part of the packet, right after the
  framing octets.
\<close>

lemma parse_payload_verbatim:
  assumes "parse p = Inr pkt"
  shows "\<exists>pad. p = take (if length_included pkt then 10 else 6) p @ tls_data pkt @ pad"
proof -
  let ?off = "if length_included pkt then 10 else 6 :: nat"
  have "tls_data pkt = drop ?off (take (declared_length p) p) \<or> tls_data pkt = drop ?off p"
    using assms
    by (auto simp: parse_def Let_def declared_length_def EAP_TLS_MSGLEN_LEN_def slice_def
        split: if_splits)
  then obtain n where "tls_data pkt = drop ?off (take n p)" by (metis order_refl take_all)
  then have "tls_data pkt = take (n - ?off) (drop ?off p)" by (simp add: drop_take)
  then have "p = take ?off p @ tls_data pkt @ drop (n - ?off) (drop ?off p)"
    by (simp del: drop_drop)
  then show ?thesis by blast
qed

lemma byte_flag_cases:
  "\<forall>n \<in> set [0..<256]. (word_of_nat n :: byte) AND 0x1F = 0 \<longrightarrow>
     build_flags (word_of_nat n AND FLAG_MORE_FRAGMENTS \<noteq> 0)
       (if word_of_nat n AND FLAG_LENGTH_INCLUDED \<noteq> 0 then Some 0 else None)
       (word_of_nat n AND FLAG_START \<noteq> 0) = word_of_nat n"
  by code_simp

lemma build_flags_tml: "(tml = None) = (tml' = None) \<Longrightarrow> build_flags mf tml st = build_flags mf tml' st"
  by (simp add: build_flags_def)

lemma build_flags_decode:
  assumes "f AND 0x1F = 0" and "(tml = None) = (f AND FLAG_LENGTH_INCLUDED = 0)"
  shows "build_flags (f AND FLAG_MORE_FRAGMENTS \<noteq> 0) tml (f AND FLAG_START \<noteq> 0) = f"
proof -
  have "unat f \<in> set [0..<256]" by simp
  with byte_flag_cases have "word_of_nat (unat f) AND (0x1F :: byte) = 0 \<longrightarrow>
     build_flags (word_of_nat (unat f) AND FLAG_MORE_FRAGMENTS \<noteq> 0)
       (if word_of_nat (unat f) AND FLAG_LENGTH_INCLUDED \<noteq> 0 then Some 0 else None)
       (word_of_nat (unat f) AND FLAG_START \<noteq> 0) = word_of_nat (unat f)"
    by blast
  then show ?thesis
    using assms build_flags_tml [of tml "if f AND FLAG_LENGTH_INCLUDED \<noteq> 0 then Some 0 else None"]
    by simp
qed

lemma six_octets: "6 \<le> length p \<Longrightarrow> \<exists>c i a b t f rest. p = c # i # a # b # t # f # rest"
  by (simp add: numeral_eq_Suc Suc_le_length_iff) blast

text \<open>
  A canonical packet (no padding, reserved flag bits zero) is rebuilt octet for octet
  from its decoded fields.
\<close>

lemma build_parse_roundtrip:
  assumes "parse p = Inr pkt" and "declared_length p = length p" and "(p ! 5) AND 0x1F = 0"
  shows "build (eap_code pkt) (eap_identifier pkt) (tls_data pkt) (more_fragments pkt)
           (tls_message_length pkt) (start pkt) = Inr p"
proof -
  have six: "6 \<le> length p" and type13: "unat (p ! 4) = 13"
    and l10: "has_l_bit p \<Longrightarrow> 10 \<le> length p"
    using assms(1) parse_accepts [of p] by (auto simp: EAP_TYPE_TLS_def split: if_splits)
  obtain c i a b t f rest where p: "p = c # i # a # b # t # f # rest" using six_octets [OF six] by blast
  have dl: "from_bytes_be [a, b] = length p"
    using assms(2) by (simp only: p declared_length_def slice_2_4)
  have "be_bytes 2 (from_bytes_be [a, b]) = [a, b]"
    by (rule be_bytes_from_length) simp
  then have ab: "be_bytes 2 (length p) = [a, b]" by (simp only: dl)
  have small: "length p < 65536"
    using assms(2) from_bytes_be_bound [of "[a, b]"] by (simp add: p declared_length_def)
  have t: "word_of_nat EAP_TYPE_TLS = t"
    using type13 by (intro unsigned_word_eqI) (simp add: p EAP_TYPE_TLS_def)
  have fields: "eap_code pkt = unat c" "eap_identifier pkt = unat i"
    "more_fragments pkt = (f AND FLAG_MORE_FRAGMENTS \<noteq> 0)" "start pkt = (f AND FLAG_START \<noteq> 0)"
    using assms(1) by (auto simp: p parse_def Let_def split: if_splits)
  have tail: "length_field (tls_message_length pkt) @ tls_data pkt = rest \<and>
      (tls_message_length pkt = None) = (f AND FLAG_LENGTH_INCLUDED = 0) \<and>
      (case tls_message_length pkt of None \<Rightarrow> True | Some n \<Rightarrow> n < 256 ^ 4)"
  proof (cases "has_l_bit p")
    case True
    then have "4 \<le> length rest" using l10 by (simp add: p)
    then obtain w x y z rest' where r: "rest = w # x # y # z # rest'"
      by (auto simp: numeral_eq_Suc Suc_le_length_iff)
    have "be_bytes 4 (from_bytes_be [w, x, y, z]) = [w, x, y, z]"
      by (rule be_bytes_from_length) simp
    moreover have "from_bytes_be [w, x, y, z] < 256 ^ 4"
      using from_bytes_be_bound [of "[w, x, y, z]"] by simp
    ultimately show ?thesis
      using assms(1,2) True six
      by (auto simp: p r parse_def Let_def has_l_bit_def declared_length_def slice_def
          EAP_TLS_MSGLEN_LEN_def length_field_def split: if_splits)
  next
    case False
    then show ?thesis
      using assms(1,2)
      by (auto simp: p parse_def Let_def has_l_bit_def declared_length_def slice_def
          length_field_def split: if_splits)
  qed
  then have "length (length_field (tls_message_length pkt)) + length (tls_data pkt) = length rest"
    by (metis length_append)
  then have len: "wire_length (tls_message_length pkt) (tls_data pkt) = length p"
    by (simp add: wire_length_def p)
  have flags: "build_flags (more_fragments pkt) (tls_message_length pkt) (start pkt) = f"
    using tail assms(3) unfolding fields by (intro build_flags_decode) (simp_all add: p)
  have "wire_layout (eap_code pkt) (eap_identifier pkt) (tls_data pkt) (more_fragments pkt)
      (tls_message_length pkt) (start pkt) = p"
    unfolding wire_layout_def len ab t flags using tail by (simp add: fields p)
  moreover have "buildable (eap_code pkt) (eap_identifier pkt) (tls_data pkt) (tls_message_length pkt)"
    using tail small by (simp add: buildable_def fields len)
  ultimately show ?thesis by (simp add: build_Inr)
qed


end
