(* ===== verification/Eap_Reassembly.thy ===== *)
theory Eap_Reassembly
  imports Eap_Tls
begin

text \<open>
  \<open>proxy/eap_tls.py\<close>, second half: the \<open>Reassembler\<close> with \<open>reset\<close> and \<open>ingest\<close>, and
  \<open>fragment\<close>. The lemmas give one equation per branch of \<open>ingest\<close>, the abstract reassembly
  machine it refines, the bound on the buffer and what an overflow leaves behind, what
  \<open>fragment\<close> returns, and the round trip: fragments that are framed, sent, parsed and
  ingested give the message back.
\<close>

section \<open>Reassembly\<close>

datatype reassembly_state = IDLE | IN_PROGRESS | COMPLETE

fun reassembly_state_value :: "reassembly_state \<Rightarrow> nat" where
  "reassembly_state_value IDLE = 0"
| "reassembly_state_value IN_PROGRESS = 1"
| "reassembly_state_value COMPLETE = 2"

record reassembler =
  max_message_len :: int
  state :: reassembly_state
  buffer :: bytes
  expected_len :: "nat option"
  fragment_count :: nat

definition new_reassembler :: "int \<Rightarrow> reassembler" where
  "new_reassembler maxlen =
     \<lparr>max_message_len = maxlen, state = IDLE, buffer = [], expected_len = None,
      fragment_count = 0\<rparr>"

definition reset :: "reassembler \<Rightarrow> reassembler" where
  "reset r = r\<lparr>state := IDLE, buffer := [], expected_len := None, fragment_count := 0\<rparr>"

text \<open>
  \<open>ingest\<close> mutates the reassembler, so the model is a program over it: an exception leaves
  the reassembler as it was when the exception was raised. \<open>ingest_first\<close> is the block for
  the first fragment of a message, \<open>ingest_append\<close> the rest.
\<close>

definition ingest_first :: "eap_tls_packet \<Rightarrow> (reassembler, unit) prog" where
  "ingest_first pkt =
     thenP (modifyP reset)
      (thenP
        (case (if length_included pkt then tls_message_length pkt else None) of
           None \<Rightarrow> returnP ()
         | Some n \<Rightarrow>
             thenP (modifyP (\<lambda>r. r\<lparr>expected_len := Some n\<rparr>))
              (bindP (getP max_message_len) (\<lambda>maxlen.
                if int n > maxlen then raiseP (EapTlsError (DeclaredTooLong n maxlen))
                else returnP ())))
        (modifyP (\<lambda>r. r\<lparr>state := IN_PROGRESS\<rparr>)))"

definition ingest_append :: "eap_tls_packet \<Rightarrow> (reassembler, bytes option) prog" where
  "ingest_append pkt =
     thenP (modifyP (\<lambda>r. r\<lparr>buffer := buffer r @ tls_data pkt\<rparr>))
      (thenP (modifyP (\<lambda>r. r\<lparr>fragment_count := fragment_count r + 1\<rparr>))
        (bindP (getP id) (\<lambda>r.
          if int (length (buffer r)) > max_message_len r
          then raiseP (EapTlsError BufferExceeded)
          else if more_fragments pkt then returnP None
          else thenP (modifyP (\<lambda>r. r\<lparr>state := COMPLETE\<rparr>))
                (returnP (Some (buffer r))))))"

definition ingest :: "eap_tls_packet \<Rightarrow> (reassembler, bytes option) prog" where
  "ingest pkt =
     (if is_ack pkt then returnP None
      else bindP (getP state) (\<lambda>st.
        if st = IDLE \<or> st = COMPLETE
        then thenP (ingest_first pkt) (ingest_append pkt)
        else ingest_append pkt))"

section \<open>Fragmentation\<close>

definition fragment :: "bytes \<Rightarrow> int \<Rightarrow> py_error + bytes list" where
  "fragment tls_message fragment_size =
     (if fragment_size \<le> 0 then Inl (EapTlsError BadFragmentSize)
      else if tls_message = [] then Inr [[]]
      else Inr (py_chunks tls_message (nat fragment_size)))"



section \<open>One equation per branch of \<open>ingest\<close>\<close>

definition ready :: "reassembler \<Rightarrow> bool" where
  "ready r \<longleftrightarrow> state r = IDLE \<or> state r = COMPLETE"

lemma not_ready: "\<not> ready r \<longleftrightarrow> state r = IN_PROGRESS"
  by (cases "state r") (simp_all add: ready_def)

definition appended :: "eap_tls_packet \<Rightarrow> reassembler \<Rightarrow> reassembler" where
  "appended pkt r = r\<lparr>buffer := buffer r @ tls_data pkt, fragment_count := fragment_count r + 1\<rparr>"

definition declared_tml :: "eap_tls_packet \<Rightarrow> nat option" where
  "declared_tml pkt = (if length_included pkt then tls_message_length pkt else None)"

definition started :: "eap_tls_packet \<Rightarrow> reassembler \<Rightarrow> reassembler" where
  "started pkt r = (reset r)\<lparr>expected_len := declared_tml pkt, state := IN_PROGRESS\<rparr>"

lemma ingest_ack [simp]: "is_ack pkt \<Longrightarrow> ingest pkt r = Some (Inr None, r)"
  by (simp add: ingest_def prog_simps)

lemma ingest_append_eq:
  "ingest_append pkt r =
     (if int (length (buffer r @ tls_data pkt)) > max_message_len r
      then Some (Inl (EapTlsError BufferExceeded), appended pkt r)
      else if more_fragments pkt then Some (Inr None, appended pkt r)
      else Some (Inr (Some (buffer r @ tls_data pkt)), (appended pkt r)\<lparr>state := COMPLETE\<rparr>))"
  by (simp add: ingest_append_def prog_simps appended_def)

lemma ingest_first_ok:
  assumes "\<And>n. declared_tml pkt = Some n \<Longrightarrow> int n \<le> max_message_len r"
  shows "ingest_first pkt r = Some (Inr (), started pkt r)"
proof (cases "declared_tml pkt")
  case None
  then show ?thesis
    by (simp add: ingest_first_def prog_simps declared_tml_def started_def reset_def thenP_def)
next
  case (Some n)
  with assms have "int n \<le> max_message_len r" by simp
  with Some show ?thesis
    by (simp add: ingest_first_def prog_simps declared_tml_def started_def reset_def thenP_def
        bindP_def getP_def modifyP_def returnP_def split: if_splits)
qed

lemma ingest_first_too_long:
  assumes "declared_tml pkt = Some n" and "int n > max_message_len r"
  shows "ingest_first pkt r =
    Some (Inl (EapTlsError (DeclaredTooLong n (max_message_len r))), (reset r)\<lparr>expected_len := Some n\<rparr>)"
  using assms
  by (simp add: ingest_first_def declared_tml_def reset_def thenP_def bindP_def getP_def modifyP_def
      raiseP_def split: if_splits)

lemma ingest_ready:
  assumes "\<not> is_ack pkt" and "ready r" and "\<And>n. declared_tml pkt = Some n \<Longrightarrow> int n \<le> max_message_len r"
  shows "ingest pkt r = ingest_append pkt (started pkt r)"
proof -
  have "ingest_first pkt r = Some (Inr (), started pkt r)" by (rule ingest_first_ok) (rule assms(3))
  then show ?thesis
    using assms(1,2) by (auto simp: ingest_def prog_simps ready_def thenP_def bindP_Some_Inr)
qed

lemma ingest_ready_too_long:
  assumes "\<not> is_ack pkt" and "ready r" and "declared_tml pkt = Some n" and "int n > max_message_len r"
  shows "ingest pkt r =
    Some (Inl (EapTlsError (DeclaredTooLong n (max_message_len r))), (reset r)\<lparr>expected_len := Some n\<rparr>)"
proof -
  note ingest_first_too_long [OF assms(3,4)]
  then show ?thesis
    using assms(1,2) by (auto simp: ingest_def prog_simps ready_def thenP_def bindP_Some_Inl)
qed

lemma ingest_in_progress:
  "\<not> is_ack pkt \<Longrightarrow> state r = IN_PROGRESS \<Longrightarrow> ingest pkt r = ingest_append pkt r"
  by (simp add: ingest_def prog_simps)

lemma started_sel [simp]:
  "max_message_len (started pkt r) = max_message_len r" "state (started pkt r) = IN_PROGRESS"
  "buffer (started pkt r) = []" "expected_len (started pkt r) = declared_tml pkt"
  "fragment_count (started pkt r) = 0"
  by (simp_all add: started_def reset_def)

lemma appended_sel [simp]:
  "max_message_len (appended pkt r) = max_message_len r" "state (appended pkt r) = state r"
  "buffer (appended pkt r) = buffer r @ tls_data pkt"
  "expected_len (appended pkt r) = expected_len r"
  "fragment_count (appended pkt r) = fragment_count r + 1"
  by (simp_all add: appended_def)

lemma ingest_total: "ingest pkt r \<noteq> None"
proof (cases "is_ack pkt")
  case False
  show ?thesis
  proof (cases "ready r \<and> (\<exists>n. declared_tml pkt = Some n \<and> int n > max_message_len r)")
    case True
    with False show ?thesis using ingest_ready_too_long by fastforce
  next
    case no: False
    then have "ingest pkt r = ingest_append pkt (started pkt r) \<or> ingest pkt r = ingest_append pkt r"
      using False ingest_ready [of pkt r] ingest_in_progress [of pkt r] not_ready [of r]
      by (auto simp: not_less)
    then show ?thesis by (auto simp: ingest_append_eq)
  qed
qed simp


section \<open>What a reassembler promises\<close>

text \<open>
  The abstract machine: either nothing is pending, or the octets received so far. A data
  packet is appended; the packet without the M bit hands the whole message out.
\<close>

definition spec_ingest :: "eap_tls_packet \<Rightarrow> bytes option \<Rightarrow> bytes option \<times> bytes option" where
  "spec_ingest pkt pend =
     (if is_ack pkt then (None, pend)
      else let acc = (case pend of None \<Rightarrow> [] | Some b \<Rightarrow> b) @ tls_data pkt in
        if more_fragments pkt then (None, Some acc) else (Some acc, None))"

definition accumulated :: "bytes option \<Rightarrow> bytes" where
  "accumulated pend = (case pend of None \<Rightarrow> [] | Some b \<Rightarrow> b)"

definition admissible :: "eap_tls_packet \<Rightarrow> bytes option \<Rightarrow> int \<Rightarrow> bool" where
  "admissible pkt pend maxlen \<longleftrightarrow>
     int (length (accumulated pend) + length (tls_data pkt)) \<le> maxlen \<and>
     (pend = None \<longrightarrow> (case declared_tml pkt of None \<Rightarrow> True | Some n \<Rightarrow> int n \<le> maxlen))"

text \<open>All fragments of one message: none is an ACK and the M bit is on all but the last.\<close>

definition data_fragments :: "eap_tls_packet list \<Rightarrow> bool" where
  "data_fragments pkts \<longleftrightarrow> pkts \<noteq> [] \<and>
     (\<forall>k < length pkts. \<not> is_ack (pkts ! k) \<and> more_fragments (pkts ! k) = (k + 1 < length pkts))"

lemma data_fragments_Cons:
  "data_fragments (p # ps) \<longleftrightarrow>
     \<not> is_ack p \<and> more_fragments p = (ps \<noteq> []) \<and> (ps = [] \<or> data_fragments ps)"
  by (auto simp: data_fragments_def All_less_Suc2)

locale reassembly =
  fixes feed :: "eap_tls_packet \<Rightarrow> ('r, bytes option) prog"
    and pending :: "'r \<Rightarrow> bytes option"
    and limit :: "'r \<Rightarrow> int"
  assumes feed_accepts: "admissible pkt (pending r) (limit r) \<Longrightarrow> \<exists>out r'. feed pkt r = Some (Inr out, r')"
    and feed_refines: "feed pkt r = Some (Inr out, r') \<Longrightarrow> spec_ingest pkt (pending r) = (out, pending r')"
    and feed_limit: "feed pkt r = Some (x, r') \<Longrightarrow> limit r' = limit r"
begin

lemma feed_step:
  assumes "admissible pkt (pending r) (limit r)"
  shows "\<exists>r'. feed pkt r = Some (Inr (fst (spec_ingest pkt (pending r))), r') \<and>
    pending r' = snd (spec_ingest pkt (pending r)) \<and> limit r' = limit r"
  using feed_accepts [OF assms] feed_refines feed_limit by fastforce

lemma feed_fragments:
  assumes "data_fragments pkts"
    and "int (length (accumulated (pending r)) + length (concat (map tls_data pkts))) \<le> limit r"
    and "admissible (hd pkts) (pending r) (limit r)"
  shows "\<exists>r'. mapP feed pkts r =
      Some (Inr (replicate (length pkts - 1) None @
                 [Some (accumulated (pending r) @ concat (map tls_data pkts))]), r') \<and>
    pending r' = None \<and> limit r' = limit r"
  using assms
proof (induction pkts arbitrary: r)
  case Nil
  then show ?case by (simp add: data_fragments_def)
next
  case (Cons p ps)
  from Cons.prems(1) have p: "\<not> is_ack p" "more_fragments p = (ps \<noteq> [])"
    and ps: "ps = [] \<or> data_fragments ps"
    by (simp_all add: data_fragments_Cons)
  obtain r1 where r1: "feed p r = Some (Inr (fst (spec_ingest p (pending r))), r1)"
    "pending r1 = snd (spec_ingest p (pending r))" "limit r1 = limit r"
    using feed_step Cons.prems(3) by fastforce
  show ?case
  proof (cases "ps = []")
    case True
    with p r1 show ?thesis
      by (simp add: spec_ingest_def accumulated_def Let_def bindP_Some_Inr prog_simps)
  next
    case False
    then have pend: "pending r1 = Some (accumulated (pending r) @ tls_data p)"
      using p r1(2) by (simp add: spec_ingest_def accumulated_def Let_def)
    then have acc: "accumulated (pending r1) = accumulated (pending r) @ tls_data p"
      by (simp add: accumulated_def)
    have bound: "int (length (accumulated (pending r1)) + length (concat (map tls_data ps))) \<le> limit r1"
      using Cons.prems(2) by (simp add: acc r1(3))
    have "length (tls_data (hd ps)) \<le> length (concat (map tls_data ps))"
      using False by (cases ps) simp_all
    with bound have "admissible (hd ps) (pending r1) (limit r1)"
      by (simp add: admissible_def pend accumulated_def)
    then obtain r' where "mapP feed ps r1 =
        Some (Inr (replicate (length ps - 1) None @
                   [Some (accumulated (pending r1) @ concat (map tls_data ps))]), r')"
      "pending r' = None" "limit r' = limit r1"
      using Cons.IH [of r1] False ps bound by blast
    moreover have "feed p r = Some (Inr None, r1)"
      using False p r1(1) by (simp add: spec_ingest_def Let_def)
    moreover have "replicate (length ps) (None :: bytes option) = None # replicate (length ps - 1) None"
      using False by (cases ps) simp_all
    ultimately show ?thesis
      by (simp add: bindP_Some_Inr prog_simps acc r1(3))
  qed
qed

end

definition abs_reasm :: "reassembler \<Rightarrow> bytes option" where
  "abs_reasm r = (if state r = IN_PROGRESS then Some (buffer r) else None)"

lemma ready_abs: "ready r \<longleftrightarrow> abs_reasm r = None"
  by (cases "state r") (simp_all add: ready_def abs_reasm_def)

lemma ingest_cases:
  obtains (ack) "is_ack pkt" "ingest pkt r = Some (Inr None, r)"
  | (too_long) n where "\<not> is_ack pkt" "ready r" "declared_tml pkt = Some n" "int n > max_message_len r"
      "ingest pkt r = Some (Inl (EapTlsError (DeclaredTooLong n (max_message_len r))),
         (reset r)\<lparr>expected_len := Some n\<rparr>)"
  | (append) r1 where "\<not> is_ack pkt" "state r1 = IN_PROGRESS" "max_message_len r1 = max_message_len r"
      "buffer r1 = accumulated (abs_reasm r)" "ingest pkt r = ingest_append pkt r1"
      "ready r \<Longrightarrow> r1 = started pkt r" "\<not> ready r \<Longrightarrow> r1 = r"
      "ready r \<Longrightarrow> \<forall>n. declared_tml pkt = Some n \<longrightarrow> int n \<le> max_message_len r"
proof -
  consider "is_ack pkt" | "\<not> is_ack pkt" "\<not> ready r"
    | n where "\<not> is_ack pkt" "ready r" "declared_tml pkt = Some n" "int n > max_message_len r"
    | "\<not> is_ack pkt" "ready r" "\<forall>n. declared_tml pkt = Some n \<longrightarrow> int n \<le> max_message_len r"
    by (metis not_le)
  then show thesis
  proof cases
    case 1
    then show ?thesis using ack by simp
  next
    case 2
    then have "state r = IN_PROGRESS" by (simp add: not_ready)
    then show ?thesis
      using 2 append [of r] ingest_in_progress [of pkt r] by (simp add: accumulated_def abs_reasm_def)
  next
    case 3
    then show ?thesis using too_long ingest_ready_too_long by blast
  next
    case 4
    then show ?thesis
      using append [of "started pkt r"] ingest_ready [of pkt r] by (simp add: accumulated_def ready_abs)
  qed
qed

lemma ingest_refines:
  assumes "ingest pkt r = Some (Inr out, r')"
  shows "spec_ingest pkt (abs_reasm r) = (out, abs_reasm r')"
proof (cases pkt r rule: ingest_cases)
  case ack
  then show ?thesis using assms by (simp add: spec_ingest_def)
next
  case (too_long n)
  then show ?thesis using assms by simp
next
  case (append r1)
  then show ?thesis
    using assms
    by (auto simp: ingest_append_eq spec_ingest_def abs_reasm_def accumulated_def [symmetric] Let_def
        split: if_splits)
qed


text \<open>C23: \<open>ingest\<close> refines the abstract reassembly machine.\<close>

theorem ingest_refines_spec:
  assumes "ingest pkt r = Some (Inr out, r')"
  shows "spec_ingest pkt (abs_reasm r) = (out, abs_reasm r')"
  using assms by (rule ingest_refines)

theorem ingest_refines_spec_witness:
  "spec_ingest \<lparr>eap_code = 2, eap_identifier = 7, length_included = False, more_fragments = False,
      start = False, tls_message_length = None, tls_data = [9]\<rparr> None = (Some [9], None)"
proof -
  let ?p = "\<lparr>eap_code = 2, eap_identifier = 7, length_included = False, more_fragments = False,
      start = False, tls_message_length = None, tls_data = [9]\<rparr>"
  let ?r = "new_reassembler 4096"
  have "ingest ?p ?r = Some (Inr (Some [9]), ?r\<lparr>state := COMPLETE, buffer := [9], fragment_count := 1\<rparr>)"
    by code_simp
  from ingest_refines_spec [OF this] show ?thesis
    by (simp add: abs_reasm_def new_reassembler_def)
qed

lemma ingest_admissible:
  assumes "admissible pkt (abs_reasm r) (max_message_len r)"
  shows "\<exists>out r'. ingest pkt r = Some (Inr out, r')"
proof (cases pkt r rule: ingest_cases)
  case (too_long n)
  then show ?thesis using assms by (simp add: admissible_def ready_abs)
next
  case (append r1)
  then show ?thesis using assms by (simp add: ingest_append_eq admissible_def)
qed simp

lemma reset_sel [simp]:
  "max_message_len (reset r) = max_message_len r" "state (reset r) = IDLE" "buffer (reset r) = []"
  "fragment_count (reset r) = 0"
  by (simp_all add: reset_def)

lemma ingest_limit:
  assumes "ingest pkt r = Some (x, r')"
  shows "max_message_len r' = max_message_len r"
proof (cases pkt r rule: ingest_cases)
  case (append r1)
  then show ?thesis using assms by (auto simp: ingest_append_eq split: if_splits)
qed (use assms in auto)

interpretation reasm: reassembly ingest abs_reasm max_message_len
  by unfold_locales (fact ingest_admissible ingest_refines ingest_limit)+


section \<open>The buffer bound\<close>

definition bounded :: "reassembler \<Rightarrow> bool" where
  "bounded r \<longleftrightarrow> int (length (buffer r)) \<le> max_message_len r"

definition overflowed :: "reassembler \<Rightarrow> bool" where
  "overflowed r \<longleftrightarrow> state r = IN_PROGRESS \<and> int (length (buffer r)) > max_message_len r"

lemma ingest_append_bound:
  "state r = IN_PROGRESS \<Longrightarrow>
   hoare (\<lambda>t. t = r) (ingest_append pkt)
     (\<lambda>out t. bounded t \<and> (case out of None \<Rightarrow> True | Some m \<Rightarrow> m = buffer t \<and> state t = COMPLETE))
     (\<lambda>e t. e = EapTlsError BufferExceeded \<and> overflowed t)"
  by (auto simp: hoare_def ingest_append_eq bounded_def overflowed_def split: if_splits)

text \<open>
  C37: a reassembler within its bound stays within it as long as no exception is raised, a
  message it returns is its buffer, so it obeys the bound too; of the two exceptions, the
  declared-length one leaves an idle, empty reassembler and the overflow one leaves a
  reassembler in progress with a buffer above the bound.
\<close>

theorem ingest_bounded:
  "hoare bounded (ingest pkt)
     (\<lambda>out r. bounded r \<and> (case out of None \<Rightarrow> True | Some m \<Rightarrow> m = buffer r \<and> state r = COMPLETE))
     (\<lambda>e r. (e = EapTlsError BufferExceeded \<and> overflowed r) \<or>
            (\<exists>n m. e = EapTlsError (DeclaredTooLong n m) \<and> state r = IDLE \<and> buffer r = []))"
    (is "hoare _ _ ?Q ?E")
proof -
  have "case x of Inl e \<Rightarrow> ?E e r' | Inr out \<Rightarrow> ?Q out r'"
    if "bounded r" and run: "ingest pkt r = Some (x, r')" for r x r'
  proof (cases pkt r rule: ingest_cases)
    case ack
    with that show ?thesis by auto
  next
    case (too_long n)
    with run show ?thesis by auto
  next
    case (append r1)
    then have run1: "ingest_append pkt r1 = Some (x, r')" using run by simp
    note bound = ingest_append_bound [OF \<open>state r1 = IN_PROGRESS\<close>, of pkt]
    show ?thesis
      using hoare_Inl [OF bound refl] hoare_Inr [OF bound refl] run1 by (cases x) simp_all
  qed
  then show ?thesis unfolding hoare_def by blast
qed

text \<open>
  the overflow exception does not reset the reassembler: it stays in progress, so every
  later data packet is appended to the oversized buffer and raises again.
\<close>

lemma ingest_overflow_sticks:
  assumes "overflowed r" and "\<not> is_ack pkt"
  shows "\<exists>r'. ingest pkt r = Some (Inl (EapTlsError BufferExceeded), r') \<and>
    overflowed r' \<and> buffer r' = buffer r @ tls_data pkt"
  using assms by (auto simp: overflowed_def ingest_in_progress ingest_append_eq)

section \<open>Fragmentation\<close>

lemma fragment_Inr:
  "fragment msg fsize = Inr chunks \<longleftrightarrow>
     0 < fsize \<and> chunks = (if msg = [] then [[]] else chop (nat fsize) msg)"
  by (auto simp: fragment_def py_chunks_chop)

lemma fragment_ok: "0 < fsize \<Longrightarrow> \<exists>chunks. fragment msg fsize = Inr chunks"
  by (auto simp: fragment_Inr)

lemma fragment_concat: "fragment msg fsize = Inr chunks \<Longrightarrow> concat chunks = msg"
  by (auto simp: fragment_Inr concat_chop split: if_splits)

lemma fragment_nonempty: "fragment msg fsize = Inr chunks \<Longrightarrow> chunks \<noteq> []"
  by (auto simp: fragment_Inr chop_eq_Nil_iff split: if_splits)

lemma fragment_chunk_nonempty:
  "fragment msg fsize = Inr chunks \<Longrightarrow> k < length chunks \<Longrightarrow> k \<noteq> 0 \<Longrightarrow> chunks ! k \<noteq> []"
  by (auto simp: fragment_Inr split: if_splits dest!: nth_mem chop_nonempty)

lemma fragment_chunk_le:
  "fragment msg fsize = Inr chunks \<Longrightarrow> c \<in> set chunks \<Longrightarrow> int (length c) \<le> fsize"
  by (auto simp: fragment_Inr split: if_splits dest!: chop_length_le)

text \<open>
  C36: what \<open>fragment\<close> returns: chunks that concatenate to the message, none above the
  fragment size, all but the last exactly of that size, and the least number of them.
\<close>

theorem fragment_chunks:
  assumes "fragment msg fsize = Inr chunks"
  shows "concat chunks = msg \<and> (\<forall>c \<in> set chunks. int (length c) \<le> fsize) \<and>
    (\<forall>c \<in> set (butlast chunks). int (length c) = fsize) \<and>
    length chunks = (if msg = [] then 1 else (length msg + nat fsize - 1) div nat fsize)"
proof (intro conjI)
  show "concat chunks = msg" by (rule fragment_concat [OF assms])
  show "\<forall>c \<in> set chunks. int (length c) \<le> fsize" using fragment_chunk_le [OF assms] by blast
  show "\<forall>c \<in> set (butlast chunks). int (length c) = fsize"
    using assms by (auto simp: fragment_Inr split: if_splits dest!: chop_butlast_full)
  show "length chunks = (if msg = [] then 1 else (length msg + nat fsize - 1) div nat fsize)"
    using assms length_chop [of "nat fsize" msg] by (auto simp: fragment_Inr)
qed

theorem fragment_chunks_witness:
  "fragment [1, 2, 3, 4, 5] 2 = Inr [[1, 2], [3, 4], [5 :: byte]] \<and>
   concat [[1, 2], [3, 4], [5 :: byte]] = [1, 2, 3, 4, 5] \<and>
   list_all (\<lambda>c. int (length c) \<le> 2) [[1, 2], [3, 4], [5 :: byte]] \<and>
   length [[1, 2], [3, 4], [5 :: byte]] = (5 + nat 2 - 1) div nat 2"
proof -
  have run: "fragment [1, 2, 3, 4, 5] 2 = Inr [[1, 2], [3, 4], [5]]" by code_simp
  from fragment_chunks [OF run] run show ?thesis by (simp add: list_all_iff)
qed

section \<open>Fragments through the wire and back\<close>

text \<open>
  How the proxy frames chunk \<open>k\<close> of \<open>n\<close>: L and the total on the first, M on all but the
  last. \<open>receive\<close> is what it does with an inbound packet.
\<close>

definition frame_chunk :: "nat \<Rightarrow> nat \<Rightarrow> nat \<Rightarrow> nat \<Rightarrow> nat \<Rightarrow> bytes \<Rightarrow> py_error + bytes" where
  "frame_chunk code ident tlen n k chunk =
     build code ident chunk (k + 1 < n) (if k = 0 then Some tlen else None) False"

definition receive :: "bytes \<Rightarrow> (reassembler, bytes option) prog" where
  "receive packet = bindP (liftP (parse packet)) ingest"

definition chunk_packet :: "nat \<Rightarrow> nat \<Rightarrow> nat \<Rightarrow> nat \<Rightarrow> nat \<Rightarrow> bytes \<Rightarrow> eap_tls_packet" where
  "chunk_packet code ident tlen n k chunk =
     \<lparr>eap_code = code, eap_identifier = ident, length_included = (k = 0),
      more_fragments = (k + 1 < n), start = False,
      tls_message_length = (if k = 0 then Some tlen else None), tls_data = chunk\<rparr>"

lemma parse_frame_chunk:
  "frame_chunk code ident tlen n k chunk = Inr w \<Longrightarrow>
   parse w = Inr (chunk_packet code ident tlen n k chunk)"
  by (auto simp: frame_chunk_def chunk_packet_def build_Inr parse_wire_layout)

lemma receive_parsed: "parse w = Inr pkt \<Longrightarrow> receive w = ingest pkt"
  by (simp add: receive_def prog_simps)

lemma mapP_receive:
  "list_all2 (\<lambda>w pkt. parse w = Inr pkt) wires pkts \<Longrightarrow> mapP receive wires = mapP ingest pkts"
  by (induction rule: list_all2_induct) (simp_all add: receive_parsed)

lemma chunk_packets_data:
  assumes "fragment msg fsize = Inr chunks" and "length ids = length chunks"
    and pkts: "pkts = map (\<lambda>k. chunk_packet code (ids ! k) (length msg) (length chunks) k (chunks ! k))
                     [0..<length chunks]"
  shows "data_fragments pkts" and "concat (map tls_data pkts) = msg"
    and "declared_tml (hd pkts) = Some (length msg)"
proof -
  have ne: "chunks \<noteq> []" by (rule fragment_nonempty [OF assms(1)])
  show "data_fragments pkts"
    using ne fragment_chunk_nonempty [OF assms(1)]
    by (auto simp: data_fragments_def pkts chunk_packet_def is_ack_def)
  have "map tls_data pkts = chunks"
    by (simp add: pkts chunk_packet_def comp_def map_nth)
  then show "concat (map tls_data pkts) = msg" using fragment_concat [OF assms(1)] by simp
  show "declared_tml (hd pkts) = Some (length msg)"
    using ne by (simp add: pkts hd_map chunk_packet_def declared_tml_def)
qed

lemma reassemble_framed:
  assumes chunks: "fragment msg fsize = Inr chunks"
    and ids: "length ids = length chunks" and wires: "length wires = length chunks"
    and framed: "\<forall>k < length chunks.
      frame_chunk code (ids ! k) (length msg) (length chunks) k (chunks ! k) = Inr (wires ! k)"
    and fits: "int (length msg) \<le> max_message_len r" and rdy: "ready r"
  shows "\<exists>r'. mapP receive wires r = Some (Inr (replicate (length chunks - 1) None @ [Some msg]), r') \<and>
    ready r' \<and> max_message_len r' = max_message_len r"
proof -
  let ?pkts = "map (\<lambda>k. chunk_packet code (ids ! k) (length msg) (length chunks) k (chunks ! k))
                 [0..<length chunks]"
  note data = chunk_packets_data [OF chunks ids refl, of code]
  have "list_all2 (\<lambda>w pkt. parse w = Inr pkt) wires ?pkts"
    using wires framed by (auto simp: list_all2_conv_all_nth parse_frame_chunk)
  then have run: "mapP receive wires = mapP ingest ?pkts" by (rule mapP_receive)
  have none: "abs_reasm r = None" using rdy by (simp add: ready_abs)
  have "length (tls_data (hd ?pkts)) \<le> length (concat (map tls_data ?pkts))"
    using fragment_nonempty [OF chunks] by (cases ?pkts) auto
  then have "admissible (hd ?pkts) (abs_reasm r) (max_message_len r)"
    using fits data by (simp add: admissible_def none accumulated_def)
  moreover have "int (length (accumulated (abs_reasm r)) + length (concat (map tls_data ?pkts)))
      \<le> max_message_len r"
    using fits data(2) by (simp add: none accumulated_def)
  ultimately obtain r' where "mapP ingest ?pkts r =
      Some (Inr (replicate (length ?pkts - 1) None @
        [Some (accumulated (abs_reasm r) @ concat (map tls_data ?pkts))]), r')"
    and "abs_reasm r' = None" and "max_message_len r' = max_message_len r"
    using reasm.feed_fragments [OF data(1)] by blast
  then show ?thesis using data(2) by (simp add: run none accumulated_def ready_abs)
qed

text \<open>
  C24: fragmentation and reassembly are inverse through the wire format: a message that is
  fragmented at any positive size, framed with any Identifiers, and received by a
  reassembler that is not in the middle of a message comes out unchanged on the last
  fragment, and nothing comes out before.
\<close>

theorem fragment_reassemble_roundtrip:
  assumes "fragment msg fsize = Inr chunks"
    and "length ids = length chunks" and "length wires = length chunks"
    and "\<forall>k < length chunks.
      frame_chunk code (ids ! k) (length msg) (length chunks) k (chunks ! k) = Inr (wires ! k)"
    and "int (length msg) \<le> max_message_len r" and "ready r"
  shows "\<exists>r'. mapP receive wires r = Some (Inr (replicate (length chunks - 1) None @ [Some msg]), r') \<and>
    ready r' \<and> max_message_len r' = max_message_len r"
  using assms by (rule reassemble_framed)

theorem fragment_reassemble_roundtrip_witness:
  "\<exists>r'. mapP receive [[1, 5, 0, 12, 13, 0xC0, 0, 0, 0, 3, 10, 20], [1, 6, 0, 7, 13, 0, 30]]
        (new_reassembler 4096) = Some (Inr [None, Some [10, 20, 30]], r') \<and>
      ready r' \<and> max_message_len r' = 4096"
proof -
  have chunks: "fragment [10, 20, 30] 2 = Inr [[10, 20], [30]]" by code_simp
  have "\<forall>k < length [[10, 20], [30 :: byte]].
    frame_chunk 1 ([5, 6] ! k) (length [10, 20, 30 :: byte]) (length [[10, 20], [30 :: byte]]) k
      ([[10, 20], [30]] ! k)
    = Inr ([[1, 5, 0, 12, 13, 0xC0, 0, 0, 0, 3, 10, 20], [1, 6, 0, 7, 13, 0, 30]] ! k)"
    by (simp add: All_less_Suc2 frame_chunk_def build_Inr buildable_def wire_layout_def
        wire_length_def length_field_def be_bytes_2 be_bytes_4 build_flags_def eap_const_defs)
  from fragment_reassemble_roundtrip [OF chunks _ _ this, of "new_reassembler 4096"]
  show ?thesis by (simp add: new_reassembler_def ready_def)
qed

end
