(* ===== verification/Proxy_Session.thy ===== *)
theory Proxy_Session
  imports Eap_Reassembly
begin

text \<open>
  \<open>proxy/session.py\<close>: the per-authentication \<open>Session\<close> with its two reassemblers, its
  Identifier counters, its correlation tokens and its metrics, and the \<open>SessionTable\<close>.
  The clock is an input: every operation that calls \<open>time.monotonic()\<close> takes the value it
  returned. Seconds are real numbers (the source has floats). A Python dict is a partial map.

  The lemmas give the Identifier arithmetic, the effect of every table operation, and the
  table invariant that a session is stored under its own key.
\<close>

section \<open>Session\<close>

record direction_metrics =
  fragments_in :: nat
  fragments_out :: nat
  acks_generated :: nat
  bytes_reassembled :: nat

definition zero_metrics :: direction_metrics where
  "zero_metrics =
     \<lparr>fragments_in = 0, fragments_out = 0, acks_generated = 0, bytes_reassembled = 0\<rparr>"

text \<open>A value that pyrad decodes from an attribute: octets, an integer, or text (an address).\<close>

datatype attr_value = AOctets bytes | AInteger int | AText string

text \<open>
  \<open>down_total\<close> and \<open>down_nchunks\<close> are the attributes \<open>_down_total\<close> and \<open>_down_nchunks\<close> the
  mediator adds to the object when it first queues fragments: \<open>None\<close> until then.
\<close>

record session =
  key :: string
  mode :: string
  upstream_fragment_size :: int
  downstream_fragment_size :: int
  session_max_message_len :: int
  radius_state :: "bytes option"
  downstream_state :: "bytes option"
  ap_address :: "(string \<times> nat) option"
  ap_attrs :: "(string \<times> attr_value) list"
  ms_mppe_send_key :: "bytes option"
  ms_mppe_recv_key :: "bytes option"
  last_ap_authenticator :: "bytes option"
  upstream_last_eap_req_id :: "nat option"
  down_last_req_id :: "nat option"
  up_reasm :: reassembler
  down_reasm :: reassembler
  up_outbox :: "(nat \<times> bytes) list"
  down_outbox :: "(nat \<times> bytes) list"
  up_next_id :: nat
  down_next_id :: nat
  up :: direction_metrics
  down :: direction_metrics
  started_at :: real
  completed_at :: "real option"
  upstream_round_trips :: nat
  result :: "string option"
  pending_success :: "bytes option"
  pending_failure :: "bytes option"
  down_total :: "nat option"
  down_nchunks :: "nat option"

definition new_session ::
  "string \<Rightarrow> string \<Rightarrow> int \<Rightarrow> int \<Rightarrow> int \<Rightarrow> (string \<times> nat) option \<Rightarrow> real \<Rightarrow> session" where
  "new_session k m up_size down_size maxlen addr now =
     \<lparr>key = k, mode = m, upstream_fragment_size = up_size, downstream_fragment_size = down_size,
      session_max_message_len = maxlen, radius_state = None, downstream_state = None,
      ap_address = addr, ap_attrs = [], ms_mppe_send_key = None, ms_mppe_recv_key = None,
      last_ap_authenticator = None, upstream_last_eap_req_id = None, down_last_req_id = None,
      up_reasm = new_reassembler maxlen, down_reasm = new_reassembler maxlen,
      up_outbox = [], down_outbox = [], up_next_id = 0, down_next_id = 0,
      up = zero_metrics, down = zero_metrics, started_at = now, completed_at = None,
      upstream_round_trips = 0, result = None, pending_success = None, pending_failure = None,
      down_total = None, down_nchunks = None\<rparr>"

definition next_down_id :: "(session, nat) prog" where
  "next_down_id =
     thenP (modifyP (\<lambda>s. s\<lparr>down_next_id := (down_next_id s + 1) AND 0xFF\<rparr>)) (getP down_next_id)"

definition next_up_id :: "(session, nat) prog" where
  "next_up_id =
     thenP (modifyP (\<lambda>s. s\<lparr>up_next_id := (up_next_id s + 1) AND 0xFF\<rparr>)) (getP up_next_id)"

definition finish :: "string \<Rightarrow> real \<Rightarrow> session \<Rightarrow> session" where
  "finish res now s = s\<lparr>completed_at := Some now, result := Some res\<rparr>"

definition duration_ms :: "session \<Rightarrow> real option" where
  "duration_ms s =
     (case completed_at s of None \<Rightarrow> None | Some c \<Rightarrow> Some ((c - started_at s) * 1000))"

text \<open>\<open>round(x, 2)\<close>: to the nearest hundredth, ties to the even one.\<close>

definition py_round2 :: "real \<Rightarrow> real" where
  "py_round2 x =
     (let y = x * 100; f = \<lfloor>y\<rfloor>; d = y - of_int f in
      of_int (if d < 1 / 2 then f else if d > 1 / 2 then f + 1 else if even f then f else f + 1) / 100)"

record direction_summary =
  sum_fragments :: nat
  sum_acks :: nat
  sum_bytes :: nat

record summary =
  sum_key :: string
  sum_mode :: string
  sum_result :: "string option"
  sum_duration_ms :: "real option"
  sum_upstream_round_trips :: nat
  sum_downstream_fragment_size :: int
  sum_upstream_fragment_size :: int
  supplicant_to_server :: direction_summary
  server_to_supplicant :: direction_summary

text \<open>
  \<open>self.duration_ms\<close> is tested for truth: a duration of exactly \<open>0.0\<close> is reported as missing.
\<close>

definition session_summary :: "session \<Rightarrow> summary" where
  "session_summary s =
     \<lparr>sum_key = key s, sum_mode = mode s, sum_result = result s,
      sum_duration_ms =
        (case duration_ms s of None \<Rightarrow> None | Some d \<Rightarrow> if d \<noteq> 0 then Some (py_round2 d) else None),
      sum_upstream_round_trips = upstream_round_trips s,
      sum_downstream_fragment_size = downstream_fragment_size s,
      sum_upstream_fragment_size = upstream_fragment_size s,
      supplicant_to_server =
        \<lparr>sum_fragments = fragments_in (up s), sum_acks = acks_generated (up s),
         sum_bytes = bytes_reassembled (up s)\<rparr>,
      server_to_supplicant =
        \<lparr>sum_fragments = fragments_out (down s), sum_acks = acks_generated (down s),
         sum_bytes = bytes_reassembled (down s)\<rparr>\<rparr>"

section \<open>SessionTable\<close>

record session_table =
  table_mode :: string
  table_upstream_fragment_size :: int
  table_downstream_fragment_size :: int
  table_max_message_len :: int
  idle_timeout_s :: real
  sessions :: "string \<rightharpoonup> session"

definition new_session_table :: "string \<Rightarrow> int \<Rightarrow> int \<Rightarrow> int \<Rightarrow> real \<Rightarrow> session_table" where
  "new_session_table m up_size down_size maxlen idle =
     \<lparr>table_mode = m, table_upstream_fragment_size = up_size,
      table_downstream_fragment_size = down_size, table_max_message_len = maxlen,
      idle_timeout_s = idle, sessions = Map.empty\<rparr>"

definition get_or_create ::
  "string \<Rightarrow> (string \<times> nat) option \<Rightarrow> real \<Rightarrow> session_table \<Rightarrow> session \<times> session_table" where
  "get_or_create k addr now t =
     (case sessions t k of
        Some s \<Rightarrow> (s, t)
      | None \<Rightarrow>
          let s = new_session k (table_mode t) (table_upstream_fragment_size t)
                    (table_downstream_fragment_size t) (table_max_message_len t) addr now in
          (s, t\<lparr>sessions := (sessions t)(k \<mapsto> s)\<rparr>))"

definition rekey :: "string \<Rightarrow> string \<Rightarrow> session_table \<Rightarrow> session_table" where
  "rekey old_key new_key t =
     (case sessions t old_key of
        None \<Rightarrow> t
      | Some s \<Rightarrow>
          if old_key \<noteq> new_key
          then t\<lparr>sessions := (sessions t)(old_key := None, new_key \<mapsto> s\<lparr>key := new_key\<rparr>)\<rparr>
          else t)"

definition drop_session :: "string \<Rightarrow> session_table \<Rightarrow> session_table" where
  "drop_session k t = t\<lparr>sessions := (sessions t)(k := None)\<rparr>"

definition is_stale :: "real \<Rightarrow> real \<Rightarrow> session \<Rightarrow> bool" where
  "is_stale now idle s \<longleftrightarrow> completed_at s = None \<and> now - started_at s > idle"

definition reap_idle :: "real \<Rightarrow> session_table \<Rightarrow> session_table" where
  "reap_idle now t =
     t\<lparr>sessions := (\<lambda>k. case sessions t k of
          None \<Rightarrow> None
        | Some s \<Rightarrow> if is_stale now (idle_timeout_s t) s then None else Some s)\<rparr>"

text \<open>
  The table holds references: what a handler assigns to the fields of a session is seen
  through the table at once. \<open>store_session\<close> is that aliasing, made explicit.
\<close>

definition store_session :: "string \<Rightarrow> session \<Rightarrow> session_table \<Rightarrow> session_table" where
  "store_session k s t = t\<lparr>sessions := (sessions t)(k \<mapsto> s)\<rparr>"

section \<open>Identifiers\<close>

lemma and_0xFF: "(n :: nat) AND 0xFF = n mod 256"
  using take_bit_eq_mask [of 8 n] take_bit_eq_mod [of 8 n] by (simp add: mask_eq_exp_minus_1)

lemma next_down_id_eq:
  "next_down_id s =
     Some (Inr ((down_next_id s + 1) mod 256), s\<lparr>down_next_id := (down_next_id s + 1) mod 256\<rparr>)"
  by (simp add: next_down_id_def prog_simps and_0xFF)

lemma next_up_id_eq:
  "next_up_id s = Some (Inr ((up_next_id s + 1) mod 256), s\<lparr>up_next_id := (up_next_id s + 1) mod 256\<rparr>)"
  by (simp add: next_up_id_def prog_simps and_0xFF)


section \<open>The table as the downstream server uses it\<close>

definition well_keyed :: "(string \<rightharpoonup> session) \<Rightarrow> bool" where
  "well_keyed m \<longleftrightarrow> (\<forall>k s. m k = Some s \<longrightarrow> key s = k)"

lemma well_keyed_upd: "well_keyed m \<Longrightarrow> key s = k \<Longrightarrow> well_keyed (m(k \<mapsto> s))"
  by (simp add: well_keyed_def)

lemma well_keyed_del: "well_keyed m \<Longrightarrow> well_keyed (m(k := None))"
  by (simp add: well_keyed_def)

locale session_store =
  fixes find :: "'t \<Rightarrow> string \<rightharpoonup> session"
    and open_session :: "string \<Rightarrow> (string \<times> nat) option \<Rightarrow> real \<Rightarrow> 't \<Rightarrow> session \<times> 't"
    and move :: "string \<Rightarrow> string \<Rightarrow> 't \<Rightarrow> 't"
    and remove :: "string \<Rightarrow> 't \<Rightarrow> 't"
    and put :: "string \<Rightarrow> session \<Rightarrow> 't \<Rightarrow> 't"
  assumes open_known: "find t k = Some s \<Longrightarrow> open_session k a n t = (s, t)"
    and open_unknown: "find t k = None \<Longrightarrow>
      find (snd (open_session k a n t)) = (find t)(k \<mapsto> fst (open_session k a n t)) \<and>
      key (fst (open_session k a n t)) = k"
    and find_move: "find t k = Some s \<Longrightarrow> k \<noteq> k' \<Longrightarrow>
      find (move k k' t) = (find t)(k := None, k' \<mapsto> s\<lparr>key := k'\<rparr>)"
    and move_noop: "find t k = None \<or> k = k' \<Longrightarrow> move k k' t = t"
    and find_remove: "find (remove k t) = (find t)(k := None)"
    and find_put: "find (put k s t) = (find t)(k \<mapsto> s)"
begin

lemma find_open: "find (snd (open_session k a n t)) = (find t)(k \<mapsto> fst (open_session k a n t))"
  by (cases "find t k") (auto simp: open_known open_unknown fun_eq_iff)

lemma open_key: "well_keyed (find t) \<Longrightarrow> key (fst (open_session k a n t)) = k"
  by (cases "find t k") (auto simp: open_known open_unknown well_keyed_def)

lemma keyed_open: "well_keyed (find t) \<Longrightarrow> well_keyed (find (snd (open_session k a n t)))"
  by (simp add: find_open well_keyed_upd open_key)

lemma keyed_put: "well_keyed (find t) \<Longrightarrow> key s = k \<Longrightarrow> well_keyed (find (put k s t))"
  by (simp add: find_put well_keyed_upd)

lemma keyed_remove: "well_keyed (find t) \<Longrightarrow> well_keyed (find (remove k t))"
  by (simp add: find_remove well_keyed_del)

lemma keyed_move: "well_keyed (find t) \<Longrightarrow> well_keyed (find (move k k' t))"
  by (cases "find t k"; cases "k = k'") (simp_all add: find_move move_noop well_keyed_def)

lemma open_after_move:
  assumes "find t k = Some s" and "k \<noteq> k'"
  shows "open_session k' a n (move k k' t) = (s\<lparr>key := k'\<rparr>, move k k' t)"
    and "find (move k k' t) k = None"
proof -
  have "find (move k k' t) k' = Some (s\<lparr>key := k'\<rparr>)" by (simp add: find_move [OF assms])
  then show "open_session k' a n (move k k' t) = (s\<lparr>key := k'\<rparr>, move k k' t)" by (rule open_known)
  show "find (move k k' t) k = None" using assms(2) by (simp add: find_move [OF assms])
qed

lemma open_put_known: "open_session k a n (put k s t) = (s, put k s t)"
  by (rule open_known) (simp add: find_put)

end

interpretation tbl: session_store sessions get_or_create rekey drop_session store_session
  by unfold_locales
    (auto simp: get_or_create_def rekey_def drop_session_def store_session_def new_session_def
      Let_def split: option.splits)

lemma keyed_reap: "well_keyed (sessions t) \<Longrightarrow> well_keyed (sessions (reap_idle now t))"
  unfolding well_keyed_def reap_idle_def by (simp split: option.split)

text \<open>
  \<open>rekey\<close> moves a session and nothing else: the next lookup under the new key returns
  the same session, with its key field updated, the old key is free, and no other entry
  changes.
\<close>

lemma rekey_moves_session:
  assumes "sessions t old_key = Some s" and "old_key \<noteq> new_key"
  shows "get_or_create new_key addr now (rekey old_key new_key t) =
      (s\<lparr>key := new_key\<rparr>, rekey old_key new_key t) \<and>
    sessions (rekey old_key new_key t) old_key = None \<and>
    (\<forall>k. k \<notin> {old_key, new_key} \<longrightarrow> sessions (rekey old_key new_key t) k = sessions t k)"
  using tbl.open_after_move [OF assms] tbl.find_move [OF assms] by simp

text \<open>
  \<open>reap_idle\<close> removes exactly the sessions that are unfinished and older than the idle
  timeout, counted from their start.
\<close>

lemma reap_idle_lookup:
  "sessions (reap_idle now t) k =
     (case sessions t k of
        None \<Rightarrow> None
      | Some s \<Rightarrow>
          if completed_at s = None \<and> started_at s + idle_timeout_s t < now then None else Some s)"
  by (auto simp: reap_idle_def is_stale_def split: option.splits)

end
