(* ===== verification/Radius_Wire.thy ===== *)
theory Radius_Wire
  imports Proxy_Prelude
begin

text \<open>
  The parts of \<open>proxy/upstream_radius.py\<close> and \<open>proxy/downstream_server.py\<close> that deal with
  RADIUS octets: the packet decoder \<open>_decode_packet_allow_large\<close> that replaces pyrad's, and
  the split of an EAP packet over EAP-Message attributes (one copy per leg) with its inverse
  \<open>_concat_eap_messages\<close>.

  pyrad's own hooks (the vendor decoder, the TLV test and decoder) are parameters of the
  decoder, collected in the record \<open>pyrad_hooks\<close>.
\<close>

section \<open>\<open>_decode_packet_allow_large\<close>\<close>

datatype attr_key = AttrCode nat | VendorKey nat nat

type_synonym attr_dict = "attr_key \<rightharpoonup> bytes list"

record decoded =
  pk_code :: nat
  pk_id :: nat
  pk_authenticator :: bytes
  pk_attrs :: attr_dict
  pk_message_authenticator :: bool

record pyrad_hooks =
  decode_vendor_attribute :: "bytes \<Rightarrow> py_error + (attr_key \<times> bytes) list"
  is_tlv_attribute :: "nat \<Rightarrow> py_error + bool"
  decode_tlv_attribute :: "nat \<Rightarrow> bytes \<Rightarrow> attr_dict \<Rightarrow> (py_error + unit) \<times> attr_dict"

text \<open>\<open>self.setdefault(key, []).append(value)\<close>\<close>

definition attr_append :: "attr_key \<Rightarrow> bytes \<Rightarrow> attr_dict \<Rightarrow> attr_dict" where
  "attr_append k v m = m(k \<mapsto> (case m k of None \<Rightarrow> [] | Some vs \<Rightarrow> vs) @ [v])"

definition decode_attribute :: "pyrad_hooks \<Rightarrow> nat \<Rightarrow> bytes \<Rightarrow> (decoded, unit) prog" where
  "decode_attribute h k v =
     (if k = 26 then
        bindP (liftP (decode_vendor_attribute h v)) (\<lambda>kvs.
          modifyP (\<lambda>p. p\<lparr>pk_attrs := fold (\<lambda>(k', v'). attr_append k' v') kvs (pk_attrs p)\<rparr>))
      else if k = 80 then
        modifyP (\<lambda>p. p\<lparr>pk_message_authenticator := True, pk_attrs := attr_append (AttrCode k) v (pk_attrs p)\<rparr>)
      else
        bindP (liftP (is_tlv_attribute h k)) (\<lambda>tlv.
          if tlv then zoomP pk_attrs (\<lambda>m p. p\<lparr>pk_attrs := m\<rparr>) (\<lambda>m. Some (decode_tlv_attribute h k v m))
          else modifyP (\<lambda>p. p\<lparr>pk_attrs := attr_append (AttrCode k) v (pk_attrs p)\<rparr>)))"

function decode_attributes :: "pyrad_hooks \<Rightarrow> bytes \<Rightarrow> (decoded, unit) prog" where
  "decode_attributes h raw =
     (if raw = [] then returnP ()
      else if length raw < 2 then raiseP (PacketError AttributeHeaderCorrupt)
      else
        let k = unat (raw ! 0); attrlen = unat (raw ! 1) in
        if attrlen < 2 then raiseP (PacketError (AttributeTooSmall attrlen))
        else thenP (decode_attribute h k (slice raw 2 attrlen))
               (decode_attributes h (drop attrlen raw)))"
  by pat_completeness auto
termination
  by (relation "measure (\<lambda>(h, raw). length raw)") auto

declare decode_attributes.simps [simp del]

definition decode_packet_allow_large :: "pyrad_hooks \<Rightarrow> bytes \<Rightarrow> (decoded, unit) prog" where
  "decode_packet_allow_large h raw =
     (if length (take 20 raw) \<noteq> 20 then raiseP (PacketError HeaderCorrupt)
      else
        let len = from_bytes_be (slice raw 2 4) in
        thenP (modifyP (\<lambda>p. p\<lparr>pk_code := unat (raw ! 0), pk_id := unat (raw ! 1),
                            pk_authenticator := slice raw 4 20\<rparr>))
          (if length raw \<noteq> len then raiseP (PacketError InvalidLength)
           else if len > 65535 then raiseP (PacketError (LengthTooLong len))
           else thenP (modifyP (\<lambda>p. p\<lparr>pk_attrs := Map.empty\<rparr>))
                  (decode_attributes h (drop 20 raw))))"

section \<open>EAP-Message attributes\<close>

definition upstream_split_eap_message :: "bytes \<Rightarrow> nat \<Rightarrow> bytes list" where
  "upstream_split_eap_message eap_bytes n = (if eap_bytes = [] then [[]] else py_chunks eap_bytes n)"

definition downstream_split_eap_message :: "bytes \<Rightarrow> nat \<Rightarrow> bytes list" where
  "downstream_split_eap_message eap_bytes n = (if eap_bytes = [] then [[]] else py_chunks eap_bytes n)"

text \<open>The argument is \<open>pkt.get("EAP-Message")\<close>: the values pyrad holds under that name, if any.\<close>

definition concat_eap_messages :: "bytes list option \<Rightarrow> bytes list" where
  "concat_eap_messages attr_values =
     (case attr_values of
        None \<Rightarrow> []
      | Some vs \<Rightarrow> let joined = concat vs in if joined \<noteq> [] then [joined] else [])"

section \<open>Decoding what a RADIUS sender writes\<close>

text \<open>The wire form of RFC 2865: the reference the decoder is measured against.\<close>

definition attr_octets :: "nat \<times> bytes \<Rightarrow> bytes" where
  "attr_octets kv = [word_of_nat (fst kv), word_of_nat (2 + length (snd kv))] @ snd kv"

definition attrs_octets :: "(nat \<times> bytes) list \<Rightarrow> bytes" where
  "attrs_octets kvs = concat (map attr_octets kvs)"

definition packet_octets :: "nat \<Rightarrow> nat \<Rightarrow> bytes \<Rightarrow> (nat \<times> bytes) list \<Rightarrow> bytes" where
  "packet_octets c i auth kvs =
     [word_of_nat c, word_of_nat i] @ be_bytes 2 (20 + length (attrs_octets kvs)) @ auth @
     attrs_octets kvs"

definition wire_attrs :: "(nat \<times> bytes) list \<Rightarrow> bool" where
  "wire_attrs kvs \<longleftrightarrow> (\<forall>kv \<in> set kvs. fst kv < 256 \<and> length (snd kv) \<le> 253)"

text \<open>The attributes of a packet, decoded one after the other.\<close>

primrec decode_all :: "pyrad_hooks \<Rightarrow> (nat \<times> bytes) list \<Rightarrow> (decoded, unit) prog" where
  "decode_all h [] = returnP ()"
| "decode_all h (kv # kvs) = thenP (decode_attribute h (fst kv) (snd kv)) (decode_all h kvs)"

lemma decode_attributes_Cons:
  assumes "k < 256" and "length v \<le> 253"
  shows "decode_attributes h (attr_octets (k, v) @ rest) = thenP (decode_attribute h k v) (decode_attributes h rest)"
proof -
  define x :: byte where "x = word_of_nat (2 + length v)"
  have x: "unat x = 2 + length v" unfolding x_def by (rule unat_byte_of_nat) (use assms in simp)
  have k: "unat (word_of_nat k :: byte) = k" using assms(1) by (rule unat_byte_of_nat)
  have raw: "attr_octets (k, v) @ rest = word_of_nat k # x # v @ rest"
    by (simp only: attr_octets_def x_def fst_conv snd_conv append.simps)
  have "slice (word_of_nat k # x # v @ rest) 2 (2 + length v) = v"
    by (simp add: slice_def)
  then show ?thesis
    unfolding raw by (subst decode_attributes.simps) (simp add: x k Let_def)
qed

lemma decode_attributes_wire:
  "wire_attrs kvs \<Longrightarrow> decode_attributes h (attrs_octets kvs) = decode_all h kvs"
proof (induction kvs)
  case Nil
  show ?case by (subst decode_attributes.simps) (simp add: attrs_octets_def)
next
  case (Cons kv kvs)
  obtain k v where kv: "kv = (k, v)" by fastforce
  have "attrs_octets (kv # kvs) = attr_octets (k, v) @ attrs_octets kvs"
    by (simp add: attrs_octets_def kv)
  moreover have "k < 256" "length v \<le> 253" "wire_attrs kvs"
    using Cons.prems by (simp_all add: wire_attrs_def kv)
  ultimately show ?case by (simp add: decode_attributes_Cons Cons.IH kv)
qed

text \<open>
  The attribute codes pyrad decodes as TLV, and what is asked of pyrad on the attributes of a packet:
  that it decodes them without an exception, and that a TLV attribute changes its own entry only.
\<close>

definition tlv_code :: "pyrad_hooks \<Rightarrow> nat \<Rightarrow> bool" where
  "tlv_code h k \<longleftrightarrow> k \<noteq> 26 \<and> k \<noteq> 80 \<and> is_tlv_attribute h k = Inr True"

definition hooks_accept :: "pyrad_hooks \<Rightarrow> nat \<times> bytes \<Rightarrow> bool" where
  "hooks_accept h kv \<longleftrightarrow>
     (fst kv = 26 \<longrightarrow> (\<exists>l. decode_vendor_attribute h (snd kv) = Inr l)) \<and>
     (fst kv \<noteq> 26 \<longrightarrow> fst kv \<noteq> 80 \<longrightarrow> (\<exists>b. is_tlv_attribute h (fst kv) = Inr b)) \<and>
     (tlv_code h (fst kv) \<longrightarrow> (\<forall>m. fst (decode_tlv_attribute h (fst kv) (snd kv) m) = Inr () \<and>
        (\<forall>K. K \<noteq> AttrCode (fst kv) \<longrightarrow> snd (decode_tlv_attribute h (fst kv) (snd kv) m) K = m K)))"

text \<open>The values an attribute adds under a key: its own, or those the vendor decoder finds in it.\<close>

definition contribution :: "pyrad_hooks \<Rightarrow> attr_key \<Rightarrow> nat \<times> bytes \<Rightarrow> bytes list" where
  "contribution h K kv =
     (if fst kv = 26 then (case decode_vendor_attribute h (snd kv) of Inl e \<Rightarrow> [] | Inr l \<Rightarrow> map snd (filter (\<lambda>p. fst p = K) l))
      else if K = AttrCode (fst kv) then [snd kv] else [])"

definition values_at :: "pyrad_hooks \<Rightarrow> attr_key \<Rightarrow> (nat \<times> bytes) list \<Rightarrow> bytes list" where
  "values_at h K kvs = concat (map (contribution h K) kvs)"

definition held :: "attr_dict \<Rightarrow> attr_key \<Rightarrow> bytes list" where
  "held m K = (case m K of None \<Rightarrow> [] | Some vs \<Rightarrow> vs)"

definition extends_by :: "attr_dict \<Rightarrow> attr_key \<Rightarrow> bytes list \<Rightarrow> attr_dict \<Rightarrow> bool" where
  "extends_by m K vs m' \<longleftrightarrow> m' K = (if vs = [] then m K else Some (held m K @ vs))"

lemma extends_trans: "extends_by m K vs m' \<Longrightarrow> extends_by m' K vs' m'' \<Longrightarrow> extends_by m K (vs @ vs') m''"
  by (auto simp: extends_by_def held_def split: if_splits)

lemma extends_append: "extends_by m K (if K = k then [v] else []) (attr_append k v m)"
  by (simp add: extends_by_def attr_append_def held_def)

lemma extends_fold: "extends_by m K (map snd (filter (\<lambda>p. fst p = K) l)) (fold (\<lambda>(k', v'). attr_append k' v') l m)"
proof (induction l arbitrary: m)
  case Nil
  show ?case by (simp add: extends_by_def)
next
  case (Cons p l)
  obtain k v where p: "p = (k, v)" by fastforce
  show ?case
    using extends_trans [OF extends_append [of m K k v] Cons.IH [of "attr_append k v m"]] by (auto simp: p split: if_splits)
qed

lemma decode_attribute_run:
  assumes "hooks_accept h (k, v)"
  shows "\<exists>p'. decode_attribute h k v p = Some (Inr (), p') \<and> pk_code p' = pk_code p \<and> pk_id p' = pk_id p \<and>
    pk_authenticator p' = pk_authenticator p \<and> (pk_message_authenticator p' \<longleftrightarrow> pk_message_authenticator p \<or> k = 80) \<and>
    (\<forall>K. tlv_code h k \<longrightarrow> K \<noteq> AttrCode k \<longrightarrow> extends_by (pk_attrs p) K (contribution h K (k, v)) (pk_attrs p')) \<and>
    (\<not> tlv_code h k \<longrightarrow> (\<forall>K. extends_by (pk_attrs p) K (contribution h K (k, v)) (pk_attrs p')))"
proof (cases "k = 26")
  case True
  then show ?thesis
    using assms extends_fold [of "pk_attrs p"]
    by (auto simp: hooks_accept_def decode_attribute_def contribution_def tlv_code_def prog_simps)
next
  case no_vendor: False
  show ?thesis
  proof (cases "tlv_code h k")
    case True
    then have tlv: "fst (decode_tlv_attribute h k v m) = Inr ()" "K \<noteq> AttrCode k \<longrightarrow> snd (decode_tlv_attribute h k v m) K = m K" for m K
      using assms by (simp_all add: hooks_accept_def)
    then have "decode_attribute h k v p = Some (Inr (), p\<lparr>pk_attrs := snd (decode_tlv_attribute h k v (pk_attrs p))\<rparr>)"
      using True by (simp add: decode_attribute_def tlv_code_def prog_simps zoomP_def split: prod.split) (metis fst_conv snd_conv)
    moreover have "k \<noteq> 80" using True by (simp add: tlv_code_def)
    ultimately show ?thesis using True no_vendor tlv(2) by (simp add: contribution_def extends_by_def)
  next
    case False
    then have "decode_attribute h k v p = Some (Inr (), p\<lparr>pk_message_authenticator := (pk_message_authenticator p \<or> k = 80),
        pk_attrs := attr_append (AttrCode k) v (pk_attrs p)\<rparr>)"
      using assms no_vendor by (auto simp: hooks_accept_def decode_attribute_def tlv_code_def prog_simps)
    moreover have "contribution h K (k, v) = (if K = AttrCode k then [v] else [])" for K
      using no_vendor by (simp add: contribution_def)
    ultimately show ?thesis using False by (simp add: extends_append)
  qed
qed

lemma decode_all_run:
  assumes "\<forall>kv \<in> set kvs. hooks_accept h kv"
  shows "\<exists>p'. decode_all h kvs p = Some (Inr (), p') \<and> pk_code p' = pk_code p \<and> pk_id p' = pk_id p \<and>
    pk_authenticator p' = pk_authenticator p \<and>
    (pk_message_authenticator p' \<longleftrightarrow> pk_message_authenticator p \<or> 80 \<in> fst ` set kvs) \<and>
    (\<forall>K. (\<forall>k \<in> fst ` set kvs. tlv_code h k \<longrightarrow> K \<noteq> AttrCode k) \<longrightarrow> extends_by (pk_attrs p) K (values_at h K kvs) (pk_attrs p'))"
  using assms
proof (induction kvs arbitrary: p)
  case Nil
  then show ?case by (simp add: prog_simps values_at_def extends_by_def)
next
  case (Cons kv kvs)
  obtain k v where kv: "kv = (k, v)" by fastforce
  have "hooks_accept h (k, v)" using Cons.prems by (simp add: kv)
  then obtain p1 where one: "decode_attribute h k v p = Some (Inr (), p1)" "pk_code p1 = pk_code p" "pk_id p1 = pk_id p"
    "pk_authenticator p1 = pk_authenticator p" "pk_message_authenticator p1 \<longleftrightarrow> pk_message_authenticator p \<or> k = 80"
    "\<And>K. (tlv_code h k \<longrightarrow> K \<noteq> AttrCode k) \<Longrightarrow> extends_by (pk_attrs p) K (contribution h K (k, v)) (pk_attrs p1)"
    using decode_attribute_run [of h k v p] by blast
  obtain p2 where rest: "decode_all h kvs p1 = Some (Inr (), p2)" "pk_code p2 = pk_code p1" "pk_id p2 = pk_id p1"
    "pk_authenticator p2 = pk_authenticator p1" "pk_message_authenticator p2 \<longleftrightarrow> pk_message_authenticator p1 \<or> 80 \<in> fst ` set kvs"
    "\<And>K. \<forall>k \<in> fst ` set kvs. tlv_code h k \<longrightarrow> K \<noteq> AttrCode k \<Longrightarrow> extends_by (pk_attrs p1) K (values_at h K kvs) (pk_attrs p2)"
    using Cons.IH [of p1] Cons.prems by auto
  have "decode_all h (kv # kvs) p = Some (Inr (), p2)"
    using one(1) rest(1) by (simp add: kv thenP_def bindP_Some_Inr)
  moreover have "extends_by (pk_attrs p) K (values_at h K (kv # kvs)) (pk_attrs p2)"
    if "\<forall>k \<in> fst ` set (kv # kvs). tlv_code h k \<longrightarrow> K \<noteq> AttrCode k" for K
    using extends_trans [OF one(6) rest(6)] that by (simp add: kv values_at_def)
  ultimately show ?case using one(2-5) rest(2-5) by (auto simp: kv)
qed

lemma decode_packet_wire:
  assumes "c < 256" and "i < 256" and "length auth = 16" and "wire_attrs kvs"
    and "20 + length (attrs_octets kvs) < 65536" and "\<forall>kv \<in> set kvs. hooks_accept h kv"
  shows "\<exists>p'. decode_packet_allow_large h (packet_octets c i auth kvs) p = Some (Inr (), p') \<and>
    pk_code p' = c \<and> pk_id p' = i \<and> pk_authenticator p' = auth \<and>
    (pk_message_authenticator p' \<longleftrightarrow> pk_message_authenticator p \<or> 80 \<in> fst ` set kvs) \<and>
    (\<forall>K. (\<forall>k \<in> fst ` set kvs. tlv_code h k \<longrightarrow> K \<noteq> AttrCode k) \<longrightarrow>
       pk_attrs p' K = (if values_at h K kvs = [] then None else Some (values_at h K kvs)))"
proof -
  let ?raw = "packet_octets c i auth kvs"
  let ?n = "20 + length (attrs_octets kvs)"
  obtain x y where xy: "be_bytes 2 ?n = [x, y]" by (simp add: numeral_2_eq_2)
  have n: "from_bytes_be [x, y] = ?n" using from_be_bytes [of ?n 2] assms(5) xy by simp
  have raw: "?raw = word_of_nat c # word_of_nat i # x # y # auth @ attrs_octets kvs"
    by (simp only: packet_octets_def xy append.simps)
  have parts: "length (take 20 ?raw) = 20" "length ?raw = ?n" "slice ?raw 2 4 = [x, y]"
    "unat (?raw ! 0) = c" "unat (?raw ! 1) = i" "slice ?raw 4 20 = auth" "drop 20 ?raw = attrs_octets kvs"
    using assms(1-3) by (simp_all add: raw slice_def unat_byte_of_nat)
  let ?p1 = "p\<lparr>pk_code := c, pk_id := i, pk_authenticator := auth, pk_attrs := Map.empty\<rparr>"
  have "decode_packet_allow_large h ?raw p = decode_attributes h (attrs_octets kvs) ?p1"
    using assms(5)
    by (simp only: decode_packet_allow_large_def Let_def parts n) (simp add: prog_simps)
  also have "\<dots> = decode_all h kvs ?p1"
    by (simp only: decode_attributes_wire [OF assms(4)])
  finally have run: "decode_packet_allow_large h ?raw p = decode_all h kvs ?p1" .
  obtain p' where p': "decode_all h kvs ?p1 = Some (Inr (), p') \<and> pk_code p' = pk_code ?p1 \<and> pk_id p' = pk_id ?p1 \<and>
    pk_authenticator p' = pk_authenticator ?p1 \<and>
    (pk_message_authenticator p' \<longleftrightarrow> pk_message_authenticator ?p1 \<or> 80 \<in> fst ` set kvs) \<and>
    (\<forall>K. (\<forall>k \<in> fst ` set kvs. tlv_code h k \<longrightarrow> K \<noteq> AttrCode k) \<longrightarrow> extends_by (pk_attrs ?p1) K (values_at h K kvs) (pk_attrs p'))"
    using decode_all_run [OF assms(6), of ?p1] by (elim exE)
  have blank: "extends_by (pk_attrs ?p1) K vs m \<Longrightarrow> m K = (if vs = [] then None else Some vs)" for K vs m
    by (simp add: extends_by_def held_def)
  have "pk_attrs p' K = (if values_at h K kvs = [] then None else Some (values_at h K kvs))"
    if "\<forall>k \<in> fst ` set kvs. tlv_code h k \<longrightarrow> K \<noteq> AttrCode k" for K
    using p' that by (intro blank) (elim conjE, drule spec [of _ K], erule mp)
  moreover have "pk_code p' = c" "pk_id p' = i" "pk_authenticator p' = auth"
    "pk_message_authenticator p' \<longleftrightarrow> pk_message_authenticator p \<or> 80 \<in> fst ` set kvs"
    using p' by simp_all
  moreover have "decode_packet_allow_large h ?raw p = Some (Inr (), p')" using run p' by simp
  ultimately show ?thesis by (intro exI [of _ p'] conjI allI impI)
qed

text \<open>
  C35: the decoder reads back what a RADIUS sender wrote: for a packet whose length fits the
  16-bit field, however large, and whose attributes pyrad's own decoders accept, it returns
  without exception the header fields, whether a Message-Authenticator is present, and under
  every key the values of that key in their order: the value of each plain attribute, and what the
  vendor decoder finds in each vendor attribute, as it carries the session keys. Only what pyrad
  stores for a TLV attribute itself is left to pyrad.
\<close>

theorem decode_packet_roundtrip:
  assumes "c < 256" and "i < 256" and "length auth = 16" and "wire_attrs kvs"
    and "20 + length (attrs_octets kvs) < 65536" and "\<forall>kv \<in> set kvs. hooks_accept h kv"
  shows "\<exists>p'. decode_packet_allow_large h (packet_octets c i auth kvs) p = Some (Inr (), p') \<and>
    pk_code p' = c \<and> pk_id p' = i \<and> pk_authenticator p' = auth \<and>
    (pk_message_authenticator p' \<longleftrightarrow> pk_message_authenticator p \<or> 80 \<in> fst ` set kvs) \<and>
    (\<forall>K. (\<forall>k \<in> fst ` set kvs. tlv_code h k \<longrightarrow> K \<noteq> AttrCode k) \<longrightarrow>
       pk_attrs p' K = (if values_at h K kvs = [] then None else Some (values_at h K kvs)))"
  using assms by (rule decode_packet_wire)

text \<open>Hooks that know one vendor, whose first octet is the type, and the TLV code 241.\<close>

definition lab_hooks :: pyrad_hooks where
  "lab_hooks = \<lparr>decode_vendor_attribute = (\<lambda>v. case v of [] \<Rightarrow> Inl IndexError | t # b \<Rightarrow> Inr [(VendorKey 311 (unat t), b)]),
     is_tlv_attribute = (\<lambda>k. Inr (k = 241)), decode_tlv_attribute = (\<lambda>k v m. (Inr (), attr_append (AttrCode k) (drop 2 v) m))\<rparr>"

definition blank_packet :: decoded where
  "blank_packet = \<lparr>pk_code = 0, pk_id = 0, pk_authenticator = [], pk_attrs = Map.empty,
                   pk_message_authenticator = False\<rparr>"

theorem decode_packet_roundtrip_witness:
  "\<exists>p'. decode_packet_allow_large lab_hooks
      (packet_octets 2 1 (replicate 16 0) [(79, replicate 253 1), (26, [16, 8]), (79, [2]), (241, [1, 3, 9]), (26, [17, 9]), (80, [0])])
      blank_packet = Some (Inr (), p') \<and>
    pk_attrs p' (AttrCode 79) = Some [replicate 253 1, [2]] \<and> pk_attrs p' (VendorKey 311 16) = Some [[8]] \<and>
    pk_attrs p' (VendorKey 311 17) = Some [[9]] \<and> pk_attrs p' (AttrCode 24) = None \<and> pk_message_authenticator p'"
proof -
  let ?kvs = "[(79, replicate 253 1), (26, [16, 8]), (79, [2]), (241, [1, 3, 9]), (26, [17, 9]), (80, [0])] :: (nat \<times> bytes) list"
  have "wire_attrs ?kvs" "20 + length (attrs_octets ?kvs) < 65536" "\<forall>kv \<in> set ?kvs. hooks_accept lab_hooks kv"
    by (simp_all add: wire_attrs_def attrs_octets_def attr_octets_def hooks_accept_def lab_hooks_def tlv_code_def attr_append_def)
  from decode_packet_roundtrip [OF _ _ _ this, of 2 1 "replicate 16 0" blank_packet] obtain p' where
    run: "decode_packet_allow_large lab_hooks (packet_octets 2 1 (replicate 16 0) ?kvs) blank_packet = Some (Inr (), p')"
      "pk_message_authenticator p'"
    and at: "\<And>K. K \<noteq> AttrCode 241 \<Longrightarrow>
      pk_attrs p' K = (if values_at lab_hooks K ?kvs = [] then None else Some (values_at lab_hooks K ?kvs))"
    by (auto simp: tlv_code_def lab_hooks_def)
  show ?thesis
    using run at [of "AttrCode 79"] at [of "VendorKey 311 16"] at [of "VendorKey 311 17"] at [of "AttrCode 24"]
    by (intro exI [of _ p']) (simp add: values_at_def contribution_def lab_hooks_def)
qed

text \<open>An exception of pyrad's own decoders.\<close>

definition hook_error :: "pyrad_hooks \<Rightarrow> py_error \<Rightarrow> bool" where
  "hook_error h e \<longleftrightarrow> (\<exists>v. decode_vendor_attribute h v = Inl e) \<or> (\<exists>k. is_tlv_attribute h k = Inl e) \<or>
     (\<exists>k v m. fst (decode_tlv_attribute h k v m) = Inl e)"

lemma decode_attribute_error: "hoare (\<lambda>_. True) (decode_attribute h k v) (\<lambda>_ _. True) (\<lambda>e _. hook_error h e)"
proof (rule hoareI)
  fix p e p'
  assume run: "decode_attribute h k v p = Some (Inl e, p')"
  consider "k = 26" | "k = 80" | b where "k \<noteq> 26" "k \<noteq> 80" "is_tlv_attribute h k = b" by blast
  then show "hook_error h e"
  proof cases
    case 1
    then show ?thesis using run
      by (cases "decode_vendor_attribute h v") (auto simp: decode_attribute_def hook_error_def prog_simps)
  next
    case 2
    then show ?thesis using run by (simp add: decode_attribute_def prog_simps)
  next
    case (3 b)
    show ?thesis
    proof (cases b)
      case (Inl d)
      then have "e = d" using 3 run by (simp add: decode_attribute_def prog_simps)
      then show ?thesis using 3 Inl by (auto simp: hook_error_def)
    next
      case (Inr t)
      obtain r m where d: "decode_tlv_attribute h k v (pk_attrs p) = (r, m)" by fastforce
      have "t \<and> r = Inl e" using 3 Inr run d by (cases t) (simp_all add: decode_attribute_def prog_simps zoomP_def)
      then show ?thesis using d by (metis fst_conv hook_error_def)
    qed
  qed
qed simp

lemma decode_attributes_error:
  "hoare (\<lambda>_. True) (decode_attributes h raw) (\<lambda>_ _. True)
     (\<lambda>e _. hook_error h e \<or> e = PacketError AttributeHeaderCorrupt \<or> (\<exists>n < 2. e = PacketError (AttributeTooSmall n)))"
proof (induction h raw rule: decode_attributes.induct)
  case (1 h raw)
  have step: "hoare (\<lambda>_. True) (decode_attribute h k v) (\<lambda>_ _. True)
     (\<lambda>e _. hook_error h e \<or> e = PacketError AttributeHeaderCorrupt \<or> (\<exists>n < 2. e = PacketError (AttributeTooSmall n)))" for k v
    by (rule hoare_weaken [OF decode_attribute_error]) auto
  show ?case
    by (subst decode_attributes.simps, unfold Let_def thenP_def)
      (intro hoare_if hoare_returnP hoare_raiseP hoare_bindP [OF step "1.IH"]; auto)
qed

text \<open>
  The decoder never rejects a packet for its size: the \<open>length > 65535\<close> test can not
  fire on a 16-bit length, so the only errors are a short header, a length field that
  disagrees with the datagram, a corrupt attribute header, and those of pyrad's own decoders.
\<close>

lemma decode_packet_errors:
  "hoare (\<lambda>_. True) (decode_packet_allow_large h raw) (\<lambda>_ _. True)
     (\<lambda>e _. hook_error h e \<or> e \<in> {PacketError HeaderCorrupt, PacketError InvalidLength,
                  PacketError AttributeHeaderCorrupt, PacketError (AttributeTooSmall 0),
                  PacketError (AttributeTooSmall 1)})"
proof -
  have "from_bytes_be (slice raw 2 4) < 256 ^ length (slice raw 2 4)" by (rule from_bytes_be_bound)
  also have "\<dots> \<le> 256 ^ 2" by (rule power_increasing) (simp_all add: slice_length)
  finally have small: "\<not> from_bytes_be (slice raw 2 4) > 65535" by simp
  have small_n: "n < 2 \<Longrightarrow> n = 0 \<or> n = 1" for n :: nat by auto
  have attrs: "hoare (\<lambda>_. True) (decode_attributes h (drop 20 raw)) (\<lambda>_ _. True)
     (\<lambda>e _. hook_error h e \<or> e \<in> {PacketError HeaderCorrupt, PacketError InvalidLength,
                  PacketError AttributeHeaderCorrupt, PacketError (AttributeTooSmall 0),
                  PacketError (AttributeTooSmall 1)})"
    by (rule hoare_weaken [OF decode_attributes_error]) (auto dest: small_n)
  show ?thesis
    unfolding decode_packet_allow_large_def Let_def
    by (intro hoare_if hoare_raiseP hoare_then_modifyP [where P' = "\<lambda>_. True"] attrs)
      (use small in simp_all)
qed

section \<open>Carrying an EAP packet in attributes\<close>

locale eap_attributes =
  fixes split_eap :: "bytes \<Rightarrow> bytes list"
  assumes split_concat: "concat (split_eap b) = b"
    and split_le: "v \<in> set (split_eap b) \<Longrightarrow> length v \<le> 253"
    and split_full: "b \<noteq> [] \<Longrightarrow> v \<in> set (split_eap b) \<Longrightarrow> v \<noteq> []"
    and split_count: "length (split_eap b) = (if b = [] then 1 else (length b + 252) div 253)"
begin

lemma join_split: "concat_eap_messages (Some (split_eap b)) = (if b = [] then [] else [b])"
  by (simp add: concat_eap_messages_def split_concat)

lemma wire_split: "wire_attrs (map (Pair 79) (split_eap b))"
  by (auto simp: wire_attrs_def split_le)

lemma values_split: "values_at h (AttrCode 79) (map (Pair 79) (split_eap b)) = split_eap b"
  by (simp add: values_at_def contribution_def comp_def)

lemma octets_split: "length (attrs_octets (map (Pair 79) (split_eap b))) = 2 * length (split_eap b) + length b"
proof -
  have "length (attrs_octets (map (Pair 79) vs)) = 2 * length vs + length (concat vs)" for vs
    by (induction vs) (simp_all add: attrs_octets_def attr_octets_def)
  then show ?thesis by (simp add: split_concat)
qed

end

lemma split_eap_laws:
  assumes "f = (\<lambda>b :: bytes. if b = [] then [[]] else py_chunks b 253)"
  shows "eap_attributes f"
proof
  fix b v :: bytes
  show "concat (f b) = b" by (simp add: assms py_chunks_chop concat_chop)
  show "v \<in> set (f b) \<Longrightarrow> length v \<le> 253"
    by (auto simp: assms py_chunks_chop dest: chop_length_le split: if_splits)
  show "b \<noteq> [] \<Longrightarrow> v \<in> set (f b) \<Longrightarrow> v \<noteq> []"
    by (auto simp: assms py_chunks_chop dest: chop_nonempty)
  show "length (f b) = (if b = [] then 1 else (length b + 252) div 253)"
    using length_chop [of 253 b] by (simp add: assms py_chunks_chop add.commute)
qed

interpretation up_eap: eap_attributes "\<lambda>b. upstream_split_eap_message b 253"
  by (rule split_eap_laws) (simp add: fun_eq_iff upstream_split_eap_message_def)

interpretation down_eap: eap_attributes "\<lambda>b. downstream_split_eap_message b 253"
  by (rule split_eap_laws) (simp add: fun_eq_iff downstream_split_eap_message_def)

text \<open>
  An EAP packet split over EAP-Message attributes comes back whole: joined directly,
  and also after the attributes went through a RADIUS datagram and the decoder, as long as
  the datagram fits RADIUS's 16-bit length.
\<close>

lemma eap_message_roundtrip:
  assumes "eap \<noteq> []" and "22 + 2 * (length eap div 253) + length eap < 65536"
    and "c < 256" and "i < 256" and "length auth = 16" and "is_tlv_attribute h 79 = Inr False"
  shows "\<exists>p'. decode_packet_allow_large h
        (packet_octets c i auth (map (Pair 79) (upstream_split_eap_message eap 253))) p
      = Some (Inr (), p') \<and>
    concat_eap_messages (pk_attrs p' (AttrCode 79)) = [eap]"
proof -
  let ?kvs = "map (Pair 79) (upstream_split_eap_message eap 253)"
  have "(length eap + 252) div 253 \<le> length eap div 253 + 1" by linarith
  then have fits: "20 + length (attrs_octets ?kvs) < 65536"
    using assms(1,2) by (simp add: up_eap.octets_split up_eap.split_count)
  have plain: "\<forall>kv \<in> set ?kvs. hooks_accept h kv" "\<not> tlv_code h 79"
    using assms(6) by (auto simp: hooks_accept_def tlv_code_def)
  have vals: "values_at h (AttrCode 79) ?kvs = upstream_split_eap_message eap 253" by (rule up_eap.values_split)
  have "upstream_split_eap_message eap 253 \<noteq> []"
    using up_eap.split_count [of eap] assms(1) by (auto simp: div_eq_0_iff)
  then show ?thesis
    using decode_packet_wire [OF assms(3,4,5) up_eap.wire_split fits plain(1), of p] plain(2) up_eap.join_split [of eap]
      assms(1) vals by auto
qed


end
