(* ===== verification/Upstream_Radius.thy ===== *)
theory Upstream_Radius
  imports Proxy_Session Radius_Wire
begin

text \<open>
  \<open>proxy/upstream_radius.py\<close>, \<open>UpstreamClient\<close>: one Access-Request carrying an EAP packet
  toward the server, and the normalised reply.

  pyrad is not part of the repository. What the proxy does to a pyrad request packet is
  recorded as the list of calls it makes on it (\<open>request_call\<close>); pyrad's encoding, which may
  raise on such a call, and \<open>Client.SendPacket\<close>, which raises \<open>Timeout\<close> or returns a decoded
  reply, are the parameter \<open>upstream_net\<close>; \<open>Client_Composition\<close> fills in the retrying client.
  A decoded reply is its code and the values pyrad holds under an attribute name.

  The theory ends with the interface the mediator relies on, \<open>upstream_leg\<close>, and its
  interpretation by \<open>send_eap\<close>.
\<close>

section \<open>Requests and replies\<close>

datatype request_call =
    SetAuthenticator bytes
  | SetItem string attr_value
  | AddAttribute string bytes
  | AddMessageAuthenticator

record pyrad_reply =
  pr_code :: nat
  pr_attrs :: "string \<Rightarrow> bytes list option"

record 'w upstream_net =
  request_error :: "request_call list \<Rightarrow> py_error option"
  send_packet :: "request_call list \<Rightarrow> 'w \<Rightarrow> (py_error + pyrad_reply) \<times> 'w"

definition AccessRequest :: nat where "AccessRequest = 1"
definition AccessAccept :: nat where "AccessAccept = 2"
definition AccessReject :: nat where "AccessReject = 3"
definition AccessChallenge :: nat where "AccessChallenge = 11"

lemmas radius_code_defs = AccessRequest_def AccessAccept_def AccessReject_def AccessChallenge_def

record upstream_client =
  host :: string
  port :: int
  secret :: bytes
  timeout_s :: real
  framed_mtu_override :: "int option"
  strip_framed_mtu :: bool

record upstream_reply =
  reply_code :: nat
  eap_messages :: "bytes list"
  reply_state :: "bytes option"
  accept :: bool
  reject :: bool
  challenge :: bool

type_synonym 'w sender =
  "bytes \<Rightarrow> string \<Rightarrow> bytes option \<Rightarrow> string option \<Rightarrow> string option \<Rightarrow>
   (session \<times> 'w, upstream_reply) prog"

section \<open>\<open>send_eap\<close>\<close>

definition set_if_text :: "string \<Rightarrow> string option \<Rightarrow> request_call list" where
  "set_if_text name v =
     (case v of None \<Rightarrow> [] | Some t \<Rightarrow> if t \<noteq> [] then [SetItem name (AText t)] else [])"

definition replay_attr :: "bool \<Rightarrow> int option \<Rightarrow> string \<times> attr_value \<Rightarrow> request_call list" where
  "replay_attr strip_mtu apply_override nv =
     (case nv of (name, v) \<Rightarrow>
        if name = ''Framed-MTU'' then
          (if strip_mtu then []
           else case apply_override of
                  Some mtu \<Rightarrow> [SetItem name (AInteger mtu)]
                | None \<Rightarrow> [SetItem name v])
        else [SetItem name v])"

definition build_request ::
  "upstream_client \<Rightarrow> session \<Rightarrow> bytes \<Rightarrow> string \<Rightarrow> bytes option \<Rightarrow> string option \<Rightarrow> string option \<Rightarrow>
   request_call list" where
  "build_request client s eap_payload username st calling_station called_station =
     (let reassembling = (mode s = ''reassemble'');
          strip_mtu = (strip_framed_mtu client \<and> reassembling);
          apply_override =
            (if framed_mtu_override client \<noteq> None \<and> \<not> strip_mtu \<and> reassembling
             then framed_mtu_override client else None) in
      (case last_ap_authenticator s of None \<Rightarrow> [] | Some a \<Rightarrow> [SetAuthenticator a]) @
      [SetItem ''User-Name'' (AText username)] @
      set_if_text ''Calling-Station-Id'' calling_station @
      set_if_text ''Called-Station-Id'' called_station @
      (case st of None \<Rightarrow> [] | Some v \<Rightarrow> [SetItem ''State'' (AOctets v)]) @
      concat (map (replay_attr strip_mtu apply_override) (ap_attrs s)) @
      map (AddAttribute ''EAP-Message'') (upstream_split_eap_message eap_payload 253) @
      [AddMessageAuthenticator])"

text \<open>\<open>pkt[name][0] if name in pkt else None\<close>; pyrad never stores an empty list, Python would raise.\<close>

definition first_value :: "bytes list option \<Rightarrow> py_error + bytes option" where
  "first_value vs =
     (case vs of None \<Rightarrow> Inr None | Some [] \<Rightarrow> Inl IndexError | Some (v # _) \<Rightarrow> Inr (Some v))"

definition capture_request_id :: "bytes list \<Rightarrow> session \<Rightarrow> session" where
  "capture_request_id msgs s =
     (case msgs of
        [] \<Rightarrow> s
      | m # _ \<Rightarrow>
          if 2 \<le> length m \<and> unat (m ! 0) = 1
          then s\<lparr>upstream_last_eap_req_id := Some (unat (m ! 1))\<rparr> else s)"

definition capture_keys :: "pyrad_reply \<Rightarrow> (session, unit) prog" where
  "capture_keys reply =
     bindP (liftP (first_value (pr_attrs reply ''MS-MPPE-Send-Key''))) (\<lambda>sk.
     thenP (modifyP (\<lambda>s. if sk = None then s else s\<lparr>ms_mppe_send_key := sk\<rparr>))
     (bindP (liftP (first_value (pr_attrs reply ''MS-MPPE-Recv-Key''))) (\<lambda>rk.
      modifyP (\<lambda>s. if rk = None then s else s\<lparr>ms_mppe_recv_key := rk\<rparr>))))"

text \<open>
  One exchange, over any way to send a request. The count of round trips goes up between the
  last call that may be refused and the sending.
\<close>

definition send_eap_through ::
  "(request_call list \<Rightarrow> py_error option) \<Rightarrow> (request_call list \<Rightarrow> (session \<times> 'w, pyrad_reply) prog) \<Rightarrow>
   upstream_client \<Rightarrow> 'w sender" where
  "send_eap_through fault call client eap_payload username st calling_station called_station =
     bindP (getS (\<lambda>s. build_request client s eap_payload username st calling_station called_station))
      (\<lambda>req.
       case fault req of
         Some e \<Rightarrow> raiseP e
       | None \<Rightarrow>
           thenP (modS (\<lambda>s. s\<lparr>upstream_round_trips := upstream_round_trips s + 1\<rparr>))
            (bindP (call req) (\<lambda>reply.
             let msgs = concat_eap_messages (pr_attrs reply ''EAP-Message'') in
             bindP (liftP (first_value (pr_attrs reply ''State''))) (\<lambda>new_state.
             thenP (modS (capture_request_id msgs))
             (thenP (if pr_code reply = AccessAccept then onS (capture_keys reply) else returnP ())
             (returnP
               \<lparr>reply_code = pr_code reply, eap_messages = msgs, reply_state = new_state,
                accept = (pr_code reply = AccessAccept), reject = (pr_code reply = AccessReject),
                challenge = (pr_code reply = AccessChallenge)\<rparr>))))))"

definition send_eap :: "'w upstream_net \<Rightarrow> upstream_client \<Rightarrow> 'w sender" where
  "send_eap net = send_eap_through (request_error net) (\<lambda>req. ioP (send_packet net req))"

section \<open>What the request carries\<close>

definition eap_of_calls :: "request_call list \<Rightarrow> bytes" where
  "eap_of_calls calls =
     concat [v. AddAttribute name v \<leftarrow> calls, name = ''EAP-Message'']"

definition items_of :: "string \<Rightarrow> request_call list \<Rightarrow> attr_value list" where
  "items_of name calls = [v. SetItem n v \<leftarrow> calls, n = name]"

lemma eap_of_calls_append [simp]: "eap_of_calls (xs @ ys) = eap_of_calls xs @ eap_of_calls ys"
  by (simp add: eap_of_calls_def)

lemma items_of_append [simp]: "items_of name (xs @ ys) = items_of name xs @ items_of name ys"
  by (simp add: items_of_def)

lemma eap_of_calls_simps [simp]:
  "eap_of_calls [] = []" "eap_of_calls (SetAuthenticator a # cs) = eap_of_calls cs"
  "eap_of_calls (SetItem n v # cs) = eap_of_calls cs"
  "eap_of_calls (AddMessageAuthenticator # cs) = eap_of_calls cs"
  "eap_of_calls (map (AddAttribute ''EAP-Message'') vs) = concat vs"
  by (simp_all add: eap_of_calls_def comp_def)

lemma items_of_simps [simp]:
  "items_of name [] = []" "items_of name (SetAuthenticator a # cs) = items_of name cs"
  "items_of name (SetItem n v # cs) = (if n = name then v # items_of name cs else items_of name cs)"
  "items_of name (AddMessageAuthenticator # cs) = items_of name cs"
  "items_of name (map (AddAttribute n) vs) = []"
  by (simp_all add: items_of_def comp_def)

lemma eap_of_replay [simp]: "eap_of_calls (concat (map (replay_attr b mtu) attrs)) = []"
  by (induction attrs) (auto simp: replay_attr_def split: option.splits prod.splits)

lemma eap_of_set_if_text [simp]: "eap_of_calls (set_if_text n v) = []"
  by (simp add: set_if_text_def split: option.split)

lemma items_of_set_if_text: "n \<noteq> name \<Longrightarrow> items_of name (set_if_text n v) = []"
  by (simp add: set_if_text_def split: option.split)

lemma items_of_replay_other:
  "name \<notin> fst ` set attrs \<Longrightarrow> items_of name (concat (map (replay_attr b mtu) attrs)) = []"
  by (induction attrs) (auto simp: replay_attr_def split: option.splits prod.splits)

definition attr_values :: "string \<Rightarrow> (string \<times> attr_value) list \<Rightarrow> attr_value list" where
  "attr_values name attrs = [v. (n, v) \<leftarrow> attrs, n = name]"

lemma items_of_replay:
  "items_of name (concat (map (replay_attr strip mtu) attrs)) =
     (if name = ''Framed-MTU'' \<and> strip then []
      else if name = ''Framed-MTU'' \<and> mtu \<noteq> None
      then map (\<lambda>_. AInteger (the mtu)) (attr_values name attrs)
      else attr_values name attrs)"
  by (induction attrs) (auto simp: replay_attr_def attr_values_def split: option.splits prod.splits)

text \<open>The attributes the proxy sets itself; an AP attribute of another name is replayed.\<close>

definition own_attrs :: "string list" where
  "own_attrs = [''User-Name'', ''Calling-Station-Id'', ''Called-Station-Id'', ''State'']"

lemma items_of_build_request:
  assumes "name \<notin> set own_attrs"
  shows "items_of name (build_request client s eap u st calling called) =
     (if name = ''Framed-MTU'' \<and> mode s = ''reassemble'' then
        (if strip_framed_mtu client then []
         else case framed_mtu_override client of
                None \<Rightarrow> attr_values name (ap_attrs s)
              | Some mtu \<Rightarrow> map (\<lambda>_. AInteger mtu) (attr_values name (ap_attrs s)))
      else attr_values name (ap_attrs s))"
proof -
  have own: "''User-Name'' \<noteq> name" "''Calling-Station-Id'' \<noteq> name" "''Called-Station-Id'' \<noteq> name"
    "''State'' \<noteq> name"
    using assms by (auto simp: own_attrs_def)
  have st: "items_of name (case st of None \<Rightarrow> [] | Some v \<Rightarrow> [SetItem ''State'' (AOctets v)]) = []"
    using own by (simp split: option.split)
  have auth: "items_of name (case last_ap_authenticator s of None \<Rightarrow> [] | Some a \<Rightarrow> [SetAuthenticator a]) = []"
    by (simp split: option.split)
  show ?thesis
    using own
    by (simp add: build_request_def Let_def items_of_set_if_text st auth items_of_replay
        split: option.split)
qed

lemma eap_of_build_request [simp]: "eap_of_calls (build_request client s eap u st calling called) = eap"
  by (auto simp: build_request_def Let_def up_eap.split_concat split: option.splits)


text \<open>
  Framed-MTU. Outside reassemble mode the server sees exactly the value the AP sent,
  whatever the configuration; in reassemble mode stripping wins over the override, and the
  override replaces the value of an AP that sent one.
\<close>

lemma framed_mtu_policy:
  "items_of ''Framed-MTU'' (build_request client s eap u st calling called) =
     (if mode s \<noteq> ''reassemble'' then attr_values ''Framed-MTU'' (ap_attrs s)
      else if strip_framed_mtu client then []
      else case framed_mtu_override client of
             None \<Rightarrow> attr_values ''Framed-MTU'' (ap_attrs s)
           | Some mtu \<Rightarrow> map (\<lambda>_. AInteger mtu) (attr_values ''Framed-MTU'' (ap_attrs s)))"
  by (subst items_of_build_request) (simp_all add: own_attrs_def)

text \<open>
  An AP that sends no Framed-MTU gets none sent upstream in any mode and under any
  override: the override rewrites a value, it never adds the attribute.
\<close>

lemma framed_mtu_never_added:
  assumes "''Framed-MTU'' \<notin> fst ` set (ap_attrs s)"
  shows "items_of ''Framed-MTU'' (build_request client s eap u st calling called) = []"
proof -
  have "attr_values ''Framed-MTU'' (ap_attrs s) = []"
    using assms by (force simp: attr_values_def)
  then show ?thesis
    by (subst items_of_build_request) (simp_all add: own_attrs_def split: option.split)
qed

definition lab_client :: upstream_client where
  "lab_client = \<lparr>host = ''127.0.0.1'', port = 11812, secret = [], timeout_s = 10,
                framed_mtu_override = Some 60000, strip_framed_mtu = False\<rparr>"

text \<open>
  C31: every Access-Request carries the whole EAP packet, split over its EAP-Message
  attributes in order, echoes the server's State exactly when there is one, starts from the
  AP's Request Authenticator when one was captured, replays every other captured AP
  attribute, and ends by adding the Message-Authenticator.
\<close>

theorem request_contents:
  assumes "name \<notin> set own_attrs" and "name \<noteq> ''Framed-MTU''"
    and "''State'' \<notin> fst ` set (ap_attrs s)"
  shows "let calls = build_request client s eap u st calling called in
    eap_of_calls calls = eap \<and>
    items_of ''State'' calls = (case st of None \<Rightarrow> [] | Some v \<Rightarrow> [AOctets v]) \<and>
    (case last_ap_authenticator s of
       None \<Rightarrow> hd calls = SetItem ''User-Name'' (AText u) | Some a \<Rightarrow> hd calls = SetAuthenticator a) \<and>
    items_of name calls = attr_values name (ap_attrs s) \<and>
    last calls = AddMessageAuthenticator"
proof -
  have "eap_of_calls (build_request client s eap u st calling called) = eap" by simp
  moreover have "items_of ''State'' (build_request client s eap u st calling called)
      = (case st of None \<Rightarrow> [] | Some v \<Rightarrow> [AOctets v])"
    by (simp add: build_request_def Let_def items_of_set_if_text items_of_replay_other assms(3)
        split: option.splits)
  moreover have "case last_ap_authenticator s of
       None \<Rightarrow> hd (build_request client s eap u st calling called) = SetItem ''User-Name'' (AText u)
     | Some a \<Rightarrow> hd (build_request client s eap u st calling called) = SetAuthenticator a"
    by (simp add: build_request_def Let_def split: option.splits)
  moreover have "last (build_request client s eap u st calling called) = AddMessageAuthenticator"
    by (simp add: build_request_def Let_def)
  ultimately show ?thesis using assms by (simp add: items_of_build_request Let_def)
qed

theorem request_contents_witness:
  "let calls = build_request lab_client
      (new_session ''k'' ''reassemble'' 60000 1000 262144 None 0
        \<lparr>ap_attrs := [(''NAS-Identifier'', AText ''ap1'')], last_ap_authenticator := Some [1, 2]\<rparr>)
      [2, 1, 0, 4] ''u'' (Some [9]) None None in
    eap_of_calls calls = [2, 1, 0, 4] \<and> items_of ''State'' calls = [AOctets [9]] \<and>
    hd calls = SetAuthenticator [1, 2] \<and>
    items_of ''NAS-Identifier'' calls = [AText ''ap1''] \<and> last calls = AddMessageAuthenticator"
  using request_contents
    [of "''NAS-Identifier''" "new_session ''k'' ''reassemble'' 60000 1000 262144 None 0
        \<lparr>ap_attrs := [(''NAS-Identifier'', AText ''ap1'')], last_ap_authenticator := Some [1, 2]\<rparr>"
      lab_client "[2, 1, 0, 4]" "''u''" "Some [9]" None None]
  by (simp add: own_attrs_def new_session_def attr_values_def Let_def)

section \<open>What one exchange does to the session\<close>

text \<open>The fields \<open>send_eap\<close> may assign; everything else of the session is the caller's.\<close>

definition same_but_upstream :: "session \<Rightarrow> session \<Rightarrow> bool" where
  "same_but_upstream s s' \<longleftrightarrow>
     s' = s\<lparr>upstream_last_eap_req_id := upstream_last_eap_req_id s',
           ms_mppe_send_key := ms_mppe_send_key s', ms_mppe_recv_key := ms_mppe_recv_key s',
           upstream_round_trips := upstream_round_trips s'\<rparr>"

lemma same_but_upstreamE:
  assumes "same_but_upstream s s'"
  obtains j a b c where "s' = s\<lparr>upstream_last_eap_req_id := j, ms_mppe_send_key := a,
      ms_mppe_recv_key := b, upstream_round_trips := c\<rparr>"
  using assms unfolding same_but_upstream_def by blast

lemma same_but_upstream_sel:
  assumes "same_but_upstream s s'"
  shows "up_reasm s' = up_reasm s" "down_reasm s' = down_reasm s" "down_outbox s' = down_outbox s"
    "down_next_id s' = down_next_id s" "result s' = result s" "mode s' = mode s"
  using same_but_upstreamE [OF assms] by force+

definition next_request_id :: "bytes list \<Rightarrow> nat option \<Rightarrow> nat option" where
  "next_request_id msgs old =
     (case msgs of [] \<Rightarrow> old | m # _ \<Rightarrow> if 2 \<le> length m \<and> unat (m ! 0) = 1 then Some (unat (m ! 1)) else old)"

definition octet_id :: "nat option \<Rightarrow> bool" where
  "octet_id i \<longleftrightarrow> (case i of None \<Rightarrow> True | Some n \<Rightarrow> n < 256)"

lemma octet_id_simps [simp]: "octet_id None" "octet_id (Some n) \<longleftrightarrow> n < 256"
  by (simp_all add: octet_id_def)

lemma octet_id_next: "octet_id i \<Longrightarrow> octet_id (next_request_id msgs i)"
  by (simp add: next_request_id_def split: list.split)

definition well_formed_reply :: "upstream_reply \<Rightarrow> bool" where
  "well_formed_reply r \<longleftrightarrow>
     (eap_messages r = [] \<or> (\<exists>m. m \<noteq> [] \<and> eap_messages r = [m])) \<and> \<not> (accept r \<and> reject r)"

lemma capture_request_id_eq:
  "capture_request_id msgs s = s\<lparr>upstream_last_eap_req_id := next_request_id msgs (upstream_last_eap_req_id s)\<rparr>"
  by (simp add: capture_request_id_def next_request_id_def split: list.split)

lemma concat_eap_messages_cases: "concat_eap_messages vs = [] \<or> (\<exists>m. m \<noteq> [] \<and> concat_eap_messages vs = [m])"
  by (simp add: concat_eap_messages_def Let_def split: option.split)

definition key_of :: "pyrad_reply \<Rightarrow> string \<Rightarrow> bytes option \<Rightarrow> bytes option" where
  "key_of r name old = (case pr_attrs r name of Some (v # _) \<Rightarrow> Some v | _ \<Rightarrow> old)"

lemma first_value_key:
  "vs \<noteq> Some [] \<Longrightarrow> first_value vs = Inr (case vs of Some (v # _) \<Rightarrow> Some v | _ \<Rightarrow> None)"
  by (simp add: first_value_def split: option.splits list.splits)

lemma capture_keys_ok:
  assumes "pr_attrs r ''MS-MPPE-Send-Key'' \<noteq> Some []" and "pr_attrs r ''MS-MPPE-Recv-Key'' \<noteq> Some []"
  shows "capture_keys r s = Some (Inr (),
    s\<lparr>ms_mppe_send_key := key_of r ''MS-MPPE-Send-Key'' (ms_mppe_send_key s),
      ms_mppe_recv_key := key_of r ''MS-MPPE-Recv-Key'' (ms_mppe_recv_key s)\<rparr>)"
  by (simp add: capture_keys_def first_value_key [OF assms(1)] first_value_key [OF assms(2)]
      key_of_def prog_simps split: option.splits list.splits)

lemma capture_keys_error:
  assumes "capture_keys r s = Some (Inl e, s')"
  shows "e = IndexError \<and> (\<exists>k. s' = s\<lparr>ms_mppe_send_key := k\<rparr>)"
proof (cases "pr_attrs r ''MS-MPPE-Send-Key'' = Some []")
  case True
  then have "e = IndexError" "s' = s\<lparr>ms_mppe_send_key := ms_mppe_send_key s\<rparr>"
    using assms by (simp_all add: capture_keys_def first_value_def prog_simps)
  then show ?thesis by blast
next
  case False
  then have "pr_attrs r ''MS-MPPE-Recv-Key'' = Some []"
    using assms capture_keys_ok by fastforce
  then have "capture_keys r s = Some (Inl IndexError,
      s\<lparr>ms_mppe_send_key := key_of r ''MS-MPPE-Send-Key'' (ms_mppe_send_key s)\<rparr>)"
    by (simp add: capture_keys_def first_value_key [OF False] first_value_def [of "Some []"]
        key_of_def prog_simps split: option.splits list.splits)
  then show ?thesis using assms by auto
qed

text \<open>The session after a completed exchange, as one record update.\<close>

definition after_exchange :: "pyrad_reply \<Rightarrow> session \<Rightarrow> session" where
  "after_exchange r s =
     (let acc = (pr_code r = AccessAccept) in
      s\<lparr>upstream_last_eap_req_id :=
          next_request_id (concat_eap_messages (pr_attrs r ''EAP-Message'')) (upstream_last_eap_req_id s),
        ms_mppe_send_key := (if acc then key_of r ''MS-MPPE-Send-Key'' (ms_mppe_send_key s) else ms_mppe_send_key s),
        ms_mppe_recv_key := (if acc then key_of r ''MS-MPPE-Recv-Key'' (ms_mppe_recv_key s) else ms_mppe_recv_key s),
        upstream_round_trips := upstream_round_trips s + 1\<rparr>)"

definition normalised :: "pyrad_reply \<Rightarrow> upstream_reply" where
  "normalised r =
     \<lparr>reply_code = pr_code r, eap_messages = concat_eap_messages (pr_attrs r ''EAP-Message''),
      reply_state = (case pr_attrs r ''State'' of Some (v # _) \<Rightarrow> Some v | _ \<Rightarrow> None),
      accept = (pr_code r = AccessAccept), reject = (pr_code r = AccessReject),
      challenge = (pr_code r = AccessChallenge)\<rparr>"

definition proper_reply :: "pyrad_reply \<Rightarrow> bool" where
  "proper_reply r \<longleftrightarrow>
     pr_attrs r ''State'' \<noteq> Some [] \<and>
     (pr_code r = AccessAccept \<longrightarrow>
        pr_attrs r ''MS-MPPE-Send-Key'' \<noteq> Some [] \<and> pr_attrs r ''MS-MPPE-Recv-Key'' \<noteq> Some [])"

lemma send_eap_run:
  assumes "request_error net (build_request client s eap u st calling called) = None"
    and "send_packet net (build_request client s eap u st calling called) w = (Inr r, w')"
    and "proper_reply r"
  shows "send_eap net client eap u st calling called (s, w) =
    Some (Inr (normalised r), (after_exchange r s, w'))"
proof -
  have st: "first_value (pr_attrs r ''State'') = Inr (reply_state (normalised r))"
    using assms(3) by (simp add: proper_reply_def first_value_key normalised_def)
  have io: "ioP (send_packet net (build_request client s eap u st calling called)) (t, w)
      = Some (Inr r, (t, w'))" for t :: session
    using assms(2) by (simp add: ioP_apply)
  show ?thesis
    using assms(1,3) io
    by (simp add: send_eap_def send_eap_through_def prog_simps bindP_Some_Inr st proper_reply_def capture_request_id_eq
        thenP_def [of "onS _"] bindP_onS_Inr [OF capture_keys_ok] thenP_def [of "returnP _"]
        after_exchange_def normalised_def Let_def)
qed


lemma capture_keys_total: "capture_keys r s \<noteq> None"
  by (simp add: capture_keys_def bindP_def liftP_def thenP_def modifyP_def split: option.splits sum.splits)

lemma capture_keys_Inr:
  assumes "capture_keys r s = Some (Inr x, s')"
  shows "pr_attrs r ''MS-MPPE-Send-Key'' \<noteq> Some [] \<and> pr_attrs r ''MS-MPPE-Recv-Key'' \<noteq> Some []"
  using assms
  by (auto simp: capture_keys_def first_value_def bindP_def liftP_def thenP_def modifyP_def
      split: option.splits sum.splits list.splits)

lemma send_eap_result:
  assumes "send_eap net client eap u st calling called (s, w) = Some (x, (s', w'))"
  obtains (refused) e where "x = Inl e" "s' = s" "w' = w"
      "request_error net (build_request client s eap u st calling called) = Some e"
  | (failed) e where "x = Inl e" "same_but_upstream s s'"
      "w' = snd (send_packet net (build_request client s eap u st calling called) w)"
      "upstream_round_trips s' = upstream_round_trips s + 1"
      "octet_id (upstream_last_eap_req_id s) \<Longrightarrow> octet_id (upstream_last_eap_req_id s')"
      "e = IndexError \<or> fst (send_packet net (build_request client s eap u st calling called) w) = Inl e"
  | (replied) r where "x = Inr (normalised r)" "s' = after_exchange r s" "proper_reply r"
      "send_packet net (build_request client s eap u st calling called) w = (Inr r, w')"
proof -
  let ?req = "build_request client s eap u st calling called"
  let ?s1 = "s\<lparr>upstream_round_trips := upstream_round_trips s + 1\<rparr>"
  show thesis
  proof (cases "request_error net ?req")
    case (Some e)
    then show ?thesis using assms refused by (auto simp: send_eap_def send_eap_through_def prog_simps)
  next
    case None
    obtain y w1 where sp: "send_packet net ?req w = (y, w1)" by fastforce
    show ?thesis
    proof (cases y)
      case (Inl e)
      then have "x = Inl e" "s' = ?s1" "w' = w1"
        using assms None sp by (simp_all add: send_eap_def send_eap_through_def prog_simps ioP_apply bindP_Some_Inl)
      then show ?thesis using failed sp Inl by (simp add: same_but_upstream_def)
    next
      case (Inr r)
      show ?thesis
      proof (cases "proper_reply r")
        case True
        then show ?thesis
          using assms replied send_eap_run [OF None _ True, of w] sp Inr by auto
      next
        case False
        have io: "ioP (send_packet net ?req) (?s1, w) = Some (Inr r, (?s1, w1))"
          using sp Inr by (simp add: ioP_apply)
        have "x = Inl IndexError \<and> w' = w1 \<and> same_but_upstream s s' \<and> upstream_round_trips s' = upstream_round_trips s + 1 \<and>
          (octet_id (upstream_last_eap_req_id s) \<longrightarrow> octet_id (upstream_last_eap_req_id s'))"
        proof (cases "pr_attrs r ''State'' = Some []")
          case True
          then show ?thesis
            using assms None io
            by (auto simp: send_eap_def send_eap_through_def prog_simps bindP_Some_Inr first_value_def Let_def
                same_but_upstream_def)
        next
          case nst: False
          with False have acc: "pr_code r = AccessAccept"
            and bad: "\<not> (pr_attrs r ''MS-MPPE-Send-Key'' \<noteq> Some [] \<and> pr_attrs r ''MS-MPPE-Recv-Key'' \<noteq> Some [])"
            by (auto simp: proper_reply_def)
          let ?s2 = "capture_request_id (concat_eap_messages (pr_attrs r ''EAP-Message'')) ?s1"
          obtain e s3 where ck: "capture_keys r ?s2 = Some (Inl e, s3)"
            using capture_keys_total [of r ?s2] capture_keys_Inr [of r ?s2] bad
            by (metis option.exhaust prod.exhaust sum.exhaust)
          then have "onS (capture_keys r) (?s2, w1) = Some (Inl e, (s3, w1))" by (rule onS_Some)
          then have "x = Inl e" "s' = s3" "w' = w1"
            using assms None io nst acc
            by (simp_all add: send_eap_def send_eap_through_def prog_simps bindP_Some_Inr first_value_key Let_def
                thenP_def [of "onS _"] bindP_Some_Inl)
          then show ?thesis
            using capture_keys_error [OF ck] by (auto simp: same_but_upstream_def capture_request_id_eq octet_id_next)
        qed
        then show ?thesis using failed sp by simp
      qed
    qed
  qed
qed

lemma send_eap_total: "send_eap net client eap u st calling called sw \<noteq> None"
  by (cases sw)
    (simp add: send_eap_def send_eap_through_def bindP_def getS_apply modS_def thenP_def modifyP_def raiseP_def liftP_def
      returnP_def ioP_apply onS_def zoomP_def capture_keys_total Let_def
      split: option.splits sum.splits prod.splits)

lemma same_after_exchange: "same_but_upstream s (after_exchange r s)"
  by (simp add: same_but_upstream_def after_exchange_def Let_def)

lemma well_formed_normalised: "well_formed_reply (normalised r)"
  using concat_eap_messages_cases [of "pr_attrs r ''EAP-Message''"]
  by (auto simp: well_formed_reply_def normalised_def radius_code_defs)

section \<open>The upstream leg as the mediator uses it\<close>

locale upstream_leg =
  fixes send :: "'w sender"
  assumes send_returns: "send eap u st calling called sw \<noteq> None"
    and send_frame: "send eap u st calling called (s, w) = Some (x, (s', w')) \<Longrightarrow> same_but_upstream s s'"
    and send_trip: "send eap u st calling called (s, w) = Some (Inr r, (s', w')) \<Longrightarrow>
      upstream_round_trips s' = upstream_round_trips s + 1"
    and send_request_id: "send eap u st calling called (s, w) = Some (Inr r, (s', w')) \<Longrightarrow>
      upstream_last_eap_req_id s' = next_request_id (eap_messages r) (upstream_last_eap_req_id s)"
    and send_reply: "send eap u st calling called (s, w) = Some (Inr r, (s', w')) \<Longrightarrow> well_formed_reply r"
    and send_octet: "send eap u st calling called (s, w) = Some (x, (s', w')) \<Longrightarrow>
      octet_id (upstream_last_eap_req_id s) \<Longrightarrow> octet_id (upstream_last_eap_req_id s')"

interpretation leg: upstream_leg "send_eap net client" for net client
proof
  fix eap u st calling called sw
  show "send_eap net client eap u st calling called sw \<noteq> None" by (rule send_eap_total)
next
  fix eap u st calling called s w x s' w'
  assume run: "send_eap net client eap u st calling called (s, w) = Some (x, (s', w'))"
  then show "same_but_upstream s s'"
    by (cases rule: send_eap_result) (simp_all add: same_after_exchange, simp add: same_but_upstream_def)
  assume "octet_id (upstream_last_eap_req_id s)"
  with run show "octet_id (upstream_last_eap_req_id s')"
    by (cases rule: send_eap_result) (simp_all add: after_exchange_def Let_def octet_id_next)
next
  fix eap u st calling called s w r s' w'
  assume run: "send_eap net client eap u st calling called (s, w) = Some (Inr r, (s', w'))"
  show "upstream_round_trips s' = upstream_round_trips s + 1"
    using run by (cases rule: send_eap_result) (simp_all add: after_exchange_def Let_def)
  show "upstream_last_eap_req_id s' = next_request_id (eap_messages r) (upstream_last_eap_req_id s)"
    using run by (cases rule: send_eap_result) (simp_all add: after_exchange_def normalised_def Let_def)
  show "well_formed_reply r"
    using run by (cases rule: send_eap_result) (simp_all add: well_formed_normalised)
qed

text \<open>
  C32: one exchange. Unless pyrad refuses the request, it counts as one upstream round
  trip. It leaves the session otherwise as it was but for the Identifier of the server's
  last EAP-Request (updated exactly when the reply carries one) and the MS-MPPE keys, which
  only an Access-Accept can change. The normalised reply holds at most one EAP packet.
\<close>

theorem send_eap_effect:
  assumes "request_error net (build_request client s eap u st calling called) = None"
    and "send_packet net (build_request client s eap u st calling called) w = (Inr r, w')"
    and "proper_reply r"
  shows "\<exists>reply s'. send_eap net client eap u st calling called (s, w) = Some (Inr reply, (s', w')) \<and>
    same_but_upstream s s' \<and> well_formed_reply reply \<and>
    upstream_round_trips s' = upstream_round_trips s + 1 \<and>
    upstream_last_eap_req_id s' = next_request_id (eap_messages reply) (upstream_last_eap_req_id s) \<and>
    (accept reply \<or> (ms_mppe_send_key s' = ms_mppe_send_key s \<and> ms_mppe_recv_key s' = ms_mppe_recv_key s))"
  using send_eap_run [OF assms] same_after_exchange [of s r] well_formed_normalised [of r]
  by (auto simp: after_exchange_def normalised_def Let_def)


text \<open>A server given by the list of its replies: the world is what it has still to say.\<close>

definition scripted_net :: "pyrad_reply list upstream_net" where
  "scripted_net =
     \<lparr>request_error = (\<lambda>_. None),
      send_packet = (\<lambda>_ w. case w of [] \<Rightarrow> (Inl Timeout, []) | r # rs \<Rightarrow> (Inr r, rs))\<rparr>"

definition eap_reply :: "nat \<Rightarrow> bytes \<Rightarrow> pyrad_reply" where
  "eap_reply c eap = \<lparr>pr_code = c, pr_attrs = Map.empty(''EAP-Message'' \<mapsto> [eap])\<rparr>"

theorem send_eap_effect_witness:
  "\<exists>reply s'. send_eap scripted_net lab_client [2, 1, 0, 4] ''u'' None None None
        (new_session ''k'' ''reassemble'' 60000 1000 262144 None 0, [eap_reply 11 [1, 9, 0, 6, 13, 0x20]])
      = Some (Inr reply, (s', [])) \<and>
    upstream_round_trips s' = 1 \<and> upstream_last_eap_req_id s' = next_request_id (eap_messages reply) None"
proof -
  let ?s = "new_session ''k'' ''reassemble'' 60000 1000 262144 None 0"
  let ?r = "eap_reply 11 [1, 9, 0, 6, 13, 0x20]"
  have "request_error scripted_net
      (build_request lab_client ?s [2, 1, 0, 4] ''u'' None None None) = None"
    and "send_packet scripted_net
      (build_request lab_client ?s [2, 1, 0, 4] ''u'' None None None) [?r] = (Inr ?r, [])"
    and "proper_reply ?r"
    by (simp_all add: scripted_net_def proper_reply_def eap_reply_def AccessAccept_def)
  from send_eap_effect [OF this] show ?thesis by (simp add: new_session_def) blast
qed

end
