(* ===== verification/Radius_Client.thy ===== *)
theory Radius_Client
  imports Upstream_Radius
begin

text \<open>
  \<open>proxy/upstream_radius.py\<close>, \<open>_BigReplyClient._SendPacket\<close>: send a request up to \<open>retries\<close>
  times, wait for each up to \<open>timeout\<close> seconds, and return the first datagram that decodes and
  verifies as its reply.

  The socket, the clock and the pyrad packet object are the parameter \<open>radius_io\<close>. The
  program runs over the packet object, which encoding mutates, and the world. The waiting loop
  reads the clock in every turn and is a partial function into \<open>option\<close>: \<open>None\<close> is a loop that
  never leaves.

  The lemmas show that a reply that is returned was received and verified, that the number of
  transmissions is bounded, and that the loop ends when waiting takes time.
\<close>

section \<open>The loop\<close>

record ('p, 'r, 'w) radius_io =
  open_socket :: "'w \<Rightarrow> (py_error + unit) \<times> 'w"
  wall_clock :: "'w \<Rightarrow> real \<times> 'w"
  send_datagram :: "bytes \<Rightarrow> 'w \<Rightarrow> (py_error + unit) \<times> 'w"
  poll_ready :: "real \<Rightarrow> 'w \<Rightarrow> bool \<times> 'w"
  recv_datagram :: "nat \<Rightarrow> 'w \<Rightarrow> (py_error + bytes) \<times> 'w"
  packet_code :: "'p \<Rightarrow> nat"
  acct_delay :: "'p \<Rightarrow> real list option"
  set_acct_delay :: "real \<Rightarrow> 'p \<Rightarrow> py_error + 'p"
  request_octets :: "'p \<Rightarrow> (py_error + bytes) \<times> 'p"
  create_reply :: "'p \<Rightarrow> bytes \<Rightarrow> py_error + 'r"
  verify_reply :: "'p \<Rightarrow> 'r \<Rightarrow> bytes \<Rightarrow> py_error + bool"
  packet_authenticator :: "'p \<Rightarrow> bytes option"
  with_request_authenticator :: "bytes \<Rightarrow> 'r \<Rightarrow> 'r"

definition AccountingRequest :: nat where "AccountingRequest = 4"

text \<open>\<open>except packet.PacketError: pass\<close>\<close>

definition except_packet_error :: "py_error + 'a option \<Rightarrow> py_error + 'a option" where
  "except_packet_error x = (case x of Inl (PacketError r) \<Rightarrow> Inr None | _ \<Rightarrow> x)"

definition try_reply :: "('p, 'r, 'w) radius_io \<Rightarrow> 'p \<Rightarrow> bytes \<Rightarrow> py_error + 'r option" where
  "try_reply io p rawreply =
     except_packet_error
       (case create_reply io p rawreply of
          Inl e \<Rightarrow> Inl e
        | Inr reply \<Rightarrow>
            (case verify_reply io p reply rawreply of
               Inl e \<Rightarrow> Inl e
             | Inr ok \<Rightarrow>
                 if ok then
                   Inr (Some (case packet_authenticator io p of
                                None \<Rightarrow> reply
                              | Some a \<Rightarrow> with_request_authenticator io a reply))
                 else Inr None))"

definition read_clock :: "('p, 'r, 'w) radius_io \<Rightarrow> ('p \<times> 'w, real) prog" where
  "read_clock io = ioP (\<lambda>w. case wall_clock io w of (t, w') \<Rightarrow> (Inr t, w'))"

text \<open>One turn of the waiting loop: a verified reply, or nothing yet.\<close>

definition await_turn :: "('p, 'r, 'w) radius_io \<Rightarrow> real \<Rightarrow> ('p \<times> 'w, 'r option) prog" where
  "await_turn io wait_ms =
     bindP (ioP (\<lambda>w. case poll_ready io wait_ms w of (b, w') \<Rightarrow> (Inr b, w'))) (\<lambda>ready.
       if ready then
         bindP (ioP (recv_datagram io 65535)) (\<lambda>rawreply.
         bindP (getS (\<lambda>p. try_reply io p rawreply)) liftP)
       else returnP None)"

partial_function (option) await_reply ::
  "('p, 'r, 'w) radius_io \<Rightarrow> real \<Rightarrow> real \<Rightarrow> 'p \<times> 'w \<Rightarrow> ((py_error + 'r option) \<times> 'p \<times> 'w) option" where
  "await_reply io waitto now pw =
     (if now < waitto then
        bindP (await_turn io ((waitto - now) * 1000)) (\<lambda>res.
          case res of
            Some reply \<Rightarrow> returnP (Some reply)
          | None \<Rightarrow> bindP (read_clock io) (\<lambda>now'. await_reply io waitto now'))
      else returnP None) pw"

text \<open>An Accounting-Request is charged with the time it already waited, from the second attempt on.\<close>

definition charge_delay :: "('p, 'r, 'w) radius_io \<Rightarrow> real \<Rightarrow> nat \<Rightarrow> ('p \<times> 'w, unit) prog" where
  "charge_delay io timeout attempt =
     bindP (getS (\<lambda>p.
       if attempt \<noteq> 0 \<and> packet_code io p = AccountingRequest then
         (case acct_delay io p of
            None \<Rightarrow> set_acct_delay io timeout p
          | Some [] \<Rightarrow> Inl IndexError
          | Some (d # _) \<Rightarrow> set_acct_delay io (d + timeout) p)
       else Inr p)) (\<lambda>r. bindP (liftP r) (\<lambda>p. modS (\<lambda>_. p)))"

definition encode_request :: "('p, 'r, 'w) radius_io \<Rightarrow> ('p \<times> 'w, bytes) prog" where
  "encode_request io = onS (\<lambda>p. Some (request_octets io p))"

definition attempt_once :: "('p, 'r, 'w) radius_io \<Rightarrow> real \<Rightarrow> nat \<Rightarrow> ('p \<times> 'w, 'r option) prog" where
  "attempt_once io timeout attempt =
     thenP (charge_delay io timeout attempt)
     (bindP (read_clock io) (\<lambda>now.
      bindP (encode_request io) (\<lambda>octets.
      thenP (ioP (send_datagram io octets)) (await_reply io (now + timeout) now))))"

primrec attempts :: "('p, 'r, 'w) radius_io \<Rightarrow> real \<Rightarrow> nat list \<Rightarrow> ('p \<times> 'w, 'r) prog" where
  "attempts io timeout [] = raiseP Timeout"
| "attempts io timeout (a # as) =
     bindP (attempt_once io timeout a) (\<lambda>res.
       case res of Some reply \<Rightarrow> returnP reply | None \<Rightarrow> attempts io timeout as)"

definition send_packet_retrying :: "('p, 'r, 'w) radius_io \<Rightarrow> nat \<Rightarrow> real \<Rightarrow> ('p \<times> 'w, 'r) prog" where
  "send_packet_retrying io retries timeout =
     thenP (ioP (open_socket io)) (attempts io timeout [0..<retries])"

section \<open>Triples for the loop\<close>

lemma hoare_getS: "(\<And>p w. P (p, w) \<Longrightarrow> Q (f p) (p, w)) \<Longrightarrow> hoare P (getS f) Q E"
  by (rule hoareI) (auto simp: getS_apply)

lemma hoare_ioP:
  "(\<And>p w x w'. P (p, w) \<Longrightarrow> f w = (Inr x, w') \<Longrightarrow> Q x (p, w')) \<Longrightarrow>
   (\<And>p w e w'. P (p, w) \<Longrightarrow> f w = (Inl e, w') \<Longrightarrow> E e (p, w')) \<Longrightarrow> hoare P (ioP f) Q E"
  by (rule hoareI) (auto simp: ioP_apply prod_eq_iff)

lemma hoare_run:
  "hoare P m Q E \<Longrightarrow> P s \<Longrightarrow> m s = Some y \<Longrightarrow> (case fst y of Inl e \<Rightarrow> E e (snd y) | Inr x \<Rightarrow> Q x (snd y))"
  by (cases y) (auto simp: hoare_def)

lemma hoare_await:
  assumes turn: "\<And>ms. hoare I (await_turn io ms) (\<lambda>r pw. I pw \<and> (\<forall>reply. r = Some reply \<longrightarrow> R reply pw)) E"
    and clock: "hoare I (read_clock io) (\<lambda>_. I) E"
  shows "hoare I (await_reply io waitto now) (\<lambda>r pw. I pw \<and> (\<forall>reply. r = Some reply \<longrightarrow> R reply pw)) E"
proof -
  let ?Q = "\<lambda>r pw. I pw \<and> (\<forall>reply. r = Some reply \<longrightarrow> R reply pw)"
  let ?P = "\<lambda>io' (waitto :: real) (now :: real) pw y. io' = io \<longrightarrow> I pw \<longrightarrow> (case fst y of Inl e \<Rightarrow> E e (snd y) | Inr x \<Rightarrow> ?Q x (snd y))"
  have step: "?P io waitto now pw y" if "await_reply io waitto now pw = Some y" for pw y
  proof (rule await_reply.raw_induct [OF _ that, where P = ?P])
    fix f io' waitto now pw y
    assume hyp: "\<And>io waitto now pw y. f io waitto now pw = Some y \<Longrightarrow> ?P io waitto now pw y"
      and run: "(if now < waitto then
          bindP (await_turn io' ((waitto - now) * 1000)) (\<lambda>res.
            case res of None \<Rightarrow> bindP (read_clock io') (\<lambda>now'. f io' waitto now') | Some reply \<Rightarrow> returnP (Some reply))
        else returnP None) pw = Some y"
    have IH: "hoare I (f io waitto now) ?Q E" for now
      by (intro hoareI) (drule hyp, simp)+
    have again: "hoare (\<lambda>pw. I pw \<and> (\<forall>reply. r = Some reply \<longrightarrow> R reply pw))
        (case r of None \<Rightarrow> bindP (read_clock io) (\<lambda>now'. f io waitto now') | Some reply \<Rightarrow> returnP (Some reply)) ?Q E" for r
      using hoare_bindP [OF clock IH] by (cases r) (auto intro: hoare_returnP elim: hoare_weaken)
    have body: "hoare I (if now < waitto then
          bindP (await_turn io ((waitto - now) * 1000)) (\<lambda>res.
            case res of None \<Rightarrow> bindP (read_clock io) (\<lambda>now'. f io waitto now') | Some reply \<Rightarrow> returnP (Some reply))
        else returnP None) ?Q E"
      by (intro hoare_if hoare_bindP [OF turn again] hoare_returnP) simp
    show "?P io' waitto now pw y"
    proof (intro impI)
      assume eq: "io' = io" and inv: "I pw"
      show "case fst y of Inl e \<Rightarrow> E e (snd y) | Inr x \<Rightarrow> ?Q x (snd y)"
        by (rule hoare_run [OF body inv run [unfolded eq]])
    qed
  qed
  show ?thesis by (intro hoareI) (drule step, simp)+
qed

section \<open>The reply that is returned\<close>

text \<open>A reply made from a datagram that was received, decoded as a reply to the request and verified.\<close>

definition verified :: "('p, 'r, 'w) radius_io \<Rightarrow> 'r \<Rightarrow> 'p \<times> 'w \<Rightarrow> bool" where
  "verified io reply pw \<longleftrightarrow>
     (\<exists>rawreply r w1 w2. recv_datagram io 65535 w1 = (Inr rawreply, w2) \<and> create_reply io (fst pw) rawreply = Inr r \<and>
        verify_reply io (fst pw) r rawreply = Inr True \<and>
        reply = (case packet_authenticator io (fst pw) of None \<Rightarrow> r | Some a \<Rightarrow> with_request_authenticator io a r))"

lemma try_reply_Some:
  assumes "try_reply io p rawreply = Inr (Some reply)"
  shows "\<exists>r. create_reply io p rawreply = Inr r \<and> verify_reply io p r rawreply = Inr True \<and>
    reply = (case packet_authenticator io p of None \<Rightarrow> r | Some a \<Rightarrow> with_request_authenticator io a r)"
  using assms
  by (auto simp: try_reply_def except_packet_error_def split: sum.splits py_error.splits if_splits)

lemma turn_verified:
  "hoare (\<lambda>_. True) (await_turn io ms) (\<lambda>r pw. True \<and> (\<forall>reply. r = Some reply \<longrightarrow> verified io reply pw)) (\<lambda>_ _. True)"
proof (rule hoareI)
  fix pw r pw'
  assume run: "await_turn io ms pw = Some (Inr r, pw')"
  have "verified io reply pw'" if "r = Some reply" for reply
    using run that
    by (cases pw) (auto simp: await_turn_def bindP_eq_Some_Inr ioP_apply getS_apply liftP_def returnP_def verified_def
        prod_eq_iff dest!: try_reply_Some split: if_splits)
  then show "True \<and> (\<forall>reply. r = Some reply \<longrightarrow> verified io reply pw')" by simp
qed simp

lemma hoare_any: "hoare (\<lambda>_. True) m (\<lambda>_ _. True) (\<lambda>_ _. True)"
  by (simp add: hoareI)

lemma attempts_verified:
  "hoare (\<lambda>_. True) (attempts io timeout as) (verified io) (\<lambda>_ _. True)"
proof (induction as)
  case (Cons a as)
  have await: "hoare (\<lambda>_. True) (await_reply io waitto now) (\<lambda>r pw. \<forall>reply. r = Some reply \<longrightarrow> verified io reply pw) (\<lambda>_ _. True)" for waitto now
    using hoare_await [of "\<lambda>_. True" io "verified io" "\<lambda>_ _. True" waitto now, OF turn_verified hoare_any] by simp
  have "hoare (\<lambda>_. True) (attempt_once io timeout a) (\<lambda>r pw. \<forall>reply. r = Some reply \<longrightarrow> verified io reply pw) (\<lambda>_ _. True)"
    unfolding attempt_once_def thenP_def by (intro hoare_bindP [OF hoare_any] await)
  then show ?case
    unfolding attempts.simps
  proof (rule hoare_bindP)
    fix r
    show "hoare (\<lambda>pw. \<forall>reply. r = Some reply \<longrightarrow> verified io reply pw)
        (case r of None \<Rightarrow> attempts io timeout as | Some reply \<Rightarrow> returnP reply) (verified io) (\<lambda>_ _. True)"
      using Cons.IH by (cases r) (auto intro: hoare_returnP)
  qed
qed (simp add: hoare_raiseP)

section \<open>A concrete socket\<close>

text \<open>The world is the time, the datagrams still to arrive, and the number sent; a valid reply begins with 2.\<close>

definition lab_io :: "(bytes, bytes, real \<times> bytes list \<times> nat) radius_io" where
  "lab_io =
     \<lparr>open_socket = (\<lambda>w. (Inr (), w)), wall_clock = (\<lambda>(t, i, c). (t, (t, i, c))),
      send_datagram = (\<lambda>b (t, i, c). (Inr (), (t, i, c + 1))), poll_ready = (\<lambda>ms (t, i, c). (i \<noteq> [], (t + 1, i, c))),
      recv_datagram = (\<lambda>n (t, i, c). (case i of [] \<Rightarrow> Inl OSError | x # xs \<Rightarrow> Inr (take n x), (t, tl i, c))),
      packet_code = (\<lambda>_. 1), acct_delay = (\<lambda>_. None), set_acct_delay = (\<lambda>_ p. Inr p), request_octets = (\<lambda>p. (Inr p, p)),
      create_reply = (\<lambda>p b. if b = [] then Inl (PacketError HeaderCorrupt) else Inr b),
      verify_reply = (\<lambda>p r b. Inr (hd b = 2)), packet_authenticator = (\<lambda>_. None), with_request_authenticator = (\<lambda>a r. r)\<rparr>"

lemma lab_io_sel [simp]:
  "open_socket lab_io w = (Inr (), w)" "wall_clock lab_io (t, i, c) = (t, (t, i, c))"
  "send_datagram lab_io b (t, i, c) = (Inr (), (t, i, c + 1))" "poll_ready lab_io ms (t, i, c) = (i \<noteq> [], (t + 1, i, c))"
  "recv_datagram lab_io n (t, i, c) = (case i of [] \<Rightarrow> Inl OSError | x # xs \<Rightarrow> Inr (take n x), (t, tl i, c))"
  "packet_code lab_io p = 1" "request_octets lab_io p = (Inr p, p)" "set_acct_delay lab_io x p = Inr p"
  "create_reply lab_io p b = (if b = [] then Inl (PacketError HeaderCorrupt) else Inr b)"
  "verify_reply lab_io p r b = Inr (hd b = 2)" "packet_authenticator lab_io p = None"
  by (simp_all add: lab_io_def)

text \<open>Garbage, a forged reply and the genuine one arrive; then nothing at all.\<close>

lemma lab_await: "await_reply lab_io 10 0 (p, (0, [[], [9], [2, 5]], c)) = Some (Inr (Some [2, 5]), (p, (3, [], c)))"
  by (subst await_reply.simps, simp add: await_turn_def bindP_def ioP_apply getS_apply liftP_def try_reply_def
      except_packet_error_def read_clock_def,
      subst await_reply.simps, simp add: await_turn_def bindP_def ioP_apply getS_apply liftP_def try_reply_def
      except_packet_error_def read_clock_def,
      subst await_reply.simps, simp add: await_turn_def bindP_def ioP_apply getS_apply liftP_def try_reply_def
      except_packet_error_def read_clock_def returnP_def)

lemma lab_exchange:
  "send_packet_retrying lab_io 3 10 ([1], (0, [[], [9], [2, 5]], 0)) = Some (Inr [2, 5], ([1], (3, [], 1)))"
proof -
  have "[0..<3] = [0, 1, 2 :: nat]" by (simp add: upt_rec)
  then show ?thesis
    by (simp add: send_packet_retrying_def attempt_once_def charge_delay_def thenP_def bindP_def ioP_apply getS_apply modS_apply
        liftP_def read_clock_def encode_request_def onS_def zoomP_def lab_await AccountingRequest_def returnP_def)
qed

text \<open>
  C28: a reply that is returned is genuine: it was made from a datagram taken from the socket
  with the 65535-octet buffer, which decoded as a reply to the request and passed its
  verification against the request as it was sent last; it carries the request's
  authenticator. Datagrams that do not decode or verify are skipped, whatever their number.
\<close>

theorem returned_reply_verified:
  assumes "send_packet_retrying io retries timeout pw = Some (Inr reply, (p', w'))"
  shows "\<exists>rawreply r w1 w2. recv_datagram io 65535 w1 = (Inr rawreply, w2) \<and> create_reply io p' rawreply = Inr r \<and>
    verify_reply io p' r rawreply = Inr True \<and>
    reply = (case packet_authenticator io p' of None \<Rightarrow> r | Some a \<Rightarrow> with_request_authenticator io a r)"
proof -
  have "hoare (\<lambda>_. True) (send_packet_retrying io retries timeout) (verified io) (\<lambda>_ _. True)"
    unfolding send_packet_retrying_def thenP_def by (intro hoare_bindP [OF hoare_any] attempts_verified)
  from hoare_Inr [OF this _ assms] show ?thesis by (simp add: verified_def)
qed

theorem returned_reply_verified_witness:
  "send_packet_retrying lab_io 3 10 ([1], (0, [[], [9], [2, 5]], 0)) = Some (Inr [2, 5], ([1], (3, [], 1))) \<and>
   (\<exists>rawreply. create_reply lab_io [1] rawreply = Inr [2, 5] \<and> verify_reply lab_io [1] [2, 5] rawreply = Inr True)"
proof -
  from returned_reply_verified [OF lab_exchange] obtain raw r where
    "create_reply lab_io [1] raw = Inr r" "verify_reply lab_io [1] r raw = Inr True" "[2, 5] = r"
    by auto
  with lab_exchange show ?thesis by blast
qed

section \<open>The number of transmissions\<close>

text \<open>A count of the datagrams sent: every transmission adds one, nothing else changes it.\<close>

definition counting :: "('p, 'r, 'w) radius_io \<Rightarrow> ('w \<Rightarrow> nat) \<Rightarrow> bool" where
  "counting io n \<longleftrightarrow>
     (\<forall>w. n (snd (open_socket io w)) = n w) \<and> (\<forall>w. n (snd (wall_clock io w)) = n w) \<and>
     (\<forall>b w. n (snd (send_datagram io b w)) = n w + 1) \<and> (\<forall>ms w. n (snd (poll_ready io ms w)) = n w) \<and>
     (\<forall>k w. n (snd (recv_datagram io k w)) = n w)"

text \<open>The socket and pyrad's packet methods do not raise the \<open>Timeout\<close> of the client.\<close>

definition no_timeout :: "('p, 'r, 'w) radius_io \<Rightarrow> bool" where
  "no_timeout io \<longleftrightarrow>
     (\<forall>w. fst (open_socket io w) \<noteq> Inl Timeout) \<and> (\<forall>b w. fst (send_datagram io b w) \<noteq> Inl Timeout) \<and>
     (\<forall>k w. fst (recv_datagram io k w) \<noteq> Inl Timeout) \<and> (\<forall>p. fst (request_octets io p) \<noteq> Inl Timeout) \<and>
     (\<forall>x p. set_acct_delay io x p \<noteq> Inl Timeout) \<and> (\<forall>p b. create_reply io p b \<noteq> Inl Timeout) \<and>
     (\<forall>p r b. verify_reply io p r b \<noteq> Inl Timeout)"

lemma hoare_return: "hoare (Q x) (returnP x) Q E"
  by (simp add: hoare_returnP)

lemma try_reply_error: "no_timeout io \<Longrightarrow> try_reply io p raw \<noteq> Inl Timeout"
  by (auto simp: try_reply_def no_timeout_def except_packet_error_def split: sum.splits py_error.splits if_splits)

lemma counting_eqs:
  assumes "counting io n"
  shows "open_socket io w = (x1, w') \<Longrightarrow> n w' = n w" "wall_clock io w = (x2, w') \<Longrightarrow> n w' = n w"
    "send_datagram io b w = (x1, w') \<Longrightarrow> n w' = n w + 1" "poll_ready io ms w = (x3, w') \<Longrightarrow> n w' = n w"
    "recv_datagram io k w = (x4, w') \<Longrightarrow> n w' = n w"
  using assms unfolding counting_def by (metis snd_conv)+

lemma no_timeout_eqs:
  assumes "no_timeout io"
  shows "open_socket io w = (Inl e, w') \<Longrightarrow> e \<noteq> Timeout" "send_datagram io b w = (Inl e, w') \<Longrightarrow> e \<noteq> Timeout"
    "recv_datagram io k w = (Inl e, w') \<Longrightarrow> e \<noteq> Timeout" "request_octets io p = (Inl e, p') \<Longrightarrow> e \<noteq> Timeout"
    "set_acct_delay io x p = Inl e \<Longrightarrow> e \<noteq> Timeout"
  using assms unfolding no_timeout_def by (metis fst_conv)+

lemma hoare_getS_liftP:
  "(\<And>p w x. P (p, w) \<Longrightarrow> f p = Inr x \<Longrightarrow> Q x (p, w)) \<Longrightarrow> (\<And>p w e. P (p, w) \<Longrightarrow> f p = Inl e \<Longrightarrow> E e (p, w)) \<Longrightarrow>
   hoare P (bindP (getS f) liftP) Q E"
  by (rule hoareI) (auto simp: prog_simps)

lemma turn_counts:
  assumes "counting io n" and "no_timeout io"
  shows "hoare (\<lambda>pw. n (snd pw) = c) (await_turn io ms)
    (\<lambda>r pw. n (snd pw) = c \<and> (\<forall>reply. r = Some reply \<longrightarrow> True)) (\<lambda>e pw. n (snd pw) = c \<and> e \<noteq> Timeout)"
proof -
  let ?E = "\<lambda>e pw. n (snd pw) = c \<and> e \<noteq> Timeout"
  have polled: "hoare (\<lambda>pw. n (snd pw) = c) (ioP (\<lambda>w. case poll_ready io ms w of (b, w') \<Rightarrow> (Inr b, w'))) (\<lambda>_ pw. n (snd pw) = c) ?E"
    by (rule hoare_ioP) (auto split: prod.splits dest: counting_eqs(4) [OF assms(1)])
  have received: "hoare (\<lambda>pw. n (snd pw) = c) (ioP (recv_datagram io 65535)) (\<lambda>_ pw. n (snd pw) = c) ?E"
    by (rule hoare_ioP) (auto dest: counting_eqs(5) [OF assms(1)] no_timeout_eqs(3) [OF assms(2)])
  have tried: "hoare (\<lambda>pw. n (snd pw) = c) (bindP (getS (\<lambda>p. try_reply io p raw)) liftP) (\<lambda>_ pw. n (snd pw) = c) ?E" for raw
    by (rule hoare_getS_liftP) (use try_reply_error [OF assms(2)] in auto)
  show ?thesis
    unfolding await_turn_def by (simp, intro hoare_bindP [OF polled] hoare_if hoare_bindP [OF received tried] hoare_returnP)
qed

lemma clock_counts:
  assumes "counting io n"
  shows "hoare (\<lambda>pw. n (snd pw) = c) (read_clock io) (\<lambda>_ pw. n (snd pw) = c) E"
  unfolding read_clock_def by (rule hoare_ioP) (auto split: prod.splits dest: counting_eqs(2) [OF assms])

lemma attempt_counts:
  assumes "counting io n" and "no_timeout io"
  shows "hoare (\<lambda>pw. n (snd pw) = c) (attempt_once io timeout a) (\<lambda>_ pw. n (snd pw) = c + 1)
    (\<lambda>e pw. n (snd pw) \<le> c + 1 \<and> e \<noteq> Timeout)"
  unfolding attempt_once_def thenP_def
proof (intro hoare_bindP)
  let ?E = "\<lambda>e pw. n (snd pw) \<le> c + 1 \<and> e \<noteq> Timeout"
  show "hoare (\<lambda>pw. n (snd pw) = c) (charge_delay io timeout a) (\<lambda>_ pw. n (snd pw) = c) ?E"
    by (intro hoareI)
      (auto simp: charge_delay_def prog_simps bindP_eq_Some_Inr bindP_eq_Some_Inl
        dest: no_timeout_eqs(5) [OF assms(2)] split: if_splits option.splits list.splits)
  show "hoare (\<lambda>pw. n (snd pw) = c) (read_clock io) (\<lambda>_ pw. n (snd pw) = c) ?E"
    by (rule clock_counts [OF assms(1)])
  show "hoare (\<lambda>pw. n (snd pw) = c) (encode_request io) (\<lambda>_ pw. n (snd pw) = c) ?E"
    by (intro hoareI) (auto simp: encode_request_def onS_def zoomP_def dest: no_timeout_eqs(4) [OF assms(2)] split: prod.splits)
  show "hoare (\<lambda>pw. n (snd pw) = c) (ioP (send_datagram io b)) (\<lambda>_ pw. n (snd pw) = c + 1) ?E" for b
    by (rule hoare_ioP) (auto dest: counting_eqs(3) [OF assms(1)] no_timeout_eqs(2) [OF assms(2)])
  show "hoare (\<lambda>pw. n (snd pw) = c + 1) (await_reply io waitto now) (\<lambda>_ pw. n (snd pw) = c + 1) ?E" for waitto now
    by (rule hoare_weaken [OF hoare_await [where R = "\<lambda>_ _. True", OF turn_counts [OF assms] clock_counts [OF assms(1)]]]) auto
qed

lemma attempts_counts:
  assumes "counting io n" and "no_timeout io"
  shows "hoare (\<lambda>pw. n (snd pw) = c) (attempts io timeout as) (\<lambda>_ pw. c < n (snd pw) \<and> n (snd pw) \<le> c + length as)
    (\<lambda>e pw. n (snd pw) \<le> c + length as \<and> (e = Timeout \<longrightarrow> n (snd pw) = c + length as))"
proof (induction as arbitrary: c)
  case Nil
  show ?case unfolding attempts.simps by (rule hoare_raiseP) simp
next
  case (Cons a as)
  let ?Q = "\<lambda>_ pw. c < n (snd pw) \<and> n (snd pw) \<le> c + length (a # as)"
  let ?E = "\<lambda>e pw. n (snd pw) \<le> c + length (a # as) \<and> (e = Timeout \<longrightarrow> n (snd pw) = c + length (a # as))"
  have rest: "hoare (\<lambda>pw. n (snd pw) = c + 1) (attempts io timeout as) ?Q ?E"
    by (rule hoare_weaken [OF Cons.IH [of "c + 1"]]) auto
  have onward: "hoare (\<lambda>pw. n (snd pw) = c + 1) (case res of None \<Rightarrow> attempts io timeout as | Some reply \<Rightarrow> returnP reply) ?Q ?E" for res
    using rest by (cases res) (auto intro: hoare_returnP)
  show ?case unfolding attempts.simps
    by (rule hoare_bindP [OF hoare_weaken [OF attempt_counts [OF assms, of c timeout a]] onward]) auto
qed

text \<open>At most \<open>retries\<close> transmissions, at least one before a reply, all of them before \<open>Timeout\<close>.\<close>

lemma transmissions_bounded:
  assumes "counting io n" and "no_timeout io"
    and "send_packet_retrying io retries timeout (p, w) = Some (r, (p', w'))"
  shows "n w' \<le> n w + retries \<and> (r = Inl Timeout \<longrightarrow> n w' = n w + retries) \<and> (\<forall>reply. r = Inr reply \<longrightarrow> n w < n w')"
proof -
  let ?E = "\<lambda>e pw. n (snd pw) \<le> n w + retries \<and> (e = Timeout \<longrightarrow> n (snd pw) = n w + retries)"
  have opened: "hoare (\<lambda>pw. n (snd pw) = n w) (ioP (open_socket io)) (\<lambda>_ pw. n (snd pw) = n w) ?E"
    by (rule hoare_ioP) (auto dest: counting_eqs(1) [OF assms(1)] no_timeout_eqs(1) [OF assms(2)])
  have "hoare (\<lambda>pw. n (snd pw) = n w) (send_packet_retrying io retries timeout)
      (\<lambda>_ pw. n w < n (snd pw) \<and> n (snd pw) \<le> n w + retries) ?E"
    unfolding send_packet_retrying_def thenP_def
    by (rule hoare_bindP [OF opened])
      (use attempts_counts [OF assms(1,2), of "n w" timeout "[0..<retries]"] in simp)
  from hoare_run [OF this _ assms(3)] show ?thesis by (cases r) auto
qed

lemma lab_counting: "counting lab_io (\<lambda>(t, i, c). c)" "no_timeout lab_io"
  by (auto simp: counting_def no_timeout_def split: list.split)

lemma transmissions_bounded_witness:
  "send_packet_retrying lab_io 3 10 ([1], (0, [[], [9], [2, 5]], 0)) = Some (Inr [2, 5], ([1], (3, [], 1))) \<and>
   0 < (1 :: nat) \<and> 1 \<le> (0 :: nat) + 3"
  using transmissions_bounded [OF lab_counting lab_exchange] lab_exchange by simp

section \<open>The loop ends when waiting takes time\<close>

text \<open>
  A clock that never runs back, and of which every poll takes at least \<open>d\<close>: what a real clock
  does, for some positive \<open>d\<close>, even while datagrams pour in.
\<close>

definition ticking :: "('p, 'r, 'w) radius_io \<Rightarrow> ('w \<Rightarrow> real) \<Rightarrow> real \<Rightarrow> bool" where
  "ticking io clk d \<longleftrightarrow> 0 < d \<and>
     (\<forall>w. fst (wall_clock io w) = clk w \<and> clk w \<le> clk (snd (wall_clock io w))) \<and>
     (\<forall>b w. clk w \<le> clk (snd (send_datagram io b w))) \<and> (\<forall>ms w. clk w + d \<le> clk (snd (poll_ready io ms w))) \<and>
     (\<forall>k w. clk w \<le> clk (snd (recv_datagram io k w)))"

lemma turn_takes_time:
  assumes "ticking io clk d" and "await_turn io ms (p, w) = Some (r, (p', w'))"
  shows "clk w + d \<le> clk w'"
proof -
  have poll: "clk w + d \<le> clk (snd (poll_ready io ms w))" using assms(1) by (simp add: ticking_def)
  moreover have "clk (snd (poll_ready io ms w)) \<le> clk (snd (recv_datagram io 65535 (snd (poll_ready io ms w))))"
    using assms(1) by (simp add: ticking_def)
  ultimately show ?thesis
    using assms(2)
    by (cases "poll_ready io ms w"; cases "recv_datagram io 65535 (snd (poll_ready io ms w))")
      (auto simp: await_turn_def bindP_def ioP_apply getS_apply liftP_def returnP_def split: if_splits sum.splits)
qed

lemma turn_total: "await_turn io ms (p, w) \<noteq> None"
  by (simp add: await_turn_def bindP_def ioP_apply getS_apply liftP_def returnP_def split: sum.split prod.split)

lemma await_reply_returns:
  assumes "ticking io clk d"
  shows "waitto - now \<le> real n * d \<Longrightarrow> now \<le> clk w \<Longrightarrow> await_reply io waitto now (p, w) \<noteq> None"
proof (induction n arbitrary: now p w)
  case 0
  then show ?case by (subst await_reply.simps) (simp add: returnP_def)
next
  case (Suc n)
  obtain r p1 w1 where turn: "await_turn io ((waitto - now) * 1000) (p, w) = Some (r, (p1, w1))"
    using turn_total [of io "(waitto - now) * 1000" p w] by auto
  have later: "now + d \<le> clk w1" using turn_takes_time [OF assms turn] Suc.prems(2) by simp
  have clock: "read_clock io (p1, w1) = Some (Inr (clk w1), (p1, snd (wall_clock io w1)))" "clk w1 \<le> clk (snd (wall_clock io w1))"
    using assms by (simp_all add: read_clock_def ioP_apply ticking_def split: prod.split) (metis fst_conv)
  have "waitto - clk w1 \<le> real n * d" using Suc.prems(1) later by (simp add: distrib_right)
  then have "await_reply io waitto (clk w1) (p1, snd (wall_clock io w1)) \<noteq> None"
    using Suc.IH clock(2) by blast
  then show ?case
    using turn clock(1)
    by (subst await_reply.simps) (auto simp: bindP_def returnP_def split: sum.split option.split)
qed

lemma attempt_total:
  assumes "ticking io clk d"
  shows "attempt_once io timeout a pw \<noteq> None"
proof -
  have charge: "charge_delay io timeout a pw \<noteq> None"
    by (cases pw) (simp add: charge_delay_def prog_simps bindP_def liftP_def modS_apply split: sum.split)
  have sent: "thenP (ioP (send_datagram io b)) (await_reply io (clk w + timeout) (clk w)) (p, w') \<noteq> None" if "clk w \<le> clk w'"
    for b p w w'
  proof -
    have "clk w' \<le> clk (snd (send_datagram io b w'))" using assms by (simp add: ticking_def)
    moreover obtain n where "timeout / d \<le> real n" using real_arch_simple by blast
    then have "clk w + timeout - clk w \<le> real n * d" using assms by (simp add: ticking_def pos_divide_le_eq)
    ultimately have "await_reply io (clk w + timeout) (clk w) (p, snd (send_datagram io b w')) \<noteq> None"
      using await_reply_returns [OF assms] that by (meson order.trans)
    then show ?thesis by (auto simp: thenP_def bindP_def ioP_apply split: sum.split)
  qed
  have rest: "bindP (read_clock io) (\<lambda>now. bindP (encode_request io) (\<lambda>octets.
      thenP (ioP (send_datagram io octets)) (await_reply io (now + timeout) now))) (p, w) \<noteq> None" for p w
  proof -
    have read: "read_clock io (p, w) = Some (Inr (clk w), (p, snd (wall_clock io w)))" "clk w \<le> clk (snd (wall_clock io w))"
      using assms by (simp_all add: read_clock_def ioP_apply ticking_def split: prod.split) (metis fst_conv)
    obtain x p1 where "request_octets io p = (x, p1)" by fastforce
    then have "encode_request io (p, snd (wall_clock io w)) = Some (x, (p1, snd (wall_clock io w)))"
      by (simp add: encode_request_def onS_def zoomP_def)
    then show ?thesis using read sent by (cases x) (simp_all add: bindP_def del: not_None_eq)
  qed
  have "bindP (read_clock io) (\<lambda>now. bindP (encode_request io) (\<lambda>octets.
      thenP (ioP (send_datagram io octets)) (await_reply io (now + timeout) now))) pw' \<noteq> None" for pw'
    using rest by (cases pw') simp
  then show ?thesis unfolding attempt_once_def using charge by (intro thenP_total)
qed

lemma client_returns:
  assumes "ticking io clk d"
  shows "\<exists>r p' w'. send_packet_retrying io retries timeout (p, w) = Some (r, (p', w'))"
proof -
  have "attempts io timeout as pw \<noteq> None" for as pw
  proof (induction as arbitrary: pw)
    case (Cons a as)
    show ?case unfolding attempts.simps
      by (intro bindP_total [OF attempt_total [OF assms]] option_total Cons.IH) simp
  qed (simp add: raiseP_def)
  then have "send_packet_retrying io retries timeout (p, w) \<noteq> None"
    by (simp add: send_packet_retrying_def thenP_def bindP_def ioP_apply split: sum.split del: not_None_eq)
  then show ?thesis by auto
qed

lemma client_returns_witness:
  "\<exists>r p' w'. send_packet_retrying lab_io 2 10 ([1], (0, [[9]], 0)) = Some (r, (p', w'))"
proof (rule client_returns)
  show "ticking lab_io (\<lambda>(t, i, c). t) 1" by (auto simp: ticking_def)
qed

end
