(* ===== verification/Mediator.thy ===== *)
theory Mediator
  imports Upstream_Radius
begin

text \<open>
  \<open>proxy/mediator.py\<close>: the bidirectional mediation. One definition per method of \<open>Mediator\<close>,
  each a program over the session and the outside world. The parameters are the upstream
  client's \<open>send_eap\<close> (\<open>send\<close>) and \<open>time.monotonic\<close> (\<open>clk\<close>); \<open>u\<close>, \<open>ca\<close> and \<open>ce\<close> are the
  user name, calling and called station the source threads through.

  The drain loop waits for the server and may never end, so it is a partial function into
  \<open>option\<close>; every method that can reach it inherits \<open>None\<close> for "does not return".
  The properties are in \<open>Mediator_Properties\<close>, \<open>Mediator_Upstream\<close>, \<open>Mediator_Discipline\<close> and
  \<open>Mediator_Liveness\<close>.
\<close>

section \<open>Outcomes\<close>

datatype action = Ack | Challenge | Accept | Reject

record outcome =
  action :: action
  eap_bytes :: "bytes option"
  echo_id :: "nat option"

definition mk_outcome :: "action \<Rightarrow> bytes option \<Rightarrow> nat option \<Rightarrow> outcome" where
  "mk_outcome a e i = \<lparr>action = a, eap_bytes = e, echo_id = i\<rparr>"

lemma mk_outcome_sel [simp]:
  "action (mk_outcome a e i) = a" "eap_bytes (mk_outcome a e i) = e" "echo_id (mk_outcome a e i) = i"
  by (simp_all add: mk_outcome_def)

type_synonym ('w, 'a) handler = "(session \<times> 'w, 'a) prog"

definition first_message :: "bytes list \<Rightarrow> bytes option" where
  "first_message msgs = (case msgs of [] \<Rightarrow> None | m # _ \<Rightarrow> Some m)"

definition on_up :: "(reassembler, 'a) prog \<Rightarrow> ('w, 'a) handler" where
  "on_up m = onS (zoomP up_reasm (\<lambda>r s. s\<lparr>up_reasm := r\<rparr>) m)"

definition on_down :: "(reassembler, 'a) prog \<Rightarrow> ('w, 'a) handler" where
  "on_down m = onS (zoomP down_reasm (\<lambda>r s. s\<lparr>down_reasm := r\<rparr>) m)"

definition finish_now :: "('w \<Rightarrow> real \<times> 'w) \<Rightarrow> string \<Rightarrow> ('w, unit) handler" where
  "finish_now clk res = bindP (ioP (\<lambda>w. case clk w of (t, w') \<Rightarrow> (Inr t, w'))) (\<lambda>t. modS (finish res t))"

section \<open>Terminal packets\<close>

definition restamp_terminal :: "session \<Rightarrow> bytes option \<Rightarrow> py_error + bytes option" where
  "restamp_terminal s eap =
     (case eap of
        None \<Rightarrow> Inr None
      | Some e \<Rightarrow>
          if e = [] \<or> length e < 2 then Inr (Some e)
          else case down_last_req_id s of
                 None \<Rightarrow> Inr (Some e)
               | Some i \<Rightarrow>
                   (case py_bytes [i] of
                      Inl err \<Rightarrow> Inl err
                    | Inr ib \<Rightarrow> Inr (Some (take 1 e @ ib @ drop 2 e))))"

definition terminal_outcome :: "action \<Rightarrow> (session \<Rightarrow> bytes option) \<Rightarrow> ('w, outcome) handler" where
  "terminal_outcome a pend =
     bindP (getS (\<lambda>s. restamp_terminal s (pend s))) (\<lambda>r.
     bindP (liftP r) (\<lambda>eap.
     bindP (getS down_last_req_id) (\<lambda>i. returnP (mk_outcome a eap i))))"

section \<open>Server to supplicant\<close>

definition send_next_downstream_fragment :: "('w, outcome) handler" where
  "send_next_downstream_fragment =
     bindP (getS down_outbox) (\<lambda>box.
       case box of
         [] \<Rightarrow> returnP (mk_outcome Ack None None)
       | head # rest \<Rightarrow>
           thenP (modS (\<lambda>s. s\<lparr>down_outbox := rest\<rparr>))
            (bindP (getS down_nchunks) (\<lambda>nchunks.
              case nchunks of
                None \<Rightarrow> raiseP AttributeError
              | Some n \<Rightarrow>
                  let idx = fst head; chunk = snd head; mf = (idx + 1 < n) in
                  bindP (if idx = 0
                         then bindP (getS down_total) (\<lambda>t.
                                case t of None \<Rightarrow> raiseP AttributeError | Some v \<Rightarrow> returnP (Some v))
                         else returnP None) (\<lambda>tml.
                  bindP (onS next_down_id) (\<lambda>down_id.
                  bindP (liftP (build (eap_code_value REQUEST) down_id chunk mf tml False)) (\<lambda>eap_frag.
                  thenP (modS (\<lambda>s. s\<lparr>down := (down s)\<lparr>fragments_out := fragments_out (down s) + 1\<rparr>\<rparr>))
                  (thenP (if mf
                          then modS (\<lambda>s. s\<lparr>down := (down s)\<lparr>acks_generated := acks_generated (down s) + 1\<rparr>\<rparr>)
                          else returnP ())
                  (returnP (mk_outcome Challenge (Some eap_frag) (Some down_id))))))))))"

definition begin_downstream_fragmentation :: "bytes \<Rightarrow> ('w, outcome) handler" where
  "begin_downstream_fragmentation tls_record =
     bindP (getS (\<lambda>s. fragment tls_record (downstream_fragment_size s))) (\<lambda>r.
     bindP (liftP r) (\<lambda>chunks.
     thenP (modS (\<lambda>s. s\<lparr>down_outbox := List.enumerate 0 chunks\<rparr>))
     (thenP (modS (\<lambda>s. s\<lparr>down_total := Some (length tls_record)\<rparr>))
     (thenP (modS (\<lambda>s. s\<lparr>down_nchunks := Some (length chunks)\<rparr>))
      send_next_downstream_fragment))))"

definition upstream_response_id :: "('w, nat) handler" where
  "upstream_response_id =
     bindP (getS upstream_last_eap_req_id) (\<lambda>i.
       case i of None \<Rightarrow> onS next_up_id | Some n \<Rightarrow> returnP n)"

text \<open>\<open>reply = self.upstream.send_eap(...); session.radius_state = reply["state"]\<close>\<close>

definition exchange ::
  "'w sender \<Rightarrow> bytes \<Rightarrow> string \<Rightarrow> string option \<Rightarrow> string option \<Rightarrow> ('w, upstream_reply) handler" where
  "exchange send eap u ca ce =
     bindP (getS radius_state) (\<lambda>st.
     bindP (send eap u st ca ce) (\<lambda>reply.
     thenP (modS (\<lambda>s. s\<lparr>radius_state := reply_state reply\<rparr>)) (returnP reply)))"

definition stash_terminal :: "('w \<Rightarrow> real \<times> 'w) \<Rightarrow> upstream_reply \<Rightarrow> ('w, unit) handler" where
  "stash_terminal clk reply =
     (if accept reply
      then thenP (finish_now clk ''accept'')
             (modS (\<lambda>s. s\<lparr>pending_success := first_message (eap_messages reply)\<rparr>))
      else thenP (finish_now clk ''reject'')
             (modS (\<lambda>s. s\<lparr>pending_failure := first_message (eap_messages reply)\<rparr>)))"

definition drain_ack ::
  "'w sender \<Rightarrow> string \<Rightarrow> string option \<Rightarrow> string option \<Rightarrow> ('w, upstream_reply) handler" where
  "drain_ack send u ca ce =
     bindP upstream_response_id (\<lambda>ack_id.
     bindP (liftP (build_ack (eap_code_value RESPONSE) ack_id)) (\<lambda>ack.
     thenP (modS (\<lambda>s. s\<lparr>down := (down s)\<lparr>acks_generated := acks_generated (down s) + 1\<rparr>\<rparr>))
      (exchange send ack u ca ce)))"

partial_function (option) drain_upstream_fragments ::
  "'w sender \<Rightarrow> ('w \<Rightarrow> real \<times> 'w) \<Rightarrow> string \<Rightarrow> string option \<Rightarrow> string option \<Rightarrow> eap_tls_packet \<Rightarrow>
   session \<times> 'w \<Rightarrow> ((py_error + bytes option) \<times> session \<times> 'w) option" where
  "drain_upstream_fragments send clk u ca ce last_pkt sw =
     (if more_fragments last_pkt then
        bindP (drain_ack send u ca ce) (\<lambda>reply.
          if accept reply \<or> reject reply then thenP (stash_terminal clk reply) (returnP None)
          else
            case eap_messages reply of
              [] \<Rightarrow> bindP (getS (\<lambda>s. buffer (down_reasm s))) (\<lambda>b. returnP (Some b))
            | m # ms \<Rightarrow>
                bindP (liftP (parse m)) (\<lambda>pkt.
                bindP (on_down (ingest pkt)) (\<lambda>complete.
                  case complete of
                    Some d \<Rightarrow> returnP (Some d)
                  | None \<Rightarrow> drain_upstream_fragments send clk u ca ce pkt)))
      else bindP (getS (\<lambda>s. buffer (down_reasm s))) (\<lambda>b. returnP (Some b))) sw"

definition deliver_record :: "bytes \<Rightarrow> ('w, outcome) handler" where
  "deliver_record tls_record =
     thenP (modS (\<lambda>s. s\<lparr>down := (down s)\<lparr>bytes_reassembled :=
                                         bytes_reassembled (down s) + length tls_record\<rparr>\<rparr>))
      (begin_downstream_fragmentation tls_record)"

definition handle_upstream_reply ::
  "'w sender \<Rightarrow> ('w \<Rightarrow> real \<times> 'w) \<Rightarrow> upstream_reply option \<Rightarrow> string \<Rightarrow> string option \<Rightarrow> string option \<Rightarrow>
   ('w, outcome) handler" where
  "handle_upstream_reply send clk reply_opt u ca ce =
     (case reply_opt of
        None \<Rightarrow> returnP (mk_outcome Reject None None)
      | Some reply \<Rightarrow>
          if accept reply then
            thenP (stash_terminal clk reply) (terminal_outcome Accept (\<lambda>_. first_message (eap_messages reply)))
          else if reject reply then
            thenP (stash_terminal clk reply) (terminal_outcome Reject (\<lambda>_. first_message (eap_messages reply)))
          else
            case eap_messages reply of
              [] \<Rightarrow> returnP (mk_outcome Ack None None)
            | m # ms \<Rightarrow>
                bindP (liftP (parse m)) (\<lambda>server_pkt.
                bindP (on_down (ingest server_pkt)) (\<lambda>complete.
                  case complete of
                    Some d \<Rightarrow> deliver_record d
                  | None \<Rightarrow>
                      bindP (drain_upstream_fragments send clk u ca ce server_pkt) (\<lambda>drained.
                        case drained of
                          Some d \<Rightarrow> deliver_record d
                        | None \<Rightarrow>
                            bindP (getS result) (\<lambda>res.
                              if res = Some ''accept'' then terminal_outcome Accept pending_success
                              else terminal_outcome Reject pending_failure)))))"

section \<open>Supplicant to server\<close>

primrec forward_chunks ::
  "'w sender \<Rightarrow> string \<Rightarrow> string option \<Rightarrow> string option \<Rightarrow> nat \<Rightarrow> nat \<Rightarrow> upstream_reply option \<Rightarrow>
   (nat \<times> bytes) list \<Rightarrow> ('w, upstream_reply option) handler" where
  "forward_chunks send u ca ce n tlen reply [] = returnP reply"
| "forward_chunks send u ca ce n tlen reply (c # cs) =
     bindP upstream_response_id (\<lambda>up_id.
     bindP (liftP (build (eap_code_value RESPONSE) up_id (snd c) (fst c + 1 < n)
                    (if fst c = 0 then Some tlen else None) False)) (\<lambda>eap_frag.
     thenP (modS (\<lambda>s. s\<lparr>up := (up s)\<lparr>fragments_out := fragments_out (up s) + 1\<rparr>\<rparr>))
     (bindP (exchange send eap_frag u ca ce) (\<lambda>r.
      forward_chunks send u ca ce n tlen (Some r) cs))))"

definition forward_record_upstream ::
  "'w sender \<Rightarrow> ('w \<Rightarrow> real \<times> 'w) \<Rightarrow> bytes \<Rightarrow> string \<Rightarrow> string option \<Rightarrow> string option \<Rightarrow>
   ('w, outcome) handler" where
  "forward_record_upstream send clk tls_record u ca ce =
     bindP (getS (\<lambda>s. fragment tls_record (upstream_fragment_size s))) (\<lambda>r.
     bindP (liftP r) (\<lambda>chunks.
     bindP (forward_chunks send u ca ce (length chunks) (length tls_record) None (List.enumerate 0 chunks))
      (\<lambda>reply. handle_upstream_reply send clk reply u ca ce)))"

definition passthrough_upstream ::
  "'w sender \<Rightarrow> ('w \<Rightarrow> real \<times> 'w) \<Rightarrow> bytes \<Rightarrow> string \<Rightarrow> string option \<Rightarrow> string option \<Rightarrow>
   ('w, outcome) handler" where
  "passthrough_upstream send clk eap u ca ce =
     thenP (modS (\<lambda>s. s\<lparr>up := (up s)\<lparr>fragments_out := fragments_out (up s) + 1\<rparr>\<rparr>))
     (bindP (exchange send eap u ca ce) (\<lambda>reply.
       if accept reply then
         thenP (finish_now clk ''accept'')
           (returnP (mk_outcome Accept (first_message (eap_messages reply)) None))
       else if reject reply then
         thenP (finish_now clk ''reject'') (returnP (mk_outcome Reject None None))
       else
         case first_message (eap_messages reply) of
           Some e \<Rightarrow>
             if e \<noteq> [] then
               thenP (modS (\<lambda>s. s\<lparr>down := (down s)\<lparr>fragments_out := fragments_out (down s) + 1\<rparr>\<rparr>))
                 (returnP (mk_outcome Challenge (Some e) None))
             else returnP (mk_outcome Ack None None)
         | None \<Rightarrow> returnP (mk_outcome Ack None None)))"

definition supplicant_ack ::
  "'w sender \<Rightarrow> ('w \<Rightarrow> real \<times> 'w) \<Rightarrow> string \<Rightarrow> string option \<Rightarrow> string option \<Rightarrow> ('w, outcome) handler" where
  "supplicant_ack send clk u ca ce =
     bindP (getS down_outbox) (\<lambda>box.
     if box \<noteq> [] then send_next_downstream_fragment
     else bindP (getS result) (\<lambda>res.
       if res = Some ''accept'' then terminal_outcome Accept pending_success
       else if res = Some ''reject'' then terminal_outcome Reject pending_failure
       else
         bindP upstream_response_id (\<lambda>up_id.
         bindP (liftP (build_ack (eap_code_value RESPONSE) up_id)) (\<lambda>ack.
         bindP (exchange send ack u ca ce) (\<lambda>reply.
         handle_upstream_reply send clk (Some reply) u ca ce)))))"

definition supplicant_data ::
  "'w sender \<Rightarrow> ('w \<Rightarrow> real \<times> 'w) \<Rightarrow> eap_tls_packet \<Rightarrow> string \<Rightarrow> string option \<Rightarrow> string option \<Rightarrow>
   ('w, outcome) handler" where
  "supplicant_data send clk pkt u ca ce =
     bindP (on_up (ingest pkt)) (\<lambda>complete.
       case complete of
         None \<Rightarrow>
           thenP (modS (\<lambda>s. s\<lparr>up := (up s)\<lparr>acks_generated := acks_generated (up s) + 1\<rparr>\<rparr>))
           (bindP (onS next_down_id) (\<lambda>ack_id.
            bindP (liftP (build_ack (eap_code_value REQUEST) ack_id)) (\<lambda>ack.
            returnP (mk_outcome Ack (Some ack) (Some ack_id)))))
       | Some d \<Rightarrow>
           thenP (modS (\<lambda>s. s\<lparr>up := (up s)\<lparr>bytes_reassembled := bytes_reassembled (up s) + length d\<rparr>\<rparr>))
            (forward_record_upstream send clk d u ca ce))"

definition handle_supplicant_eap ::
  "'w sender \<Rightarrow> ('w \<Rightarrow> real \<times> 'w) \<Rightarrow> bytes \<Rightarrow> string \<Rightarrow> string option \<Rightarrow> string option \<Rightarrow>
   ('w, outcome) handler" where
  "handle_supplicant_eap send clk eap u ca ce =
     bindP (liftP (parse eap)) (\<lambda>pkt.
     thenP (modS (\<lambda>s. s\<lparr>up := (up s)\<lparr>fragments_in := fragments_in (up s) + 1\<rparr>\<rparr>))
     (thenP (modS (\<lambda>s. s\<lparr>down_next_id := eap_identifier pkt\<rparr>))
     (bindP (getS mode) (\<lambda>m.
       if m = ''passthrough'' then passthrough_upstream send clk eap u ca ce
       else
         thenP (modS (\<lambda>s. s\<lparr>down_last_req_id := Some (eap_identifier pkt)\<rparr>))
         (if is_ack pkt then supplicant_ack send clk u ca ce
          else supplicant_data send clk pkt u ca ce)))))"

end
