(* ===== verification/Mediator_Properties.thy ===== *)
theory Mediator_Properties
  imports Mediator
begin

text \<open>
  What the mediator guarantees. The lemmas about single methods are stated for any upstream
  leg that meets the contract \<open>upstream_leg\<close> and reach the repository's client through its
  interpretation \<open>leg\<close>.
\<close>

section \<open>Running the parts\<close>

lemma parse_ids: "parse p = Inr pkt \<Longrightarrow> eap_identifier pkt < 256 \<and> eap_code pkt < 256"
  by (auto simp: parse_def Let_def split: if_splits)

lemma on_up_run:
  "m (up_reasm s) = Some (r, t) \<Longrightarrow> on_up m (s, w) = Some (r, (s\<lparr>up_reasm := t\<rparr>, w))"
  by (simp add: on_up_def onS_def zoomP_def)

lemma on_down_run:
  "m (down_reasm s) = Some (r, t) \<Longrightarrow> on_down m (s, w) = Some (r, (s\<lparr>down_reasm := t\<rparr>, w))"
  by (simp add: on_down_def onS_def zoomP_def)

lemma bindP_on_up:
  "m (up_reasm s) = Some (Inr x, t) \<Longrightarrow> bindP (on_up m) k (s, w) = k x (s\<lparr>up_reasm := t\<rparr>, w)"
  by (simp add: bindP_Some_Inr on_up_run)

lemma bindP_on_down:
  "m (down_reasm s) = Some (Inr x, t) \<Longrightarrow> bindP (on_down m) k (s, w) = k x (s\<lparr>down_reasm := t\<rparr>, w)"
  by (simp add: bindP_Some_Inr on_down_run)

lemma next_down_id_run:
  "onS next_down_id (s, w) =
     Some (Inr ((down_next_id s + 1) mod 256), (s\<lparr>down_next_id := (down_next_id s + 1) mod 256\<rparr>, w))"
  by (simp add: onS_Some next_down_id_eq)

definition entered :: "eap_tls_packet \<Rightarrow> session \<Rightarrow> session" where
  "entered pkt s =
     s\<lparr>up := (up s)\<lparr>fragments_in := fragments_in (up s) + 1\<rparr>, down_next_id := eap_identifier pkt,
       down_last_req_id := Some (eap_identifier pkt)\<rparr>"

lemma entered_sel [simp]:
  "up_reasm (entered pkt s) = up_reasm s" "down_reasm (entered pkt s) = down_reasm s"
  "down_next_id (entered pkt s) = eap_identifier pkt" "mode (entered pkt s) = mode s"
  "down_last_req_id (entered pkt s) = Some (eap_identifier pkt)"
  "down_outbox (entered pkt s) = down_outbox s" "down_total (entered pkt s) = down_total s"
  "down_nchunks (entered pkt s) = down_nchunks s" "result (entered pkt s) = result s"
  "radius_state (entered pkt s) = radius_state s"
  "upstream_round_trips (entered pkt s) = upstream_round_trips s"
  "upstream_last_eap_req_id (entered pkt s) = upstream_last_eap_req_id s"
  "pending_success (entered pkt s) = pending_success s"
  "pending_failure (entered pkt s) = pending_failure s"
  "upstream_fragment_size (entered pkt s) = upstream_fragment_size s"
  "downstream_fragment_size (entered pkt s) = downstream_fragment_size s"
  "down (entered pkt s) = down s"
  "acks_generated (up (entered pkt s)) = acks_generated (up s)"
  by (simp_all add: entered_def)

lemma handle_reassemble:
  assumes "parse eap = Inr pkt" and "mode s \<noteq> ''passthrough''"
  shows "handle_supplicant_eap send clk eap u ca ce (s, w) =
    (if is_ack pkt then supplicant_ack send clk u ca ce else supplicant_data send clk pkt u ca ce)
      (entered pkt s, w)"
  using assms by (simp add: handle_supplicant_eap_def prog_simps entered_def)

lemma parse_build_ack:
  "c < 256 \<Longrightarrow> i < 256 \<Longrightarrow> \<exists>ack p. build_ack c i = Inr ack \<and> parse ack = Inr p \<and> is_ack p \<and>
     eap_code p = c \<and> eap_identifier p = i"
  by (simp add: build_ack_Inr parse_wire_layout buildable_def wire_length_def length_field_def is_ack_def)

section \<open>A fragment of the supplicant that is not the last\<close>

lemma fragment_ack_run:
  assumes "parse eap = Inr pkt" and "mode s \<noteq> ''passthrough''" and "more_fragments pkt"
    and "admissible pkt (abs_reasm (up_reasm s)) (max_message_len (up_reasm s))"
  shows "\<exists>ack p s'. handle_supplicant_eap send clk eap u ca ce (s, w) =
      Some (Inr (mk_outcome Ack (Some ack) (Some ((eap_identifier pkt + 1) mod 256))), (s', w)) \<and>
    parse ack = Inr p \<and> is_ack p \<and> eap_code p = eap_code_value REQUEST \<and>
    eap_identifier p = (eap_identifier pkt + 1) mod 256 \<and> eap_identifier p \<noteq> eap_identifier pkt \<and>
    upstream_round_trips s' = upstream_round_trips s \<and>
    acks_generated (up s') = acks_generated (up s) + 1 \<and>
    abs_reasm (up_reasm s') = Some (accumulated (abs_reasm (up_reasm s)) @ tls_data pkt) \<and>
    max_message_len (up_reasm s') = max_message_len (up_reasm s) \<and>
    (\<exists>i r m n. s' = s\<lparr>down_last_req_id := i, up_reasm := r, up := m, down_next_id := n\<rparr>)"
proof -
  have nack: "\<not> is_ack pkt" using assms(3) by (simp add: is_ack_def)
  then have spec: "spec_ingest pkt pend = (None, Some (accumulated pend @ tls_data pkt))" for pend
    using assms(3) by (simp add: spec_ingest_def accumulated_def Let_def)
  obtain r where r: "ingest pkt (up_reasm s) = Some (Inr None, r)"
    "abs_reasm r = Some (accumulated (abs_reasm (up_reasm s)) @ tls_data pkt)"
    "max_message_len r = max_message_len (up_reasm s)"
    using reasm.feed_step [OF assms(4)] spec by auto
  let ?i = "(eap_identifier pkt + 1) mod 256"
  have id: "eap_identifier pkt < 256" using parse_ids [OF assms(1)] by simp
  then have ne: "?i \<noteq> eap_identifier pkt" by (cases "eap_identifier pkt = 255") simp_all
  obtain ack p where ack: "build_ack 1 ?i = Inr ack" "parse ack = Inr p" "is_ack p" "eap_code p = 1"
    "eap_identifier p = ?i"
    using parse_build_ack [of 1 ?i] by auto
  let ?s1 = "(entered pkt s)\<lparr>up_reasm := r\<rparr>"
  let ?s2 = "?s1\<lparr>up := (up ?s1)\<lparr>acks_generated := acks_generated (up ?s1) + 1\<rparr>\<rparr>"
  have run: "on_up (ingest pkt) (entered pkt s, w) = Some (Inr None, (?s1, w))"
    using r(1) by (simp add: on_up_run)
  have "supplicant_data send clk pkt u ca ce (entered pkt s, w) =
      Some (Inr (mk_outcome Ack (Some ack) (Some ?i)), (?s2\<lparr>down_next_id := ?i\<rparr>, w))"
    by (simp add: supplicant_data_def bindP_Some_Inr run prog_simps
        next_down_id_run ack(1) [simplified])
  moreover have "\<exists>i x m n. ?s2\<lparr>down_next_id := ?i\<rparr> = s\<lparr>down_last_req_id := i, up_reasm := x, up := m, down_next_id := n\<rparr>"
    by (simp add: entered_def) blast
  ultimately show ?thesis
    using nack ack(2-) ne r(2,3)
    by (intro exI [of _ ack] exI [of _ p] exI [of _ "?s2\<lparr>down_next_id := ?i\<rparr>"])
      (simp add: handle_reassemble [OF assms(1,2)])
qed

definition lab_session :: session where
  "lab_session = new_session ''st:00'' ''reassemble'' 60000 1000 262144 None 0"

lemma lab_session_sel [simp]:
  "mode lab_session = ''reassemble''" "abs_reasm (up_reasm lab_session) = None"
  "abs_reasm (down_reasm lab_session) = None" "max_message_len (up_reasm lab_session) = 262144"
  "max_message_len (down_reasm lab_session) = 262144" "upstream_fragment_size lab_session = 60000"
  "downstream_fragment_size lab_session = 1000" "upstream_round_trips lab_session = 0"
  "down_outbox lab_session = []" "result lab_session = None"
  by (simp_all add: lab_session_def new_session_def new_reassembler_def abs_reasm_def)

definition lab_clock :: "'w \<Rightarrow> real \<times> 'w" where
  "lab_clock w = (1, w)"

section \<open>Delivering a record of the server to the supplicant\<close>

definition sent_fragment :: "nat \<Rightarrow> (nat \<times> bytes) list \<Rightarrow> nat \<Rightarrow> session \<Rightarrow> session" where
  "sent_fragment i rest n s =
     s\<lparr>down_outbox := rest, down_next_id := i,
       down := (down s)\<lparr>fragments_out := fragments_out (down s) + 1,
                 acks_generated := acks_generated (down s) + (if rest = [] then 0 else 1)\<rparr>\<rparr>"

lemma send_next_run:
  assumes "down_outbox s = (k, c) # rest" and "down_nchunks s = Some n" and "down_total s = Some t"
    and "frame_chunk (eap_code_value REQUEST) ((down_next_id s + 1) mod 256) t n k c = Inr wire"
    and "(k + 1 < n) = (rest \<noteq> [])"
  shows "send_next_downstream_fragment (s, w) =
    Some (Inr (mk_outcome Challenge (Some wire) (Some ((down_next_id s + 1) mod 256))),
      (sent_fragment ((down_next_id s + 1) mod 256) rest n s, w))"
proof -
  have frame: "build (Suc 0) (Suc (down_next_id s) mod 256) c (rest \<noteq> []) (if k = 0 then Some t else None) False
      = Inr wire"
    using assms(4,5) by (simp add: frame_chunk_def)
  have mf: "(Suc k < n) = (rest \<noteq> [])" using assms(5) by simp
  show ?thesis
    using frame assms(1-3) mf
    by (cases "k = 0"; cases "rest = []")
      (simp_all add: send_next_downstream_fragment_def prog_simps next_down_id_run bindP_Some_Inr
        sent_fragment_def Let_def thenP_def [of "returnP _"])
qed

text \<open>An ACK of the supplicant while fragments are queued draws the next one.\<close>

lemma ack_run:
  assumes "mode s \<noteq> ''passthrough''" and "down_outbox s = List.enumerate k (c # cs)"
    and "down_nchunks s = Some (k + length (c # cs))" and "down_total s = Some t" and "i < 256"
    and "length c \<le> 65000" and "t < 256 ^ 4" and "build_ack 2 i = Inr ack"
  shows "\<exists>p wire. frame_chunk 1 ((i + 1) mod 256) t (k + length (c # cs)) k c = Inr wire \<and>
    handle_supplicant_eap send clk ack u ca ce (s, w) =
      Some (Inr (mk_outcome Challenge (Some wire) (Some ((i + 1) mod 256))),
        (sent_fragment ((i + 1) mod 256) (List.enumerate (Suc k) cs) (k + length (c # cs)) (entered p s), w))"
proof -
  obtain p where ack: "parse ack = Inr p" "is_ack p" "eap_identifier p = i"
    using parse_build_ack [of 2 i] assms(5,8) by auto
  let ?j = "(i + 1) mod 256" and ?n = "k + length (c # cs)"
  have "buildable 1 ?j c (if k = 0 then Some t else None)"
    using assms(6,7) by (simp add: buildable_def wire_length_def length_field_def)
  then obtain wire where wire: "frame_chunk 1 ?j t ?n k c = Inr wire"
    by (simp add: frame_chunk_def build_Inr)
  have rest: "(k + 1 < ?n) = (List.enumerate (Suc k) cs \<noteq> [])" by (cases cs) simp_all
  have "send_next_downstream_fragment (entered p s, w) =
      Some (Inr (mk_outcome Challenge (Some wire) (Some ?j)),
        (sent_fragment ?j (List.enumerate (Suc k) cs) ?n (entered p s), w))"
    using send_next_run [OF _ _ _ _ rest, of "entered p s" c t wire w] wire assms(2-4) ack(3) by simp
  then show ?thesis
    using handle_reassemble [OF ack(1) assms(1), of send clk u ca ce w] ack(2) assms(2) wire
    by (intro exI [of _ p] exI [of _ wire]) (simp add: supplicant_ack_def prog_simps)
qed

text \<open>Identifiers that follow each other, modulo 256.\<close>

primrec successive :: "nat \<Rightarrow> nat \<Rightarrow> nat list" where
  "successive i 0 = []"
| "successive i (Suc n) = i # successive ((i + 1) mod 256) n"

lemma length_successive [simp]: "length (successive i n) = n"
  by (induction n arbitrary: i) simp_all

text \<open>
  The supplicant's side of a delivery: it answers every Request with an EAP-TLS ACK under
  the Request's Identifier, \<open>n\<close> times, and collects the Requests it gets.
\<close>

primrec supplicant_acks ::
  "'w sender \<Rightarrow> ('w \<Rightarrow> real \<times> 'w) \<Rightarrow> string \<Rightarrow> string option \<Rightarrow> string option \<Rightarrow> nat \<Rightarrow> nat \<Rightarrow>
   ('w, bytes list) handler" where
  "supplicant_acks send clk u ca ce 0 i = returnP []"
| "supplicant_acks send clk u ca ce (Suc n) i =
     bindP (liftP (build_ack (eap_code_value RESPONSE) i)) (\<lambda>ack.
     bindP (handle_supplicant_eap send clk ack u ca ce) (\<lambda>out.
       case eap_bytes out of
         None \<Rightarrow> returnP []
       | Some b \<Rightarrow>
           bindP (supplicant_acks send clk u ca ce n (the (echo_id out))) (\<lambda>bs. returnP (b # bs))))"

lemma supplicant_acks_run:
  assumes "mode s \<noteq> ''passthrough''" and "down_outbox s = List.enumerate k cs"
    and "down_nchunks s = Some (k + length cs)" and "down_total s = Some t" and "i < 256"
    and "\<forall>c \<in> set cs. length c \<le> 65000" and "t < 256 ^ 4"
  shows "\<exists>bs s'. supplicant_acks send clk u ca ce (length cs) i (s, w) = Some (Inr bs, (s', w)) \<and>
    length bs = length cs \<and>
    (\<forall>j < length cs. frame_chunk 1 (successive ((i + 1) mod 256) (length cs) ! j) t (k + length cs) (k + j) (cs ! j)
       = Inr (bs ! j)) \<and>
    down_outbox s' = [] \<and> upstream_round_trips s' = upstream_round_trips s"
  using assms
proof (induction cs arbitrary: s k i)
  case Nil
  then show ?case by (simp add: returnP_apply)
next
  case (Cons c cs)
  let ?j = "(i + 1) mod 256" and ?n = "k + length (c # cs)"
  obtain ack where ack: "build_ack 2 i = Inr ack" using parse_build_ack [of 2 i] Cons.prems(5) by auto
  have small: "length c \<le> 65000" using Cons.prems(6) by simp
  obtain p wire where wire: "frame_chunk 1 ?j t ?n k c = Inr wire"
    and h: "handle_supplicant_eap send clk ack u ca ce (s, w) = Some (Inr (mk_outcome Challenge (Some wire) (Some ?j)),
      (sent_fragment ?j (List.enumerate (Suc k) cs) ?n (entered p s), w))"
    using ack_run [OF Cons.prems(1-5) small Cons.prems(7) ack, of send clk u ca ce w] by blast
  let ?s2 = "sent_fragment ?j (List.enumerate (Suc k) cs) ?n (entered p s)"
  have "mode ?s2 \<noteq> ''passthrough''" "down_outbox ?s2 = List.enumerate (Suc k) cs"
    "down_nchunks ?s2 = Some (Suc k + length cs)" "down_total ?s2 = Some t"
    "upstream_round_trips ?s2 = upstream_round_trips s"
    using Cons.prems by (simp_all add: sent_fragment_def)
  then obtain bs s' where rest: "supplicant_acks send clk u ca ce (length cs) ?j (?s2, w) = Some (Inr bs, (s', w))"
    "length bs = length cs"
    "\<forall>l < length cs. frame_chunk 1 (successive ((?j + 1) mod 256) (length cs) ! l) t (Suc k + length cs) (Suc k + l) (cs ! l) = Inr (bs ! l)"
    "down_outbox s' = []" "upstream_round_trips s' = upstream_round_trips s"
    using Cons.IH [of ?s2 "Suc k" ?j] Cons.prems(6,7) by auto
  have "supplicant_acks send clk u ca ce (length (c # cs)) i (s, w) = Some (Inr (wire # bs), (s', w))"
    using ack h rest(1) by (simp add: prog_simps bindP_Some_Inr)
  moreover have "\<forall>l < length (c # cs). frame_chunk 1 (successive ?j (length (c # cs)) ! l) t ?n (k + l) ((c # cs) ! l)
      = Inr ((wire # bs) ! l)"
    using rest(3) wire by (simp add: All_less_Suc2)
  ultimately show ?case using rest(2,4,5) by (metis length_Cons)
qed

text \<open>A record of the server queued for the supplicant, its first fragment sent.\<close>

definition delivering :: "bytes \<Rightarrow> bytes list \<Rightarrow> nat \<Rightarrow> session \<Rightarrow> session" where
  "delivering tls_record cs i s =
     sent_fragment i (List.enumerate 1 cs) (Suc (length cs))
       (s\<lparr>down := (down s)\<lparr>bytes_reassembled := bytes_reassembled (down s) + length tls_record\<rparr>,
          down_outbox := List.enumerate 1 cs, down_total := Some (length tls_record), down_nchunks := Some (Suc (length cs))\<rparr>)"

lemma delivering_sel [simp]:
  "mode (delivering r cs i s) = mode s" "key (delivering r cs i s) = key s"
  "downstream_state (delivering r cs i s) = downstream_state s" "result (delivering r cs i s) = result s"
  "down_outbox (delivering r cs i s) = List.enumerate 1 cs" "down_total (delivering r cs i s) = Some (length r)"
  "down_nchunks (delivering r cs i s) = Some (Suc (length cs))" "up_reasm (delivering r cs i s) = up_reasm s"
  "down_reasm (delivering r cs i s) = down_reasm s"
  "upstream_last_eap_req_id (delivering r cs i s) = upstream_last_eap_req_id s"
  "upstream_round_trips (delivering r cs i s) = upstream_round_trips s"
  "upstream_fragment_size (delivering r cs i s) = upstream_fragment_size s"
  "downstream_fragment_size (delivering r cs i s) = downstream_fragment_size s"
  by (simp_all add: delivering_def sent_fragment_def)

lemma deliver_run:
  assumes "fragment tls_record (downstream_fragment_size s) = Inr (c # cs)"
    and "downstream_fragment_size s \<le> 65000" and "length tls_record < 256 ^ 4"
  shows "\<exists>b. frame_chunk 1 ((down_next_id s + 1) mod 256) (length tls_record) (Suc (length cs)) 0 c = Inr b \<and>
    deliver_record tls_record (s, w) =
      Some (Inr (mk_outcome Challenge (Some b) (Some ((down_next_id s + 1) mod 256))),
        (delivering tls_record cs ((down_next_id s + 1) mod 256) s, w)) \<and>
    (\<forall>c \<in> set (c # cs). length c \<le> 65000)"
proof -
  have small: "\<forall>c \<in> set (c # cs). length c \<le> 65000"
    using fragment_chunk_le [OF assms(1)] assms(2) by fastforce
  let ?i = "(down_next_id s + 1) mod 256" and ?n = "Suc (length cs)" and ?t = "length tls_record"
  have "buildable 1 ?i c (Some ?t)"
    using small assms(3) by (simp add: buildable_def wire_length_def length_field_def)
  then obtain b where b: "frame_chunk 1 ?i ?t ?n 0 c = Inr b" by (simp add: frame_chunk_def build_Inr)
  define s1 where "s1 = s\<lparr>down := (down s)\<lparr>bytes_reassembled := bytes_reassembled (down s) + ?t\<rparr>,
    down_outbox := List.enumerate 0 (c # cs), down_total := Some ?t, down_nchunks := Some ?n\<rparr>"
  have rest: "(0 + 1 < ?n) = (List.enumerate 1 cs \<noteq> [])" by (cases cs) simp_all
  have "send_next_downstream_fragment (s1, w) =
      Some (Inr (mk_outcome Challenge (Some b) (Some ?i)), (sent_fragment ?i (List.enumerate 1 cs) ?n s1, w))"
    using send_next_run [OF _ _ _ _ rest, of s1 c ?t b w] b by (simp add: s1_def)
  moreover have "sent_fragment ?i (List.enumerate 1 cs) ?n s1 = delivering tls_record cs ?i s"
    by (simp add: s1_def delivering_def sent_fragment_def)
  ultimately have "deliver_record tls_record (s, w) =
      Some (Inr (mk_outcome Challenge (Some b) (Some ?i)), (delivering tls_record cs ?i s, w))"
    using assms(1) by (simp add: deliver_record_def begin_downstream_fragmentation_def prog_simps s1_def)
  then show ?thesis using b small by blast
qed

text \<open>
  C7: a record of the server reaches the supplicant whole. \<open>deliver_record\<close> answers with the
  first Request; the supplicant's ACKs then draw the remaining Requests one by one, without
  any upstream traffic, and exactly as many as there are chunks. A reassembler on the
  supplicant's side that receives these Requests in order holds the record unchanged when
  the last one arrives, and nothing before.
\<close>

theorem server_record_delivered:
  assumes "mode s \<noteq> ''passthrough''" and "0 < downstream_fragment_size s"
    and "downstream_fragment_size s \<le> 65000" and "length tls_record < 256 ^ 4"
    and "int (length tls_record) \<le> max_message_len r" and "ready r"
  shows "\<exists>b i s0 bs s' r'.
    deliver_record tls_record (s, w) = Some (Inr (mk_outcome Challenge (Some b) (Some i)), (s0, w)) \<and>
    supplicant_acks send clk u ca ce (length bs) i (s0, w) = Some (Inr bs, (s', w)) \<and>
    down_outbox s' = [] \<and> upstream_round_trips s' = upstream_round_trips s \<and>
    mapP receive (b # bs) r = Some (Inr (replicate (length bs) None @ [Some tls_record]), r')"
proof -
  obtain chunks where "fragment tls_record (downstream_fragment_size s) = Inr chunks"
    using fragment_ok [OF assms(2)] by blast
  then obtain c cs where chunks: "fragment tls_record (downstream_fragment_size s) = Inr (c # cs)"
    using fragment_nonempty by (cases chunks) auto
  let ?i = "(down_next_id s + 1) mod 256" and ?t = "length tls_record"
  let ?s0 = "delivering tls_record cs ?i s"
  obtain b where b: "frame_chunk 1 ?i ?t (Suc (length cs)) 0 c = Inr b"
    and first: "deliver_record tls_record (s, w) = Some (Inr (mk_outcome Challenge (Some b) (Some ?i)), (?s0, w))"
    and small: "\<forall>c \<in> set (c # cs). length c \<le> 65000"
    using deliver_run [OF chunks assms(3,4), of w] by blast
  obtain bs s' where acks: "supplicant_acks send clk u ca ce (length cs) ?i (?s0, w) = Some (Inr bs, (s', w))"
    "length bs = length cs" "down_outbox s' = []" "upstream_round_trips s' = upstream_round_trips s"
    and frames: "\<forall>j < length cs. frame_chunk 1 (successive ((?i + 1) mod 256) (length cs) ! j) ?t (1 + length cs) (1 + j) (cs ! j) = Inr (bs ! j)"
    using supplicant_acks_run [of ?s0 1 cs ?t ?i send clk u ca ce w] small assms(1,4) by auto
  have "\<forall>k < length (c # cs). frame_chunk 1 (successive ?i (length (c # cs)) ! k) ?t (length (c # cs)) k ((c # cs) ! k) = Inr ((b # bs) ! k)"
    using b frames by (simp add: All_less_Suc2)
  then obtain r' where "mapP receive (b # bs) r = Some (Inr (replicate (length cs) None @ [Some tls_record]), r')"
    using reassemble_framed [OF chunks, of "successive ?i (length (c # cs))" "b # bs" 1 r] acks(2) assms(5,6) by auto
  then show ?thesis using first acks by metis
qed


theorem server_record_delivered_witness:
  "\<exists>b i s0 bs s' r'.
    deliver_record (replicate 2500 5) (lab_session, [] :: pyrad_reply list) =
      Some (Inr (mk_outcome Challenge (Some b) (Some i)), (s0, [] :: pyrad_reply list)) \<and>
    supplicant_acks (send_eap scripted_net lab_client) lab_clock ''u'' None None (length bs) i (s0, [] :: pyrad_reply list)
      = Some (Inr bs, (s', [])) \<and>
    down_outbox s' = [] \<and> upstream_round_trips s' = upstream_round_trips lab_session \<and>
    mapP receive (b # bs) (new_reassembler 262144)
      = Some (Inr (replicate (length bs) None @ [Some (replicate 2500 5)]), r')"
  by (rule server_record_delivered) (simp_all add: lab_session_def new_session_def new_reassembler_def ready_def)

end
