(* ===== verification/Mediator_Upstream.thy ===== *)
theory Mediator_Upstream
  imports Mediator_Properties
begin

text \<open>
  The mediator's traffic with the server: a record forwarded upstream in fragments, a flight
  of the server drained fragment by fragment, the terminal packets, and passthrough. The
  server is a script of replies whose world also records every request it receives, so that
  what the server saw can be stated.
\<close>

section \<open>One exchange with a recording server\<close>

type_synonym 'v recording = "'v \<times> request_call list list \<times> pyrad_reply list"

definition recording_net :: "'v recording upstream_net" where
  "recording_net =
     \<lparr>request_error = (\<lambda>_. None),
      send_packet = (\<lambda>req w. case w of
          (v, seen, []) \<Rightarrow> (Inl Timeout, (v, seen @ [req], []))
        | (v, seen, r # rs) \<Rightarrow> (Inr r, (v, seen @ [req], rs)))\<rparr>"

definition exchanged :: "pyrad_reply \<Rightarrow> session \<Rightarrow> session" where
  "exchanged r s = (after_exchange r s)\<lparr>radius_state := reply_state (normalised r)\<rparr>"

definition next_id :: "pyrad_reply \<Rightarrow> nat \<Rightarrow> nat" where
  "next_id r i = the (next_request_id (eap_messages (normalised r)) (Some i))"

lemma next_id_bound: "i < 256 \<Longrightarrow> next_id r i < 256"
  by (auto simp: next_id_def next_request_id_def split: list.split)

lemma exchanged_sel [simp]:
  "mode (exchanged r s) = mode s" "up_reasm (exchanged r s) = up_reasm s"
  "down_reasm (exchanged r s) = down_reasm s" "up (exchanged r s) = up s"
  "down (exchanged r s) = down s" "down_outbox (exchanged r s) = down_outbox s"
  "down_next_id (exchanged r s) = down_next_id s" "result (exchanged r s) = result s"
  "down_last_req_id (exchanged r s) = down_last_req_id s" "key (exchanged r s) = key s"
  "upstream_fragment_size (exchanged r s) = upstream_fragment_size s"
  "downstream_fragment_size (exchanged r s) = downstream_fragment_size s"
  "upstream_round_trips (exchanged r s) = upstream_round_trips s + 1"
  "radius_state (exchanged r s) = reply_state (normalised r)"
  "ap_attrs (exchanged r s) = ap_attrs s" "last_ap_authenticator (exchanged r s) = last_ap_authenticator s"
  by (simp_all add: exchanged_def after_exchange_def Let_def)

lemma exchanged_request_id:
  "upstream_last_eap_req_id s = Some i \<Longrightarrow> upstream_last_eap_req_id (exchanged r s) = Some (next_id r i)"
  by (auto simp: exchanged_def after_exchange_def Let_def normalised_def next_id_def
      next_request_id_def split: list.split)

lemma exchange_run:
  assumes "request_error net (build_request client s eap u (radius_state s) ca ce) = None"
    and "send_packet net (build_request client s eap u (radius_state s) ca ce) w = (Inr r, w')"
    and "proper_reply r"
  shows "exchange (send_eap net client) eap u ca ce (s, w) =
    Some (Inr (normalised r), (exchanged r s, w'))"
  by (simp add: exchange_def prog_simps bindP_Some_Inr send_eap_run [OF assms] exchanged_def)

lemma exchange_recorded:
  "proper_reply r \<Longrightarrow> exchange (send_eap recording_net client) eap u ca ce (s, (v, seen, r # rs)) =
     Some (Inr (normalised r),
       (exchanged r s, (v, seen @ [build_request client s eap u (radius_state s) ca ce], rs)))"
  by (rule exchange_run) (simp_all add: recording_net_def)

lemma bindP_exchange_recorded:
  "proper_reply r \<Longrightarrow> bindP (exchange (send_eap recording_net client) eap u ca ce) h (s, (v, seen, r # rs)) =
     h (normalised r) (exchanged r s, (v, seen @ [build_request client s eap u (radius_state s) ca ce], rs))"
  by (simp add: bindP_Some_Inr exchange_recorded)

text \<open>What traffic with the server may change in a session, the reassembler of its flights included.\<close>

definition upstream_moved :: "session \<Rightarrow> session \<Rightarrow> bool" where
  "upstream_moved s s' \<longleftrightarrow>
     s' = s\<lparr>upstream_round_trips := upstream_round_trips s', upstream_last_eap_req_id := upstream_last_eap_req_id s',
           ms_mppe_send_key := ms_mppe_send_key s', ms_mppe_recv_key := ms_mppe_recv_key s',
           radius_state := radius_state s', up := up s', down := down s', down_reasm := down_reasm s'\<rparr>"

lemma upstream_movedE:
  assumes "upstream_moved s s'"
  obtains a b c d e f g h where "s' = s\<lparr>upstream_round_trips := a, upstream_last_eap_req_id := b, ms_mppe_send_key := c,
    ms_mppe_recv_key := d, radius_state := e, up := f, down := g, down_reasm := h\<rparr>"
  using assms unfolding upstream_moved_def by blast

lemma upstream_moved_sel:
  assumes "upstream_moved s s'"
  shows "mode s' = mode s" "key s' = key s" "downstream_state s' = downstream_state s" "result s' = result s"
    "up_reasm s' = up_reasm s" "down_outbox s' = down_outbox s" "down_next_id s' = down_next_id s"
    "down_last_req_id s' = down_last_req_id s" "upstream_fragment_size s' = upstream_fragment_size s"
    "downstream_fragment_size s' = downstream_fragment_size s"
  using upstream_movedE [OF assms] by force+

lemma upstream_moved_refl [simp]: "upstream_moved s s"
  by (simp add: upstream_moved_def)

lemma upstream_moved_trans:
  assumes "upstream_moved s s1" and "upstream_moved s1 s2"
  shows "upstream_moved s s2"
proof -
  obtain a b c d e f g h where s1: "s1 = s\<lparr>upstream_round_trips := a, upstream_last_eap_req_id := b, ms_mppe_send_key := c,
      ms_mppe_recv_key := d, radius_state := e, up := f, down := g, down_reasm := h\<rparr>"
    using assms(1) by (rule upstream_movedE)
  obtain a b c d e f g h where "s2 = s1\<lparr>upstream_round_trips := a, upstream_last_eap_req_id := b, ms_mppe_send_key := c,
      ms_mppe_recv_key := d, radius_state := e, up := f, down := g, down_reasm := h\<rparr>"
    using assms(2) by (rule upstream_movedE)
  then show ?thesis by (simp add: upstream_moved_def s1)
qed

lemma exchanged_moved: "upstream_moved s (exchanged r s)"
  by (simp add: upstream_moved_def exchanged_def after_exchange_def Let_def)

section \<open>A record forwarded to the server\<close>

text \<open>The Identifiers of the requests the server makes, each answered by the next fragment.\<close>

primrec answered_ids :: "nat \<Rightarrow> pyrad_reply list \<Rightarrow> nat list" where
  "answered_ids i [] = []"
| "answered_ids i (r # rs) = i # answered_ids (next_id r i) rs"

lemma length_answered_ids [simp]: "length (answered_ids i rs) = length rs"
  by (induction rs arbitrary: i) simp_all

primrec forwarded :: "pyrad_reply list \<Rightarrow> session \<Rightarrow> session" where
  "forwarded [] s = s"
| "forwarded (r # rs) s =
     forwarded rs (exchanged r (s\<lparr>up := (up s)\<lparr>fragments_out := fragments_out (up s) + 1\<rparr>\<rparr>))"

lemma forwarded_sel [simp]:
  "mode (forwarded rs s) = mode s" "down_reasm (forwarded rs s) = down_reasm s"
  "down (forwarded rs s) = down s" "down_outbox (forwarded rs s) = down_outbox s"
  "down_next_id (forwarded rs s) = down_next_id s" "result (forwarded rs s) = result s"
  "down_last_req_id (forwarded rs s) = down_last_req_id s"
  "downstream_fragment_size (forwarded rs s) = downstream_fragment_size s"
  "upstream_round_trips (forwarded rs s) = upstream_round_trips s + length rs"
  "fragments_out (up (forwarded rs s)) = fragments_out (up s) + length rs"
  by (induction rs arbitrary: s) simp_all

lemma forwarded_moved: "upstream_moved s (forwarded rs s)"
proof (induction rs arbitrary: s)
  case (Cons r rs)
  have "upstream_moved s (s\<lparr>up := m\<rparr>)" for m by (simp add: upstream_moved_def)
  then have "upstream_moved s (exchanged r (s\<lparr>up := (up s)\<lparr>fragments_out := fragments_out (up s) + 1\<rparr>\<rparr>))"
    using exchanged_moved upstream_moved_trans by blast
  from upstream_moved_trans [OF this Cons.IH] show ?case by simp
qed simp

lemma forwarded_request_id:
  "upstream_last_eap_req_id s = Some i \<Longrightarrow>
   \<exists>j. upstream_last_eap_req_id (forwarded rs s) = Some (if rs = [] then i else next_id (last rs) j)"
proof (induction rs arbitrary: s i)
  case (Cons r rs)
  let ?s1 = "s\<lparr>up := (up s)\<lparr>fragments_out := fragments_out (up s) + 1\<rparr>\<rparr>"
  have "upstream_last_eap_req_id (exchanged r ?s1) = Some (next_id r i)"
    using Cons.prems by (intro exchanged_request_id) simp
  from Cons.IH [OF this] show ?case by auto
qed simp

lemma forwarded_state:
  "radius_state (forwarded rs s) =
     (if rs = [] then radius_state s else reply_state (normalised (last rs)))"
  by (induction rs arbitrary: s) simp_all

lemma response_id_run:
  "upstream_last_eap_req_id s = Some i \<Longrightarrow> bindP upstream_response_id k (s, w) = k i (s, w)"
  by (simp add: upstream_response_id_def bindP_assoc prog_simps)

lemma forward_chunks_run:
  assumes "length rs = length cs" and "\<forall>r \<in> set rs. proper_reply r"
    and "upstream_last_eap_req_id s = Some i" and "i < 256"
    and "\<forall>c \<in> set cs. length c \<le> 65000" and "t < 256 ^ 4"
  shows "\<exists>reqs. forward_chunks (send_eap recording_net client) u ca ce n t rep (List.enumerate k cs)
        (s, (v, seen, rs @ rest))
      = Some (Inr (if rs = [] then rep else Some (normalised (last rs))),
          (forwarded rs s, (v, seen @ reqs, rest))) \<and>
    length reqs = length cs \<and>
    (\<forall>j < length cs. frame_chunk 2 (answered_ids i rs ! j) t n (k + j) (cs ! j) = Inr (eap_of_calls (reqs ! j)))"
  using assms
proof (induction cs arbitrary: s seen rs i k rep)
  case Nil
  then show ?case by (simp add: prog_simps)
next
  case (Cons c cs)
  then obtain r rs' where rs: "rs = r # rs'" by (cases rs) auto
  have "buildable 2 i c (if k = 0 then Some t else None)"
    using Cons.prems by (simp add: buildable_def wire_length_def length_field_def)
  then obtain wire where wire: "frame_chunk 2 i t n k c = Inr wire"
    by (simp add: frame_chunk_def build_Inr)
  let ?s1 = "s\<lparr>up := (up s)\<lparr>fragments_out := fragments_out (up s) + 1\<rparr>\<rparr>"
  let ?req = "build_request client ?s1 wire u (radius_state ?s1) ca ce"
  have "upstream_last_eap_req_id (exchanged r ?s1) = Some (next_id r i)"
    using Cons.prems(3) by (intro exchanged_request_id) simp
  then obtain reqs where reqs: "forward_chunks (send_eap recording_net client) u ca ce n t (Some (normalised r))
        (List.enumerate (Suc k) cs) (exchanged r ?s1, (v, seen @ [?req], rs' @ rest))
      = Some (Inr (if rs' = [] then Some (normalised r) else Some (normalised (last rs'))),
          (forwarded rs' (exchanged r ?s1), (v, (seen @ [?req]) @ reqs, rest)))"
    "length reqs = length cs"
    "\<forall>j < length cs. frame_chunk 2 (answered_ids (next_id r i) rs' ! j) t n (Suc k + j) (cs ! j)
       = Inr (eap_of_calls (reqs ! j))"
    using Cons.IH [where rs = rs' and s = "exchanged r ?s1" and i = "next_id r i" and seen = "seen @ [?req]"
        and k = "Suc k" and rep = "Some (normalised r)"] Cons.prems next_id_bound
    by (auto simp: rs)
  have proper: "proper_reply r" using Cons.prems(2) by (simp add: rs)
  have bld: "build 2 i c (Suc k < n) (if k = 0 then Some t else None) False = Inr wire"
    using wire by (simp add: frame_chunk_def)
  have "forward_chunks (send_eap recording_net client) u ca ce n t rep (List.enumerate k (c # cs))
        (s, (v, seen, rs @ rest))
      = Some (Inr (Some (normalised (last rs))), (forwarded rs s, (v, seen @ (?req # reqs), rest)))"
    using reqs(1) by (auto simp: rs response_id_run [OF Cons.prems(3)] bld prog_simps bindP_exchange_recorded proper)
  moreover have "\<forall>j < length (c # cs). frame_chunk 2 (answered_ids i rs ! j) t n (k + j) ((c # cs) ! j)
      = Inr (eap_of_calls ((?req # reqs) ! j))"
    using reqs(3) wire by (simp add: rs All_less_Suc2)
  ultimately show ?case using reqs(2) by (intro exI [of _ "?req # reqs"]) (simp add: rs)
qed


lemma forward_record_run:
  assumes chunks: "fragment tls_record (upstream_fragment_size s) = Inr chunks"
    and size: "upstream_fragment_size s \<le> 65000" "length tls_record < 256 ^ 4"
    and id: "upstream_last_eap_req_id s = Some i" "i < 256"
    and rs: "length rs = length chunks" "\<forall>r \<in> set rs. proper_reply r"
    and srv: "int (length tls_record) \<le> max_message_len srv" "ready srv"
  shows "\<exists>reqs srv'. forward_record_upstream (send_eap recording_net client) clk tls_record u ca ce
        (s, (v, seen, rs @ rest))
      = handle_upstream_reply (send_eap recording_net client) clk (Some (normalised (last rs))) u ca ce
        (forwarded rs s, (v, seen @ reqs, rest)) \<and>
    length reqs = length chunks \<and>
    mapP receive (map eap_of_calls reqs) srv =
      Some (Inr (replicate (length chunks - 1) None @ [Some tls_record]), srv') \<and>
    map (\<lambda>q. projr (parse (eap_of_calls q))) reqs =
      map (\<lambda>k. chunk_packet 2 (answered_ids i rs ! k) (length tls_record) (length chunks) k (chunks ! k))
        [0..<length chunks]"
proof -
  have "\<forall>c \<in> set chunks. length c \<le> 65000"
    using fragment_chunk_le [OF chunks] size(1) by fastforce
  then obtain reqs where reqs: "forward_chunks (send_eap recording_net client) u ca ce (length chunks)
        (length tls_record) None (List.enumerate 0 chunks) (s, (v, seen, rs @ rest))
      = Some (Inr (if rs = [] then None else Some (normalised (last rs))),
          (forwarded rs s, (v, seen @ reqs, rest)))"
    "length reqs = length chunks"
    and frames: "\<forall>j < length chunks. frame_chunk 2 (answered_ids i rs ! j) (length tls_record)
        (length chunks) j (chunks ! j) = Inr (map eap_of_calls reqs ! j)"
    using forward_chunks_run [OF rs id _ size(2), where k = 0] by fastforce
  have ne: "rs \<noteq> []" using rs(1) fragment_nonempty [OF chunks] by (cases rs) auto
  have run: "forward_record_upstream (send_eap recording_net client) clk tls_record u ca ce
        (s, (v, seen, rs @ rest))
      = handle_upstream_reply (send_eap recording_net client) clk (Some (normalised (last rs))) u ca ce
        (forwarded rs s, (v, seen @ reqs, rest))"
    using reqs(1) ne by (simp add: forward_record_upstream_def prog_simps chunks bindP_Some_Inr)
  have ids: "length (answered_ids i rs) = length chunks" "length (map eap_of_calls reqs) = length chunks"
    using rs(1) reqs(2) by simp_all
  obtain srv' where got: "mapP receive (map eap_of_calls reqs) srv =
      Some (Inr (replicate (length chunks - 1) None @ [Some tls_record]), srv')"
    using reassemble_framed [OF chunks ids frames srv] by blast
  have "\<forall>j < length chunks. projr (parse (eap_of_calls (reqs ! j))) =
      chunk_packet 2 (answered_ids i rs ! j) (length tls_record) (length chunks) j (chunks ! j)"
    using frames reqs(2) by (auto dest!: parse_frame_chunk)
  then have "map (\<lambda>q. projr (parse (eap_of_calls q))) reqs =
      map (\<lambda>k. chunk_packet 2 (answered_ids i rs ! k) (length tls_record) (length chunks) k (chunks ! k))
        [0..<length chunks]"
    using reqs(2) by (intro nth_equalityI) simp_all
  with run reqs(2) got show ?thesis by (intro exI conjI)
qed

lemma last_fragment_run:
  assumes "parse eap = Inr pkt" and "mode s \<noteq> ''passthrough''" and "\<not> is_ack pkt"
    and "\<not> more_fragments pkt"
    and "admissible pkt (abs_reasm (up_reasm s)) (max_message_len (up_reasm s))"
    and "tls_record = accumulated (abs_reasm (up_reasm s)) @ tls_data pkt"
  shows "\<exists>s1. handle_supplicant_eap send clk eap u ca ce (s, w) =
      forward_record_upstream send clk tls_record u ca ce (s1, w) \<and>
    abs_reasm (up_reasm s1) = None \<and> max_message_len (up_reasm s1) = max_message_len (up_reasm s) \<and>
    s1 = (entered pkt s)\<lparr>up_reasm := up_reasm s1, up := up s1\<rparr> \<and>
    bytes_reassembled (up s1) = bytes_reassembled (up s) + length tls_record"
proof -
  have "spec_ingest pkt (abs_reasm (up_reasm s)) = (Some tls_record, None)"
    using assms(3,4,6) by (simp add: spec_ingest_def accumulated_def)
  then obtain r where r: "ingest pkt (up_reasm s) = Some (Inr (Some tls_record), r)" "abs_reasm r = None"
    "max_message_len r = max_message_len (up_reasm s)"
    using reasm.feed_step [OF assms(5)] by auto
  let ?s0 = "(entered pkt s)\<lparr>up_reasm := r\<rparr>"
  let ?s1 = "?s0\<lparr>up := (up ?s0)\<lparr>bytes_reassembled := bytes_reassembled (up ?s0) + length tls_record\<rparr>\<rparr>"
  have "on_up (ingest pkt) (entered pkt s, w) = Some (Inr (Some tls_record), (?s0, w))"
    using r(1) by (simp add: on_up_run)
  then have "handle_supplicant_eap send clk eap u ca ce (s, w) =
      forward_record_upstream send clk tls_record u ca ce (?s1, w)"
    using assms(3) by (simp add: handle_reassemble [OF assms(1,2)] supplicant_data_def bindP_Some_Inr prog_simps)
  then show ?thesis using r(2,3) by (intro exI [of _ ?s1]) (simp add: entered_def)
qed

lemma last_fragment_forwarded:
  assumes "parse eap = Inr pkt" and "mode s \<noteq> ''passthrough''" and "\<not> is_ack pkt"
    and "\<not> more_fragments pkt"
    and "admissible pkt (abs_reasm (up_reasm s)) (max_message_len (up_reasm s))"
    and "tls_record = accumulated (abs_reasm (up_reasm s)) @ tls_data pkt"
    and "fragment tls_record (upstream_fragment_size s) = Inr chunks"
    and "upstream_fragment_size s \<le> 65000" and "length tls_record < 256 ^ 4"
    and "upstream_last_eap_req_id s = Some i" and "i < 256"
    and "length rs = length chunks" and "\<forall>r \<in> set rs. proper_reply r"
    and "int (length tls_record) \<le> max_message_len srv" and "ready srv"
  shows "\<exists>reqs s1 srv'. handle_supplicant_eap (send_eap recording_net client) clk eap u ca ce
        (s, (v, seen, rs @ rest))
      = handle_upstream_reply (send_eap recording_net client) clk (Some (normalised (last rs))) u ca ce
        (s1, (v, seen @ reqs, rest)) \<and>
    mapP receive (map eap_of_calls reqs) srv =
      Some (Inr (replicate (length chunks - 1) None @ [Some tls_record]), srv') \<and>
    map (\<lambda>q. eap_identifier (projr (parse (eap_of_calls q)))) reqs = answered_ids i rs \<and>
    upstream_round_trips s1 = upstream_round_trips s + length chunks \<and>
    radius_state s1 = reply_state (normalised (last rs)) \<and>
    abs_reasm (up_reasm s1) = None \<and> max_message_len (up_reasm s1) = max_message_len (up_reasm s) \<and>
    (\<exists>x m. upstream_moved ((entered pkt s)\<lparr>up_reasm := x, up := m\<rparr>) s1) \<and> down_reasm s1 = down_reasm s \<and>
    (\<exists>j. upstream_last_eap_req_id s1 = Some (next_id (last rs) j))"
proof -
  let ?send = "send_eap recording_net client"
  obtain s0 where h: "handle_supplicant_eap ?send clk eap u ca ce (s, (v, seen, rs @ rest)) =
      forward_record_upstream ?send clk tls_record u ca ce (s0, (v, seen, rs @ rest))"
    and s0: "s0 = (entered pkt s)\<lparr>up_reasm := up_reasm s0, up := up s0\<rparr>" "abs_reasm (up_reasm s0) = None"
      "max_message_len (up_reasm s0) = max_message_len (up_reasm s)"
    using last_fragment_run [OF assms(1-6), of ?send clk u ca ce] by blast
  have same: "upstream_fragment_size s0 = upstream_fragment_size s"
    "upstream_last_eap_req_id s0 = upstream_last_eap_req_id s"
    "upstream_round_trips s0 = upstream_round_trips s"
    "down_reasm s0 = down_reasm s"
    by (subst s0(1), simp)+
  have chunks0: "fragment tls_record (upstream_fragment_size s0) = Inr chunks"
    and size0: "upstream_fragment_size s0 \<le> 65000" and id0: "upstream_last_eap_req_id s0 = Some i"
    using assms(7,8,10) by (simp_all only: same)
  obtain reqs srv' where f: "forward_record_upstream ?send clk tls_record u ca ce (s0, (v, seen, rs @ rest))
      = handle_upstream_reply ?send clk (Some (normalised (last rs))) u ca ce
        (forwarded rs s0, (v, seen @ reqs, rest))"
    "length reqs = length chunks"
    "mapP receive (map eap_of_calls reqs) srv =
      Some (Inr (replicate (length chunks - 1) None @ [Some tls_record]), srv')"
    "map (\<lambda>q. projr (parse (eap_of_calls q))) reqs =
      map (\<lambda>k. chunk_packet 2 (answered_ids i rs ! k) (length tls_record) (length chunks) k (chunks ! k))
        [0..<length chunks]"
    using forward_record_run [OF chunks0 size0 assms(9) id0 assms(11-15), of client clk u ca ce v seen rest] by blast
  have "map eap_identifier (map (\<lambda>q. projr (parse (eap_of_calls q))) reqs) = answered_ids i rs"
    unfolding f(4) using assms(12) by (intro nth_equalityI) (simp_all add: chunk_packet_def)
  then have ids: "map (\<lambda>q. eap_identifier (projr (parse (eap_of_calls q)))) reqs = answered_ids i rs"
    by (simp add: comp_def)
  have "rs \<noteq> []" using assms(12) fragment_nonempty [OF assms(7)] by (cases rs) auto
  then have "radius_state (forwarded rs s0) = reply_state (normalised (last rs))"
    and "upstream_round_trips (forwarded rs s0) = upstream_round_trips s + length chunks"
    using assms(12) same(3) by (simp_all add: forwarded_state)
  moreover have "upstream_moved ((entered pkt s)\<lparr>up_reasm := up_reasm s0, up := up s0\<rparr>) (forwarded rs s0)"
    using forwarded_moved [of s0 rs] s0(1) by metis
  moreover obtain j where "upstream_last_eap_req_id (forwarded rs s0) = Some (next_id (last rs) j)"
    using forwarded_request_id [OF id0, of rs] \<open>rs \<noteq> []\<close> by auto
  moreover have "up_reasm (forwarded rs s0) = up_reasm s0"
    by (rule upstream_moved_sel [OF forwarded_moved])
  ultimately show ?thesis using h f(1,3) ids s0(2,3) same(4)
    by - (rule exI [of _ reqs], rule exI [of _ "forwarded rs s0"], rule exI [of _ srv'], intro conjI; ((simp; fail) | blast))
qed

text \<open>
  C5: the last fragment of the supplicant sends the whole record upstream. Whatever fragments
  it came in, the server gets exactly as many requests as the record has chunks of the
  upstream fragment size, each answering the Identifier of the server's latest request, and
  a reassembler on the server's side that receives them in order holds the record unchanged
  when the last one arrives. The handler then goes on with the server's last reply.
\<close>

theorem record_reaches_server:
  assumes "parse eap = Inr pkt" and "mode s \<noteq> ''passthrough''" and "\<not> is_ack pkt"
    and "\<not> more_fragments pkt"
    and "admissible pkt (abs_reasm (up_reasm s)) (max_message_len (up_reasm s))"
    and "tls_record = accumulated (abs_reasm (up_reasm s)) @ tls_data pkt"
    and "fragment tls_record (upstream_fragment_size s) = Inr chunks"
    and "upstream_fragment_size s \<le> 65000" and "length tls_record < 256 ^ 4"
    and "upstream_last_eap_req_id s = Some i" and "i < 256"
    and "length rs = length chunks" and "\<forall>r \<in> set rs. proper_reply r"
    and "int (length tls_record) \<le> max_message_len srv" and "ready srv"
  shows "\<exists>reqs s1 srv'. handle_supplicant_eap (send_eap recording_net client) clk eap u ca ce
        (s, (v, seen, rs @ rest))
      = handle_upstream_reply (send_eap recording_net client) clk (Some (normalised (last rs))) u ca ce
        (s1, (v, seen @ reqs, rest)) \<and>
    mapP receive (map eap_of_calls reqs) srv =
      Some (Inr (replicate (length chunks - 1) None @ [Some tls_record]), srv') \<and>
    map (\<lambda>q. eap_identifier (projr (parse (eap_of_calls q)))) reqs = answered_ids i rs \<and>
    upstream_round_trips s1 = upstream_round_trips s + length chunks \<and>
    radius_state s1 = reply_state (normalised (last rs))"
  using last_fragment_forwarded [OF assms, of client clk u ca ce v seen rest] by blast

theorem record_reaches_server_witness:
  "\<exists>reqs s1 srv'. handle_supplicant_eap (send_eap recording_net lab_client) lab_clock
        [2, 7, 0, 7, 13, 0, 9] ''u'' None None
        (lab_session\<lparr>upstream_last_eap_req_id := Some 4\<rparr>, ((), [], [eap_reply 11 [1, 5, 0, 6, 13, 0]]))
      = handle_upstream_reply (send_eap recording_net lab_client) lab_clock
          (Some (normalised (eap_reply 11 [1, 5, 0, 6, 13, 0]))) ''u'' None None (s1, ((), reqs, [])) \<and>
    mapP receive (map eap_of_calls reqs) (new_reassembler 4096) = Some (Inr [Some [9]], srv') \<and>
    map (\<lambda>q. eap_identifier (projr (parse (eap_of_calls q)))) reqs = [4] \<and>
    upstream_round_trips s1 = 1 \<and>
    radius_state s1 = reply_state (normalised (eap_reply 11 [1, 5, 0, 6, 13, 0]))"
proof -
  let ?s = "lab_session\<lparr>upstream_last_eap_req_id := Some 4\<rparr>"
  have parsed: "parse [2, 7, 0, 7, 13, 0, 9] =
      Inr \<lparr>eap_code = 2, eap_identifier = 7, length_included = False, more_fragments = False,
           start = False, tls_message_length = None, tls_data = [9]\<rparr>" (is "_ = Inr ?pkt")
    by code_simp
  have chunks: "fragment [9] (upstream_fragment_size ?s) = Inr [[9 :: byte]]"
    by (simp add: fragment_Inr chop.simps)
  have hyps: "mode ?s \<noteq> ''passthrough''" "\<not> is_ack ?pkt" "\<not> more_fragments ?pkt"
    "admissible ?pkt (abs_reasm (up_reasm ?s)) (max_message_len (up_reasm ?s))"
    "[9] = accumulated (abs_reasm (up_reasm ?s)) @ tls_data ?pkt"
    "upstream_fragment_size ?s \<le> 65000" "length [9 :: byte] < 256 ^ 4"
    "upstream_last_eap_req_id ?s = Some 4" "4 < (256 :: nat)"
    "length [eap_reply 11 [1, 5, 0, 6, 13, 0]] = length [[9 :: byte]]"
    "\<forall>r \<in> set [eap_reply 11 [1, 5, 0, 6, 13, 0]]. proper_reply r"
    "int (length [9 :: byte]) \<le> max_message_len (new_reassembler 4096)" "ready (new_reassembler 4096)"
    by (simp_all add: is_ack_def admissible_def accumulated_def declared_tml_def proper_reply_def
        eap_reply_def AccessAccept_def new_reassembler_def ready_def)
  show ?thesis
    using record_reaches_server [OF parsed hyps(1-5) chunks hyps(6-13), of lab_client lab_clock "''u''" None None "()" "[]" "[]"]
    by simp
qed

section \<open>A flight of the server\<close>

text \<open>A challenge that carries one fragment of the server.\<close>

definition flight_reply :: "pyrad_reply \<Rightarrow> eap_tls_packet \<Rightarrow> bool" where
  "flight_reply r pkt \<longleftrightarrow> proper_reply r \<and> pr_code r = AccessChallenge \<and>
     (\<exists>m. eap_messages (normalised r) = [m] \<and> parse m = Inr pkt)"

lemma flight_next_id:
  assumes "flight_reply r pkt" and "eap_code pkt = 1"
  shows "next_id r i = eap_identifier pkt"
proof -
  obtain m where m: "eap_messages (normalised r) = [m]" "parse m = Inr pkt"
    using assms(1) by (auto simp: flight_reply_def)
  have "2 \<le> length m \<and> unat (m ! 0) = 1 \<and> unat (m ! 1) = eap_identifier pkt"
    using m(2) assms(2) by (auto simp: parse_def Let_def split: if_splits)
  then show ?thesis by (simp add: next_id_def next_request_id_def m(1))
qed

definition drain_acked :: "pyrad_reply \<Rightarrow> reassembler \<Rightarrow> session \<Rightarrow> session" where
  "drain_acked r reasm s =
     (exchanged r (s\<lparr>down := (down s)\<lparr>acks_generated := acks_generated (down s) + 1\<rparr>\<rparr>))\<lparr>down_reasm := reasm\<rparr>"

lemma drain_acked_sel [simp]:
  "down_reasm (drain_acked r x s) = x" "mode (drain_acked r x s) = mode s"
  "down_outbox (drain_acked r x s) = down_outbox s" "result (drain_acked r x s) = result s"
  "down_next_id (drain_acked r x s) = down_next_id s"
  "down_last_req_id (drain_acked r x s) = down_last_req_id s"
  "downstream_fragment_size (drain_acked r x s) = downstream_fragment_size s"
  "upstream_round_trips (drain_acked r x s) = upstream_round_trips s + 1"
  by (simp_all add: drain_acked_def)

lemma drain_acked_moved: "upstream_moved s (drain_acked r x s)"
  by (simp add: upstream_moved_def drain_acked_def exchanged_def after_exchange_def Let_def)

lemma drain_acked_request_id:
  "flight_reply r pkt \<Longrightarrow> eap_code pkt = 1 \<Longrightarrow> upstream_last_eap_req_id s = Some i \<Longrightarrow>
   upstream_last_eap_req_id (drain_acked r x s) = Some (eap_identifier pkt)"
  using exchanged_request_id [of "s\<lparr>down := (down s)\<lparr>acks_generated := acks_generated (down s) + 1\<rparr>\<rparr>" i r]
  by (simp add: drain_acked_def flight_next_id)

lemma drain_step:
  assumes "more_fragments p" and "upstream_last_eap_req_id s = Some i" and "i < 256"
    and "flight_reply r pkt" and "ingest pkt (down_reasm s) = Some (Inr out, x)"
  shows "\<exists>req. build_ack 2 i = Inr (eap_of_calls req) \<and>
    drain_upstream_fragments (send_eap recording_net client) clk u ca ce p (s, (v, seen, r # rs)) =
      (case out of
         Some d \<Rightarrow> Some (Inr (Some d), (drain_acked r x s, (v, seen @ [req], rs)))
       | None \<Rightarrow> drain_upstream_fragments (send_eap recording_net client) clk u ca ce pkt
                   (drain_acked r x s, (v, seen @ [req], rs)))"
proof -
  obtain ack where ack: "build_ack 2 i = Inr ack" using parse_build_ack [of 2 i] assms(3) by auto
  obtain m where m: "eap_messages (normalised r) = [m]" "parse m = Inr pkt"
    using assms(4) by (auto simp: flight_reply_def)
  have no: "\<not> accept (normalised r)" "\<not> reject (normalised r)" "proper_reply r"
    using assms(4) by (simp_all add: flight_reply_def normalised_def radius_code_defs)
  let ?s1 = "s\<lparr>down := (down s)\<lparr>acks_generated := acks_generated (down s) + 1\<rparr>\<rparr>"
  let ?req = "build_request client ?s1 ack u (radius_state ?s1) ca ce"
  have "drain_upstream_fragments (send_eap recording_net client) clk u ca ce p (s, (v, seen, r # rs)) =
      (case out of
         Some d \<Rightarrow> Some (Inr (Some d), (drain_acked r x s, (v, seen @ [?req], rs)))
       | None \<Rightarrow> drain_upstream_fragments (send_eap recording_net client) clk u ca ce pkt
                   (drain_acked r x s, (v, seen @ [?req], rs)))"
    by (subst drain_upstream_fragments.simps)
      (simp add: assms(1) drain_ack_def prog_assoc response_id_run [OF assms(2)] ack prog_simps
        bindP_exchange_recorded no m bindP_on_down assms(5) drain_acked_def split: option.split)
  then show ?thesis using ack by (intro exI [of _ ?req]) simp
qed


lemma drain_flight:
  assumes "data_fragments pkts" and "list_all2 flight_reply rs pkts" and "\<forall>q \<in> set pkts. eap_code q = 1"
    and "more_fragments p" and "upstream_last_eap_req_id s = Some (eap_identifier p)" and "eap_identifier p < 256"
    and "abs_reasm (down_reasm s) = Some acc"
    and "int (length acc + length (concat (map tls_data pkts))) \<le> max_message_len (down_reasm s)"
  shows "\<exists>reqs s'. drain_upstream_fragments (send_eap recording_net client) clk u ca ce p (s, (v, seen, rs @ rest)) =
      Some (Inr (Some (acc @ concat (map tls_data pkts))), (s', (v, seen @ reqs, rest))) \<and>
    list_all2 (\<lambda>q i. build_ack 2 i = Inr (eap_of_calls q)) reqs (butlast (map eap_identifier (p # pkts))) \<and>
    upstream_moved s s' \<and> abs_reasm (down_reasm s') = None \<and>
    max_message_len (down_reasm s') = max_message_len (down_reasm s) \<and>
    upstream_last_eap_req_id s' = Some (eap_identifier (last (p # pkts))) \<and>
    upstream_round_trips s' = upstream_round_trips s + length pkts"
  using assms
proof (induction pkts arbitrary: p s rs acc seen)
  case Nil
  then show ?case by (simp add: data_fragments_def)
next
  case (Cons q qs)
  then obtain r rs' where rs: "rs = r # rs'" "flight_reply r q" "list_all2 flight_reply rs' qs"
    by (cases rs) auto
  from Cons.prems(1) have q: "\<not> is_ack q" "more_fragments q = (qs \<noteq> [])"
    and qs: "qs = [] \<or> data_fragments qs" by (simp_all add: data_fragments_Cons)
  have q_id: "eap_identifier q < 256"
    using rs(2) parse_ids by (auto simp: flight_reply_def)
  have "admissible q (abs_reasm (down_reasm s)) (max_message_len (down_reasm s))"
    using Cons.prems(7,8) by (simp add: admissible_def accumulated_def)
  then obtain x where x: "ingest q (down_reasm s) = Some (Inr (fst (spec_ingest q (Some acc))), x)"
    "abs_reasm x = snd (spec_ingest q (Some acc))" "max_message_len x = max_message_len (down_reasm s)"
    using reasm.feed_step Cons.prems(7) by metis
  obtain req where req: "build_ack 2 (eap_identifier p) = Inr (eap_of_calls req)"
    and step: "drain_upstream_fragments (send_eap recording_net client) clk u ca ce p (s, (v, seen, r # rs' @ rest)) =
      (case fst (spec_ingest q (Some acc)) of
         Some d \<Rightarrow> Some (Inr (Some d), (drain_acked r x s, (v, seen @ [req], rs' @ rest)))
       | None \<Rightarrow> drain_upstream_fragments (send_eap recording_net client) clk u ca ce q
                   (drain_acked r x s, (v, seen @ [req], rs' @ rest)))"
    using drain_step [OF Cons.prems(4-6) rs(2) x(1), of client clk u ca ce v seen "rs' @ rest"] by blast
  show ?case
  proof (cases "qs = []")
    case True
    then have "rs' = []" "spec_ingest q (Some acc) = (Some (acc @ tls_data q), None)"
      using rs(3) q by (simp_all add: spec_ingest_def)
    moreover have "upstream_last_eap_req_id (drain_acked r x s) = Some (eap_identifier q)"
      using drain_acked_request_id [OF rs(2) _ Cons.prems(5)] Cons.prems(3) by simp
    ultimately show ?thesis using step req x(2,3) True drain_acked_moved
      by (intro exI [of _ "[req]"] exI [of _ "drain_acked r x s"]) (simp add: rs(1))
  next
    case False
    then have sp: "spec_ingest q (Some acc) = (None, Some (acc @ tls_data q))"
      using q by (simp add: spec_ingest_def)
    let ?s1 = "drain_acked r x s"
    have "upstream_last_eap_req_id ?s1 = Some (eap_identifier q)"
      using drain_acked_request_id [OF rs(2) _ Cons.prems(5)] Cons.prems(3) by simp
    then obtain reqs s' where ih: "drain_upstream_fragments (send_eap recording_net client) clk u ca ce q
          (?s1, (v, seen @ [req], rs' @ rest)) =
        Some (Inr (Some ((acc @ tls_data q) @ concat (map tls_data qs))), (s', (v, (seen @ [req]) @ reqs, rest)))"
      "list_all2 (\<lambda>q i. build_ack 2 i = Inr (eap_of_calls q)) reqs (butlast (map eap_identifier (q # qs)))"
      "upstream_moved ?s1 s'" "abs_reasm (down_reasm s') = None"
      "max_message_len (down_reasm s') = max_message_len (down_reasm ?s1)"
      "upstream_last_eap_req_id s' = Some (eap_identifier (last (q # qs)))"
      "upstream_round_trips s' = upstream_round_trips ?s1 + length qs"
      using Cons.IH [where p = q and s = ?s1 and rs = rs' and acc = "acc @ tls_data q" and seen = "seen @ [req]"]
        False qs rs(3) Cons.prems(3,8) q q_id x(2,3) sp by auto
    have "upstream_moved s s'" using upstream_moved_trans [OF drain_acked_moved ih(3)] .
    then show ?thesis using step req sp False ih x(3)
      by (intro exI [of _ "req # reqs"] exI [of _ s']) (simp add: rs(1))
  qed
qed


text \<open>The challenges in which the server sends the given EAP packets, one in each.\<close>

definition carries :: "pyrad_reply \<Rightarrow> bytes \<Rightarrow> bool" where
  "carries r packet \<longleftrightarrow> proper_reply r \<and> pr_code r = AccessChallenge \<and> eap_messages (normalised r) = [packet]"

lemma handle_challenge:
  assumes "flight_reply r pkt"
  shows "handle_upstream_reply send clk (Some (normalised r)) u ca ce (s, w) =
    bindP (on_down (ingest pkt)) (\<lambda>complete.
      case complete of
        Some d \<Rightarrow> deliver_record d
      | None \<Rightarrow>
          bindP (drain_upstream_fragments send clk u ca ce pkt) (\<lambda>drained.
            case drained of
              Some d \<Rightarrow> deliver_record d
            | None \<Rightarrow>
                bindP (getS result) (\<lambda>res.
                  if res = Some ''accept'' then terminal_outcome Accept pending_success
                  else terminal_outcome Reject pending_failure))) (s, w)"
proof -
  obtain m where m: "eap_messages (normalised r) = [m]" "parse m = Inr pkt"
    using assms by (auto simp: flight_reply_def)
  have "\<not> accept (normalised r)" "\<not> reject (normalised r)"
    using assms by (simp_all add: flight_reply_def normalised_def radius_code_defs)
  with m show ?thesis by (simp add: handle_upstream_reply_def prog_simps)
qed

text \<open>A flight of the server, whatever its framing: data fragments, one to a challenge.\<close>

definition server_flight :: "int \<Rightarrow> bytes \<Rightarrow> pyrad_reply list \<Rightarrow> eap_tls_packet list \<Rightarrow> bool" where
  "server_flight limit flight rs pkts \<longleftrightarrow>
     data_fragments pkts \<and> list_all2 flight_reply rs pkts \<and> list_all (\<lambda>q. eap_code q = 1) pkts \<and>
     concat (map tls_data pkts) = flight \<and> int (length flight) \<le> limit \<and>
     (case declared_tml (hd pkts) of None \<Rightarrow> True | Some n \<Rightarrow> int n \<le> limit)"

lemma flight_gathered:
  assumes flight: "server_flight (max_message_len (down_reasm s)) flight (r # rs) (p # qs)"
    and rdy: "ready (down_reasm s)" and first: "upstream_last_eap_req_id s = Some (eap_identifier p)"
  shows "\<exists>reqs s'. handle_upstream_reply (send_eap recording_net client) clk (Some (normalised r)) u ca ce
        (s, (v, seen, rs @ rest))
      = deliver_record flight (s', (v, seen @ reqs, rest)) \<and>
    list_all2 (\<lambda>q i. build_ack 2 i = Inr (eap_of_calls q)) reqs (butlast (map eap_identifier (p # qs))) \<and>
    upstream_moved s s' \<and> ready (down_reasm s') \<and> max_message_len (down_reasm s') = max_message_len (down_reasm s) \<and>
    upstream_last_eap_req_id s' = Some (eap_identifier (last (p # qs))) \<and>
    upstream_round_trips s' = upstream_round_trips s + length qs"
proof -
  have p: "flight_reply r p" "list_all2 flight_reply rs qs" and codes: "\<forall>q \<in> set (p # qs). eap_code q = 1"
    and dp: "\<not> is_ack p" "more_fragments p = (qs \<noteq> [])" "qs = [] \<or> data_fragments qs"
    and cat: "tls_data p @ concat (map tls_data qs) = flight"
    and fits: "int (length flight) \<le> max_message_len (down_reasm s)"
    using flight by (simp_all add: server_flight_def data_fragments_Cons list_all_iff)
  have none: "abs_reasm (down_reasm s) = None" using rdy by (simp add: ready_abs)
  have adm: "admissible p (abs_reasm (down_reasm s)) (max_message_len (down_reasm s))"
    using flight cat by (auto simp: server_flight_def admissible_def none accumulated_def)
  obtain x where x: "ingest p (down_reasm s) = Some (Inr (fst (spec_ingest p None)), x)"
    "abs_reasm x = snd (spec_ingest p None)" "max_message_len x = max_message_len (down_reasm s)"
    using reasm.feed_step [OF adm] none by auto
  let ?s1 = "s\<lparr>down_reasm := x\<rparr>"
  have moved: "upstream_moved s ?s1" by (simp add: upstream_moved_def)
  note h = handle_challenge [OF p(1), of "send_eap recording_net client" clk u ca ce s "(v, seen, rs @ rest)"]
  show ?thesis
  proof (cases "qs = []")
    case True
    then have sp: "spec_ingest p None = (Some flight, None)" using dp cat by (simp add: spec_ingest_def)
    have "rs = []" using p(2) True by simp
    then show ?thesis using h x sp True moved first
      by (intro exI [of _ "[]"] exI [of _ ?s1]) (simp add: bindP_on_down ready_abs)
  next
    case False
    then have sp: "spec_ingest p None = (None, Some (tls_data p))" using dp by (simp add: spec_ingest_def Let_def)
    have "eap_identifier p < 256" using p(1) parse_ids by (auto simp: flight_reply_def)
    then obtain reqs s' where d: "drain_upstream_fragments (send_eap recording_net client) clk u ca ce p
          (?s1, (v, seen, rs @ rest)) = Some (Inr (Some (tls_data p @ concat (map tls_data qs))), (s', (v, seen @ reqs, rest)))"
      "list_all2 (\<lambda>q i. build_ack 2 i = Inr (eap_of_calls q)) reqs (butlast (map eap_identifier (p # qs)))"
      "upstream_moved ?s1 s'" "abs_reasm (down_reasm s') = None"
      "max_message_len (down_reasm s') = max_message_len (down_reasm ?s1)"
      "upstream_last_eap_req_id s' = Some (eap_identifier (last (p # qs)))"
      "upstream_round_trips s' = upstream_round_trips ?s1 + length qs"
      using drain_flight [where p = p and pkts = qs and rs = rs and s = ?s1 and acc = "tls_data p" and seen = seen
          and client = client and clk = clk and u = u and ca = ca and ce = ce and rest = rest and v = v]
        False dp p(2) codes first x(2,3) sp fits cat
      by (auto simp: length_append [symmetric] simp del: length_append of_nat_add)
    have "handle_upstream_reply (send_eap recording_net client) clk (Some (normalised r)) u ca ce (s, (v, seen, rs @ rest))
        = deliver_record flight (s', (v, seen @ reqs, rest))"
      using h x(1) sp d(1) cat by (simp add: bindP_on_down bindP_Some_Inr)
    then show ?thesis using d(2,4-) x(3) upstream_moved_trans [OF moved d(3)]
      by (intro exI [of _ reqs] exI [of _ s']) (simp add: ready_abs)
  qed
qed

text \<open>A flight that the server fragments as the proxy does.\<close>

lemma framed_flight:
  assumes chunks: "fragment flight fsize = Inr chunks"
    and ids: "length ids = length chunks" and wires: "length wires = length chunks"
    and framed: "\<forall>k < length chunks. frame_chunk 1 (ids ! k) (length flight) (length chunks) k (chunks ! k) = Inr (wires ! k)"
    and replies: "list_all2 carries rs wires" and fits: "int (length flight) \<le> limit"
  obtains pkts where "server_flight limit flight rs pkts" "map eap_identifier pkts = ids"
proof
  let ?pkts = "map (\<lambda>k. chunk_packet 1 (ids ! k) (length flight) (length chunks) k (chunks ! k)) [0..<length chunks]"
  have data: "data_fragments ?pkts" "concat (map tls_data ?pkts) = flight" "declared_tml (hd ?pkts) = Some (length flight)"
    by (fact chunk_packets_data [OF chunks ids refl])+
  have "list_all2 flight_reply rs ?pkts"
    using replies wires framed parse_frame_chunk
    by (fastforce simp: list_all2_conv_all_nth flight_reply_def carries_def)
  moreover have "list_all (\<lambda>q. eap_code q = 1) ?pkts" by (simp add: list_all_iff chunk_packet_def)
  ultimately show "server_flight limit flight rs ?pkts" using data fits by (simp add: server_flight_def)
  show "map eap_identifier ?pkts = ids"
    using ids by (intro nth_equalityI) (simp_all add: chunk_packet_def)
qed

text \<open>
  C6: a fragmented flight of the server is pulled in whole before the supplicant hears of it.
  Every fragment but the last is acknowledged upstream by an EAP-TLS ACK Response under the
  Identifier of that very fragment, one round trip each, and the record that goes to the
  supplicant is the server's message unchanged; the supplicant's Identifiers and the queue
  toward it are not touched meanwhile.
\<close>

theorem server_flight_collected:
  assumes "fragment flight fsize = Inr chunks"
    and "length ids = length chunks" and "\<forall>i \<in> set ids. i < 256" and "length wires = length chunks"
    and "\<forall>k < length chunks. frame_chunk 1 (ids ! k) (length flight) (length chunks) k (chunks ! k) = Inr (wires ! k)"
    and "list_all2 carries (r # rs) wires"
    and "ready (down_reasm s)" and "int (length flight) \<le> max_message_len (down_reasm s)"
    and "upstream_last_eap_req_id s = Some (ids ! 0)"
  shows "\<exists>reqs s'. handle_upstream_reply (send_eap recording_net client) clk (Some (normalised r)) u ca ce
        (s, (v, seen, rs @ rest))
      = deliver_record flight (s', (v, seen @ reqs, rest)) \<and>
    list_all2 (\<lambda>q i. build_ack 2 i = Inr (eap_of_calls q)) reqs (butlast ids) \<and>
    ready (down_reasm s') \<and> down_outbox s' = down_outbox s \<and> down_next_id s' = down_next_id s \<and>
    upstream_round_trips s' = upstream_round_trips s + (length chunks - 1)"
proof -
  obtain pkts where pkts: "server_flight (max_message_len (down_reasm s)) flight (r # rs) pkts" "map eap_identifier pkts = ids"
    using framed_flight [OF assms(1,2,4-6,8)] .
  then obtain p qs where pq: "pkts = p # qs" by (cases pkts) (auto simp: server_flight_def)
  have ids: "eap_identifier p = ids ! 0" "length qs = length chunks - 1" "butlast (map eap_identifier (p # qs)) = butlast ids"
    using pkts(2) assms(2) by (auto simp: pq)
  obtain reqs s' where "handle_upstream_reply (send_eap recording_net client) clk (Some (normalised r)) u ca ce (s, (v, seen, rs @ rest))
      = deliver_record flight (s', (v, seen @ reqs, rest))"
    "list_all2 (\<lambda>q i. build_ack 2 i = Inr (eap_of_calls q)) reqs (butlast ids)"
    "upstream_moved s s'" "ready (down_reasm s')" "upstream_round_trips s' = upstream_round_trips s + (length chunks - 1)"
    using flight_gathered [OF pkts(1) [unfolded pq] assms(7), of client clk u ca ce v seen rest, unfolded ids] assms(9) by blast
  then show ?thesis using upstream_moved_sel by blast
qed

theorem server_flight_collected_witness:
  "\<exists>reqs s'. handle_upstream_reply (send_eap recording_net lab_client) lab_clock
        (Some (normalised (eap_reply 11 [1, 5, 0, 12, 13, 0xC0, 0, 0, 0, 3, 10, 20]))) ''u'' None None
        (lab_session\<lparr>upstream_last_eap_req_id := Some 5\<rparr>, ((), [], [eap_reply 11 [1, 6, 0, 7, 13, 0, 30]]))
      = deliver_record [10, 20, 30] (s', ((), reqs, [])) \<and>
    list_all2 (\<lambda>q i. build_ack 2 i = Inr (eap_of_calls q)) reqs [5] \<and>
    upstream_round_trips s' = 1"
proof -
  have chunks: "fragment [10, 20, 30] 2 = Inr [[10, 20], [30 :: byte]]" by code_simp
  have framed: "\<forall>k < length [[10, 20], [30 :: byte]].
    frame_chunk 1 ([5, 6] ! k) (length [10, 20, 30 :: byte]) (length [[10, 20], [30 :: byte]]) k
      ([[10, 20], [30]] ! k)
    = Inr ([[1, 5, 0, 12, 13, 0xC0, 0, 0, 0, 3, 10, 20], [1, 6, 0, 7, 13, 0, 30]] ! k)"
    by (simp add: All_less_Suc2 frame_chunk_def build_Inr buildable_def wire_layout_def
        wire_length_def length_field_def be_bytes_2 be_bytes_4 build_flags_def eap_const_defs)
  have carried: "carries (eap_reply 11 m) m" if "m \<noteq> []" for m
    using that by (simp add: carries_def eap_reply_def proper_reply_def normalised_def
        concat_eap_messages_def radius_code_defs Let_def)
  show ?thesis
    using server_flight_collected [OF chunks _ _ _ framed, of "eap_reply 11 [1, 5, 0, 12, 13, 0xC0, 0, 0, 0, 3, 10, 20]"
        "[eap_reply 11 [1, 6, 0, 7, 13, 0, 30]]" "lab_session\<lparr>upstream_last_eap_req_id := Some 5\<rparr>"
        lab_client lab_clock "''u''" None None "()" "[]" "[]"]
    by (fastforce simp: carried ready_abs)
qed

end
