(* ===== verification/Mediator_Discipline.thy ===== *)
theory Mediator_Discipline
  imports Mediator_Upstream
begin

text \<open>
  What holds of every run of \<open>handle_supplicant_eap\<close>, on every branch and with any server
  that answers at all: the Identifier discipline of RFC 3748 toward the supplicant, the
  well-formedness of the session, the fields the mediator never touches, and the errors: which can
  come out, and that each of the mediator's own does. The proofs are triples over the session, method by method, for any upstream
  leg; the drain loop goes by induction on its approximations.
\<close>

section \<open>Triples over the object\<close>

definition ses ::
  "('o \<Rightarrow> bool) \<Rightarrow> ('o \<times> 'w, 'a) prog \<Rightarrow> ('a \<Rightarrow> 'o \<Rightarrow> bool) \<Rightarrow> (py_error \<Rightarrow> 'o \<Rightarrow> bool) \<Rightarrow> bool" where
  "ses P m Q E \<longleftrightarrow> hoare (\<lambda>sw. P (fst sw)) m (\<lambda>x sw. Q x (fst sw)) (\<lambda>e sw. E e (fst sw))"

lemma sesI:
  assumes "\<And>s w x s' w'. P s \<Longrightarrow> m (s, w) = Some (Inr x, (s', w')) \<Longrightarrow> Q x s'"
    and "\<And>s w e s' w'. P s \<Longrightarrow> m (s, w) = Some (Inl e, (s', w')) \<Longrightarrow> E e s'"
  shows "ses P m Q E"
  unfolding ses_def by (rule hoareI) (use assms in auto)

lemma ses_Inr: "ses P m Q E \<Longrightarrow> P s \<Longrightarrow> m (s, w) = Some (Inr x, (s', w')) \<Longrightarrow> Q x s'"
  unfolding ses_def hoare_def by fastforce

lemma ses_Inl: "ses P m Q E \<Longrightarrow> P s \<Longrightarrow> m (s, w) = Some (Inl e, (s', w')) \<Longrightarrow> E e s'"
  unfolding ses_def hoare_def by fastforce

lemma ses_weaken:
  "ses P' m Q' E' \<Longrightarrow> (\<And>s. P s \<Longrightarrow> P' s) \<Longrightarrow> (\<And>x s. Q' x s \<Longrightarrow> Q x s) \<Longrightarrow>
   (\<And>e s. E' e s \<Longrightarrow> E e s) \<Longrightarrow> ses P m Q E"
  unfolding ses_def by (rule hoare_weaken)

lemma ses_pre: "ses P' m Q E \<Longrightarrow> (\<And>s. P s \<Longrightarrow> P' s) \<Longrightarrow> ses P m Q E"
  by (erule ses_weaken)

lemma ses_bindP: "ses P m R E \<Longrightarrow> (\<And>x. ses (R x) (k x) Q E) \<Longrightarrow> ses P (bindP m k) Q E"
  unfolding ses_def by (rule hoare_bindP)

lemma ses_thenP: "ses P m (\<lambda>_. R) E \<Longrightarrow> ses R k Q E \<Longrightarrow> ses P (thenP m k) Q E"
  unfolding thenP_def by (rule ses_bindP)

lemma ses_getS: "(\<And>x. ses (\<lambda>s. P s \<and> f s = x) (k x) Q E) \<Longrightarrow> ses P (bindP (getS f) k) Q E"
  by (rule sesI) (auto simp: prog_simps dest: ses_Inr ses_Inl)

lemma ses_modS: "ses P' k Q E \<Longrightarrow> (\<And>s. P s \<Longrightarrow> P' (f s)) \<Longrightarrow> ses P (thenP (modS f) k) Q E"
  by (rule sesI) (auto simp: prog_simps dest: ses_Inr ses_Inl)

lemma ses_modS_last: "(\<And>s. P s \<Longrightarrow> Q () (f s)) \<Longrightarrow> ses P (modS f) Q E"
  by (rule sesI) (auto simp: prog_simps)

lemma ses_liftP:
  "(\<And>x. r = Inr x \<Longrightarrow> ses P (k x) Q E) \<Longrightarrow> (\<And>e s. r = Inl e \<Longrightarrow> P s \<Longrightarrow> E e s) \<Longrightarrow>
   ses P (bindP (liftP r) k) Q E"
  by (cases r) (auto simp: prog_simps intro!: sesI)

lemma ses_returnP: "(\<And>s. P s \<Longrightarrow> Q x s) \<Longrightarrow> ses P (returnP x) Q E"
  by (rule sesI) (auto simp: prog_simps)

lemma ses_raiseP: "(\<And>s. P s \<Longrightarrow> E e s) \<Longrightarrow> ses P (raiseP e) Q E"
  by (rule sesI) (auto simp: prog_simps)

lemma ses_if: "(c \<Longrightarrow> ses P m Q E) \<Longrightarrow> (\<not> c \<Longrightarrow> ses P m' Q E) \<Longrightarrow> ses P (if c then m else m') Q E"
  by simp

lemma ses_option:
  "(y = None \<Longrightarrow> ses P m Q E) \<Longrightarrow> (\<And>x. y = Some x \<Longrightarrow> ses P (k x) Q E) \<Longrightarrow>
   ses P (case y of None \<Rightarrow> m | Some x \<Rightarrow> k x) Q E"
  by (simp split: option.splits)

lemma ses_list:
  "(y = [] \<Longrightarrow> ses P m Q E) \<Longrightarrow> (\<And>x xs. y = x # xs \<Longrightarrow> ses P (k x xs) Q E) \<Longrightarrow>
   ses P (case y of [] \<Rightarrow> m | x # xs \<Rightarrow> k x xs) Q E"
  by (simp split: list.splits)

section \<open>Well-formed sessions\<close>

text \<open>
  The queue toward the supplicant is what is left of a record cut into \<open>n\<close> chunks once at
  least one was sent: consecutive chunks up to the last.
\<close>

definition queued :: "session \<Rightarrow> bool" where
  "queued s \<longleftrightarrow> down_outbox s = [] \<or>
     (\<exists>k cs. 1 \<le> k \<and> down_outbox s = List.enumerate k cs \<and> down_nchunks s = Some (k + length cs) \<and>
        down_total s \<noteq> None \<and> (\<forall>c \<in> set cs. length c \<le> 65000))"

definition regular :: "session \<Rightarrow> bool" where
  "regular s \<longleftrightarrow>
     1 \<le> upstream_fragment_size s \<and> upstream_fragment_size s \<le> 65000 \<and>
     1 \<le> downstream_fragment_size s \<and> downstream_fragment_size s \<le> 65000 \<and>
     octet_id (upstream_last_eap_req_id s) \<and> octet_id (down_last_req_id s) \<and>
     up_next_id s < 256 \<and> down_next_id s < 256"

definition sound :: "session \<Rightarrow> bool" where
  "sound s \<longleftrightarrow> regular s \<and> queued s"

text \<open>What the mediator never assigns.\<close>

definition same_identity :: "session \<Rightarrow> session \<Rightarrow> bool" where
  "same_identity s0 s \<longleftrightarrow>
     key s = key s0 \<and> mode s = mode s0 \<and> upstream_fragment_size s = upstream_fragment_size s0 \<and>
     downstream_fragment_size s = downstream_fragment_size s0 \<and>
     session_max_message_len s = session_max_message_len s0 \<and>
     downstream_state s = downstream_state s0 \<and> ap_address s = ap_address s0 \<and>
     ap_attrs s = ap_attrs s0 \<and> last_ap_authenticator s = last_ap_authenticator s0 \<and>
     max_message_len (up_reasm s) = max_message_len (up_reasm s0) \<and>
     max_message_len (down_reasm s) = max_message_len (down_reasm s0) \<and> started_at s = started_at s0"

lemma same_identity_refl [simp]: "same_identity s s"
  by (simp add: same_identity_def)

lemma same_identity_trans: "same_identity s0 s1 \<Longrightarrow> same_identity s1 s2 \<Longrightarrow> same_identity s0 s2"
  by (simp add: same_identity_def)

lemma same_but_upstream_identity: "same_but_upstream s s' \<Longrightarrow> same_identity s s'"
  unfolding same_but_upstream_def by (erule ssubst) (simp add: same_identity_def)

lemma new_session_sound:
  "1 \<le> u \<Longrightarrow> u \<le> 65000 \<Longrightarrow> 1 \<le> d \<Longrightarrow> d \<le> 65000 \<Longrightarrow> sound (new_session k m u d n a t)"
  by (simp add: sound_def regular_def new_session_def queued_def)

text \<open>A session in the hands of a handler that serves a Response under Identifier \<open>i\<close>.\<close>

definition attending :: "session \<Rightarrow> nat \<Rightarrow> session \<Rightarrow> bool" where
  "attending s0 i s \<longleftrightarrow>
     same_identity s0 s \<and> regular s \<and> down_next_id s = i \<and> down_last_req_id s = Some i"

definition serving :: "session \<Rightarrow> nat \<Rightarrow> session \<Rightarrow> bool" where
  "serving s0 i s \<longleftrightarrow> attending s0 i s \<and> queued s"

lemmas serving_defs = serving_def attending_def sound_def regular_def

text \<open>
  The discipline toward the supplicant: a Request is an EAP-TLS Request under the Identifier
  one above the supplicant's, reported as such; a terminal packet carries the supplicant's own.
\<close>

definition request_to :: "nat \<Rightarrow> outcome \<Rightarrow> bool" where
  "request_to i out \<longleftrightarrow>
     (case eap_bytes out of
        None \<Rightarrow> True
      | Some b \<Rightarrow>
          (case parse b of
             Inl e \<Rightarrow> False
           | Inr p \<Rightarrow> eap_code p = eap_code_value REQUEST \<and> eap_identifier p = (i + 1) mod 256 \<and>
               echo_id out = Some ((i + 1) mod 256)))"

definition terminal_to :: "nat \<Rightarrow> outcome \<Rightarrow> bool" where
  "terminal_to i out \<longleftrightarrow>
     (case eap_bytes out of
        None \<Rightarrow> True
      | Some b \<Rightarrow> (if 2 \<le> length b then unat (b ! 1) = i else True) \<and> echo_id out = Some i)"

definition disciplined :: "nat \<Rightarrow> outcome \<Rightarrow> bool" where
  "disciplined i out \<longleftrightarrow>
     (if action out = Accept \<or> action out = Reject then terminal_to i out else request_to i out)"

lemma disciplined_nothing [simp]: "disciplined i (mk_outcome a None j)"
  by (simp add: disciplined_def request_to_def terminal_to_def)

definition served :: "session \<Rightarrow> nat \<Rightarrow> outcome \<Rightarrow> session \<Rightarrow> bool" where
  "served s0 i out s \<longleftrightarrow> same_identity s0 s \<and> sound s \<and> disciplined i out"

text \<open>The exceptions the mediator raises itself, with the values each carries.\<close>

fun framing_error :: "eap_tls_reason \<Rightarrow> bool" where
  "framing_error (PacketTooShort n) = (n < 5)"
| "framing_error (NotEapTls t) = (t < 256 \<and> t \<noteq> 13)"
| "framing_error (LengthExceedsBuffer d n) = (5 \<le> n \<and> n < d \<and> d < 65536)"
| "framing_error MessageLengthTruncated = True"
| "framing_error (DeclaredTooLong n m) = (m < int n \<and> n < 4294967296)"
| "framing_error BufferExceeded = True"
| "framing_error BadFragmentSize = False"

fun own_error :: "py_error \<Rightarrow> bool" where
  "own_error (EapTlsError r) = framing_error r"
| "own_error IndexError = True"
| "own_error OverflowError = True"
| "own_error e = False"

definition failed :: "(py_error \<Rightarrow> bool) \<Rightarrow> session \<Rightarrow> py_error \<Rightarrow> session \<Rightarrow> bool" where
  "failed net_error s0 e s \<longleftrightarrow> same_identity s0 s \<and> sound s \<and> (own_error e \<or> net_error e)"

lemma serving_failed: "serving s0 i s \<Longrightarrow> own_error e \<Longrightarrow> failed net_error s0 e s"
  by (simp add: serving_defs failed_def)

lemma serving_octet: "serving s0 i s \<Longrightarrow> i < 256"
  by (auto simp: serving_defs)

section \<open>The methods that stay inside the session\<close>

lemma two_octets: "from_bytes_be (slice p 2 4) < 65536"
proof -
  have "from_bytes_be (slice p 2 4) < 256 ^ length (slice p 2 4)" by (rule from_bytes_be_bound)
  also have "\<dots> \<le> 256 ^ 2" by (rule power_increasing) (simp_all add: slice_length)
  finally show ?thesis by simp
qed

lemma four_octets: "from_bytes_be (slice p 6 10) < 4294967296"
proof -
  have "from_bytes_be (slice p 6 10) < 256 ^ length (slice p 6 10)" by (rule from_bytes_be_bound)
  also have "\<dots> \<le> 256 ^ 4" by (rule power_increasing) (simp_all add: slice_length)
  finally show ?thesis by simp
qed

lemma parse_error: "parse p = Inl e \<Longrightarrow> own_error e"
  using two_octets [of p]
  by (auto simp: parse_def Let_def EAP_HEADER_LEN_def EAP_TYPE_TLS_def split: if_splits)

definition parsed :: "eap_tls_packet \<Rightarrow> bool" where
  "parsed pkt \<longleftrightarrow> (\<forall>n. tls_message_length pkt = Some n \<longrightarrow> n < 4294967296)"

lemma parse_parsed: "parse p = Inr pkt \<Longrightarrow> parsed pkt"
  using four_octets [of p] by (auto simp: parse_def Let_def parsed_def EAP_TLS_MSGLEN_LEN_def split: if_splits)

lemma fragment_error: "1 \<le> n \<Longrightarrow> fragment m n \<noteq> Inl e"
  by (simp add: fragment_def)

lemma build_error:
  assumes "build c i d mf tml st = Inl e" and "c < 256" and "i < 256"
  shows "own_error e"
  using assms by (auto simp: build_def int_to_bytes_def py_bytes_def Let_def split: if_splits option.splits sum.splits)

lemma ingest_error: "ingest pkt r = Some (Inl e, r') \<Longrightarrow> parsed pkt \<Longrightarrow> own_error e"
  by (cases rule: ingest_cases [of pkt r])
    (auto simp: parsed_def declared_tml_def ingest_append_def prog_simps split: if_splits)

lemma serving_down_reasm:
  "serving s0 i s \<Longrightarrow> max_message_len x = max_message_len (down_reasm s) \<Longrightarrow> serving s0 i (s\<lparr>down_reasm := x\<rparr>)"
  by (simp add: serving_defs same_identity_def queued_def)

lemma serving_up_reasm:
  "serving s0 i s \<Longrightarrow> max_message_len x = max_message_len (up_reasm s) \<Longrightarrow> serving s0 i (s\<lparr>up_reasm := x\<rparr>)"
  by (simp add: serving_defs same_identity_def queued_def)

lemma serving_counters [simp]:
  "serving s0 i (s\<lparr>up := m\<rparr>) = serving s0 i s" "serving s0 i (s\<lparr>down := m\<rparr>) = serving s0 i s"
  "serving s0 i (s\<lparr>radius_state := st\<rparr>) = serving s0 i s"
  "serving s0 i (s\<lparr>pending_success := b\<rparr>) = serving s0 i s"
  "serving s0 i (s\<lparr>pending_failure := b\<rparr>) = serving s0 i s"
  "serving s0 i (finish res now s) = serving s0 i s"
  by (simp_all add: serving_defs same_identity_def queued_def finish_def)

lemma ses_on_down:
  "parsed pkt \<Longrightarrow> ses (serving s0 i) (on_down (ingest pkt)) (\<lambda>_. serving s0 i) (failed ne s0)"
proof (rule sesI)
  fix s w x s' w'
  assume pkt: "parsed pkt" and s: "serving s0 i s" and run: "on_down (ingest pkt) (s, w) = Some (Inr x, (s', w'))"
  then obtain r where "ingest pkt (down_reasm s) = Some (Inr x, r)" "s' = s\<lparr>down_reasm := r\<rparr>"
    by (auto simp: on_down_def onS_def zoomP_def split: option.splits)
  then show "serving s0 i s'" using s by (simp add: serving_down_reasm reasm.feed_limit)
next
  fix s w e s' w'
  assume pkt: "parsed pkt" and s: "serving s0 i s" and run: "on_down (ingest pkt) (s, w) = Some (Inl e, (s', w'))"
  then obtain r where "ingest pkt (down_reasm s) = Some (Inl e, r)" "s' = s\<lparr>down_reasm := r\<rparr>"
    by (auto simp: on_down_def onS_def zoomP_def split: option.splits)
  then show "failed ne s0 e s'"
    using s pkt by (intro serving_failed [where i = i]) (simp_all add: serving_down_reasm reasm.feed_limit ingest_error)
qed

lemma ses_on_up:
  "parsed pkt \<Longrightarrow> ses (serving s0 i) (on_up (ingest pkt)) (\<lambda>_. serving s0 i) (failed ne s0)"
proof (rule sesI)
  fix s w x s' w'
  assume pkt: "parsed pkt" and s: "serving s0 i s" and run: "on_up (ingest pkt) (s, w) = Some (Inr x, (s', w'))"
  then obtain r where "ingest pkt (up_reasm s) = Some (Inr x, r)" "s' = s\<lparr>up_reasm := r\<rparr>"
    by (auto simp: on_up_def onS_def zoomP_def split: option.splits)
  then show "serving s0 i s'" using s by (simp add: serving_up_reasm reasm.feed_limit)
next
  fix s w e s' w'
  assume pkt: "parsed pkt" and s: "serving s0 i s" and run: "on_up (ingest pkt) (s, w) = Some (Inl e, (s', w'))"
  then obtain r where "ingest pkt (up_reasm s) = Some (Inl e, r)" "s' = s\<lparr>up_reasm := r\<rparr>"
    by (auto simp: on_up_def onS_def zoomP_def split: option.splits)
  then show "failed ne s0 e s'"
    using s pkt by (intro serving_failed [where i = i]) (simp_all add: serving_up_reasm reasm.feed_limit ingest_error)
qed

lemma ses_response_id:
  "ses (serving s0 i) upstream_response_id (\<lambda>n s. serving s0 i s \<and> n < 256) (failed ne s0)"
  by (rule sesI)
    (auto simp: upstream_response_id_def prog_simps next_up_id_eq serving_defs same_identity_def
      queued_def split: option.splits)

lemma ses_finish_now: "ses (serving s0 i) (finish_now clk res) (\<lambda>_. serving s0 i) (failed ne s0)"
  by (rule sesI)
    (auto simp: finish_now_def bindP_def ioP_apply modS_apply split: prod.splits)

lemma ses_stash: "ses (serving s0 i) (stash_terminal clk reply) (\<lambda>_. serving s0 i) (failed ne s0)"
  unfolding stash_terminal_def
  by (intro ses_if ses_thenP [OF ses_finish_now] ses_modS_last) simp_all

lemma restamp_octet:
  assumes "down_last_req_id s = Some i" and "i < 256"
  shows "\<exists>r. restamp_terminal s eap = Inr r \<and>
    (\<forall>e. r = Some e \<longrightarrow> 2 \<le> length e \<longrightarrow> unat (e ! 1) = i)"
proof (cases eap)
  case (Some e)
  then show ?thesis
    using assms by (cases e) (auto simp: restamp_terminal_def py_bytes_def unat_byte_of_nat nth_append Let_def
      numeral_2_eq_2)
qed (simp add: restamp_terminal_def)

lemma ses_terminal:
  assumes "a = Accept \<or> a = Reject"
  shows "ses (serving s0 i) (terminal_outcome a pend) (served s0 i) (failed ne s0)"
proof (rule sesI)
  fix s w out s' w'
  assume s: "serving s0 i s" and run: "terminal_outcome a pend (s, w) = Some (Inr out, (s', w'))"
  obtain r where r: "restamp_terminal s (pend s) = Inr r" "\<forall>e. r = Some e \<longrightarrow> 2 \<le> length e \<longrightarrow> unat (e ! 1) = i"
    using restamp_octet [of s i "pend s"] s serving_octet [OF s] by (auto simp: serving_defs)
  then have "out = mk_outcome a r (Some i)" "s' = s"
    using run s by (auto simp: terminal_outcome_def prog_simps serving_defs)
  then show "served s0 i out s'"
    using s r(2) assms by (auto simp: served_def serving_defs disciplined_def terminal_to_def split: option.splits)
next
  fix s w e s' w'
  assume s: "serving s0 i s" and run: "terminal_outcome a pend (s, w) = Some (Inl e, (s', w'))"
  obtain r where "restamp_terminal s (pend s) = Inr r"
    using restamp_octet [of s i "pend s"] s serving_octet [OF s] by (auto simp: serving_defs)
  then show "failed ne s0 e s'" using run by (simp add: terminal_outcome_def prog_simps)
qed


section \<open>The queue toward the supplicant\<close>

text \<open>Sending chunk \<open>k\<close> of what remains: the frame may only fail on a 4 GiB total.\<close>

definition at_chunk :: "nat \<Rightarrow> bytes list \<Rightarrow> nat \<Rightarrow> session \<Rightarrow> bool" where
  "at_chunk k cs t s \<longleftrightarrow> down_outbox s = List.enumerate k cs \<and> down_nchunks s = Some (k + length cs) \<and>
     down_total s = Some t \<and> (\<forall>c \<in> set cs. length c \<le> 65000)"

lemma queued_at_chunk: "queued s \<longleftrightarrow> down_outbox s = [] \<or> (\<exists>k cs t. 1 \<le> k \<and> at_chunk k cs t s)"
  by (auto simp: queued_def at_chunk_def)

lemma send_next_fails:
  assumes "at_chunk k (c # cs) t s"
    and "frame_chunk (eap_code_value REQUEST) ((down_next_id s + 1) mod 256) t (k + length (c # cs)) k c = Inl e"
  shows "send_next_downstream_fragment (s, w) =
    Some (Inl e, (s\<lparr>down_outbox := List.enumerate (Suc k) cs, down_next_id := (down_next_id s + 1) mod 256\<rparr>, w))"
  using assms
  by (cases "k = 0") (simp_all add: send_next_downstream_fragment_def at_chunk_def prog_simps next_down_id_run
      bindP_Some_Inr frame_chunk_def Let_def)

lemma send_next_outcome:
  assumes "attending s0 i s" and "at_chunk k (c # cs) t s"
  shows "\<exists>r s'. send_next_downstream_fragment (s, w) = Some (r, (s', w)) \<and> same_identity s0 s' \<and> sound s' \<and>
    (case r of Inl e \<Rightarrow> own_error e | Inr out \<Rightarrow> disciplined i out)"
proof -
  have id: "down_next_id s = i" "i < 256" using assms(1) by (auto simp: serving_defs)
  have rest: "(k + 1 < k + length (c # cs)) = (List.enumerate (Suc k) cs \<noteq> [])" by (cases cs) simp_all
  have queue: "queued s'" if "down_outbox s' = List.enumerate (Suc k) cs" "down_nchunks s' = down_nchunks s"
    "down_total s' = down_total s" for s'
    unfolding queued_at_chunk using assms(2) that
    by (intro disjI2 exI [of _ "Suc k"] exI [of _ cs] exI [of _ t]) (simp add: at_chunk_def)
  have keep: "same_identity s0 s' \<and> sound s'" if "queued s'" "same_identity s s'"
    "upstream_last_eap_req_id s' = upstream_last_eap_req_id s" "down_last_req_id s' = down_last_req_id s"
    "up_next_id s' = up_next_id s" "down_next_id s' < 256" for s'
    using assms(1) that same_identity_trans by (auto simp: serving_defs same_identity_def)
  show ?thesis
  proof (cases "frame_chunk (eap_code_value REQUEST) ((i + 1) mod 256) t (k + length (c # cs)) k c")
    case (Inl e)
    let ?s' = "s\<lparr>down_outbox := List.enumerate (Suc k) cs, down_next_id := (i + 1) mod 256\<rparr>"
    have "own_error e" using Inl by (auto simp: frame_chunk_def intro: build_error)
    moreover have "send_next_downstream_fragment (s, w) = Some (Inl e, (?s', w))"
      using send_next_fails [OF assms(2), of e w] Inl id(1) by simp
    moreover have "same_identity s0 ?s' \<and> sound ?s'"
      by (rule keep) (simp_all add: queue same_identity_def)
    ultimately show ?thesis by force
  next
    case (Inr wire)
    let ?s' = "sent_fragment ((i + 1) mod 256) (List.enumerate (Suc k) cs) (k + length (c # cs)) s"
    have "send_next_downstream_fragment (s, w) =
        Some (Inr (mk_outcome Challenge (Some wire) (Some ((i + 1) mod 256))), (?s', w))"
      using send_next_run [OF _ _ _ _ rest, of s c t wire w] assms(2) Inr id(1) by (simp add: at_chunk_def)
    moreover have "disciplined i (mk_outcome Challenge (Some wire) (Some ((i + 1) mod 256)))"
      using parse_frame_chunk [OF Inr] by (simp add: disciplined_def request_to_def chunk_packet_def)
    moreover have "same_identity s0 ?s' \<and> sound ?s'"
      by (rule keep) (simp_all add: queue same_identity_def sent_fragment_def)
    ultimately show ?thesis by force
  qed
qed

lemma ses_send_chunk:
  "ses (\<lambda>s. attending s0 i s \<and> at_chunk k (c # cs) t s) send_next_downstream_fragment (served s0 i) (failed ne s0)"
proof (rule sesI)
  fix s w out s' w'
  assume "attending s0 i s \<and> at_chunk k (c # cs) t s"
    and "send_next_downstream_fragment (s, w) = Some (Inr out, (s', w'))"
  then show "served s0 i out s'"
    using send_next_outcome [of s0 i s k c cs t w] by (auto simp: served_def)
next
  fix s w e s' w'
  assume "attending s0 i s \<and> at_chunk k (c # cs) t s"
    and "send_next_downstream_fragment (s, w) = Some (Inl e, (s', w'))"
  then show "failed ne s0 e s'"
    using send_next_outcome [of s0 i s k c cs t w] by (auto simp: failed_def)
qed


lemma ses_cases: "(\<And>s. P s \<Longrightarrow> \<exists>y. P' y s) \<Longrightarrow> (\<And>y. ses (P' y) m Q E) \<Longrightarrow> ses P m Q E"
  by (rule sesI) (blast dest: ses_Inr ses_Inl)+

lemma ses_send_next: "ses (serving s0 i) send_next_downstream_fragment (served s0 i) (failed ne s0)"
proof (rule sesI)
  fix s w out s' w'
  assume s: "serving s0 i s" and run: "send_next_downstream_fragment (s, w) = Some (Inr out, (s', w'))"
  then have "queued s" "attending s0 i s" by (simp_all add: serving_def)
  then consider "down_outbox s = []" | k c cs t where "at_chunk k (c # cs) t s"
    unfolding queued_at_chunk by (metis at_chunk_def enumerate_simps(1) list.exhaust)
  then show "served s0 i out s'"
  proof cases
    case 1
    then have "out = mk_outcome Ack None None" "s' = s"
      using run by (simp_all add: send_next_downstream_fragment_def prog_simps)
    then show ?thesis using s by (simp add: served_def serving_defs)
  next
    case 2
    show ?thesis by (rule ses_Inr [OF ses_send_chunk _ run]) (use 2 s in \<open>auto simp: serving_def\<close>)
  qed
next
  fix s w e s' w'
  assume s: "serving s0 i s" and run: "send_next_downstream_fragment (s, w) = Some (Inl e, (s', w'))"
  then have "queued s" "attending s0 i s" by (simp_all add: serving_def)
  then consider "down_outbox s = []" | k c cs t where "at_chunk k (c # cs) t s"
    unfolding queued_at_chunk by (metis at_chunk_def enumerate_simps(1) list.exhaust)
  then show "failed ne s0 e s'"
  proof cases
    case 1
    then show ?thesis using run by (simp add: send_next_downstream_fragment_def prog_simps)
  next
    case 2
    show ?thesis by (rule ses_Inl [OF ses_send_chunk _ run]) (use 2 s in \<open>auto simp: serving_def\<close>)
  qed
qed

lemma attending_queue_fields [simp]:
  "attending s0 i (s\<lparr>down_outbox := box\<rparr>) = attending s0 i s"
  "attending s0 i (s\<lparr>down_total := n\<rparr>) = attending s0 i s"
  "attending s0 i (s\<lparr>down_nchunks := n\<rparr>) = attending s0 i s"
  by (simp_all add: attending_def same_identity_def regular_def)

lemma ses_begin: "ses (serving s0 i) (begin_downstream_fragmentation d) (served s0 i) (failed ne s0)"
  unfolding begin_downstream_fragmentation_def
proof (intro ses_getS ses_liftP)
  fix r :: "py_error + bytes list" and chunks
  assume r: "r = Inr chunks"
  show "ses (\<lambda>s. serving s0 i s \<and> fragment d (downstream_fragment_size s) = r)
      (thenP (modS (\<lambda>s. s\<lparr>down_outbox := List.enumerate 0 chunks\<rparr>))
        (thenP (modS (\<lambda>s. s\<lparr>down_total := Some (length d)\<rparr>))
          (thenP (modS (\<lambda>s. s\<lparr>down_nchunks := Some (length chunks)\<rparr>)) send_next_downstream_fragment)))
      (served s0 i) (failed ne s0)"
  proof (cases chunks)
    case Nil
    then show ?thesis using r fragment_nonempty by (intro sesI) auto
  next
    case (Cons c cs)
    have small: "length x \<le> 65000" if "fragment d (downstream_fragment_size s) = Inr chunks" "serving s0 i s"
      "x \<in> set chunks" for s x
      using fragment_chunk_le [OF that(1,3)] that(2) by (auto simp: serving_defs)
    show ?thesis
      by (rule ses_modS [where P' = "\<lambda>s. attending s0 i s \<and> down_outbox s = List.enumerate 0 chunks \<and>
            (\<forall>x \<in> set chunks. length x \<le> 65000)"],
          rule ses_modS [where P' = "\<lambda>s. attending s0 i s \<and> down_outbox s = List.enumerate 0 chunks \<and>
            down_total s = Some (length d) \<and> (\<forall>x \<in> set chunks. length x \<le> 65000)"],
          rule ses_modS [OF ses_send_chunk [where k = 0 and c = c and cs = cs and t = "length d"]])
        (use small r in \<open>auto simp: serving_def at_chunk_def Cons\<close>)
  qed
next
  fix r :: "py_error + bytes list" and e s
  assume "r = Inl e" and "serving s0 i s \<and> fragment d (downstream_fragment_size s) = r"
  then show "failed ne s0 e s" using fragment_error by (auto simp: serving_defs)
qed

lemma ses_deliver: "ses (serving s0 i) (deliver_record d) (served s0 i) (failed ne s0)"
  unfolding deliver_record_def by (rule ses_modS [OF ses_begin]) simp


section \<open>The methods that talk to the server\<close>

text \<open>An exception of the upstream leg, on an exchange made for the session.\<close>

definition send_error ::
  "'w sender \<Rightarrow> string \<Rightarrow> string option \<Rightarrow> string option \<Rightarrow> session \<Rightarrow> py_error \<Rightarrow> bool" where
  "send_error send u ca ce s0 e \<longleftrightarrow>
     (\<exists>eap st s w sw'. same_identity s0 s \<and> send eap u st ca ce (s, w) = Some (Inl e, sw'))"

lemma serving_same_but_upstream:
  assumes "serving s0 i s" and "same_but_upstream s s'" and "octet_id (upstream_last_eap_req_id s')"
  shows "serving s0 i s'"
proof -
  obtain j a b c where eq: "s' = s\<lparr>upstream_last_eap_req_id := j, ms_mppe_send_key := a,
      ms_mppe_recv_key := b, upstream_round_trips := c\<rparr>"
    using assms(2) by (rule same_but_upstreamE)
  then have "octet_id j" using assms(3) by simp
  then show ?thesis
    using assms(1) unfolding eq by (clarsimp simp: serving_defs same_identity_def queued_def)
qed

definition intact :: "session \<Rightarrow> session \<Rightarrow> bool" where
  "intact s0 s \<longleftrightarrow> same_identity s0 s \<and> sound s"

lemma intact_counters [simp]:
  "intact s0 (s\<lparr>up := m\<rparr>) = intact s0 s" "intact s0 (s\<lparr>down := m\<rparr>) = intact s0 s"
  "intact s0 (s\<lparr>radius_state := st\<rparr>) = intact s0 s" "intact s0 (finish res now s) = intact s0 s"
  by (simp_all add: intact_def same_identity_def sound_def regular_def queued_def finish_def)

lemma intact_same_but_upstream:
  assumes "intact s0 s" and "same_but_upstream s s'" and "octet_id (upstream_last_eap_req_id s')"
  shows "intact s0 s'"
proof -
  obtain j a b c where eq: "s' = s\<lparr>upstream_last_eap_req_id := j, ms_mppe_send_key := a,
      ms_mppe_recv_key := b, upstream_round_trips := c\<rparr>"
    using assms(2) by (rule same_but_upstreamE)
  then have "octet_id j" using assms(3) by simp
  then show ?thesis
    using assms(1) unfolding eq
    by (clarsimp simp: intact_def same_identity_def sound_def regular_def queued_def)
qed

lemma ses_finish_intact: "ses (intact s0) (finish_now clk res) (\<lambda>_. intact s0) (failed ne s0)"
  by (rule sesI)
    (auto simp: finish_now_def bindP_def ioP_apply modS_apply split: prod.splits)

lemma build_ack_octet: "c < 256 \<Longrightarrow> n < 256 \<Longrightarrow> \<exists>ack. build_ack c n = Inr ack"
  using parse_build_ack by blast

context upstream_leg
begin

lemma ses_exchange:
  "ses (serving s0 i) (exchange send eap u ca ce) (\<lambda>r s. serving s0 i s \<and> well_formed_reply r)
     (failed (send_error send u ca ce s0) s0)"
proof (rule sesI)
  fix s w r s' w'
  assume s: "serving s0 i s" and run: "exchange send eap u ca ce (s, w) = Some (Inr r, (s', w'))"
  then obtain s1 where sent: "send eap u (radius_state s) ca ce (s, w) = Some (Inr r, (s1, w'))"
    and s': "s' = s1\<lparr>radius_state := reply_state r\<rparr>"
    by (auto simp: exchange_def prog_simps bindP_eq_Some_Inr)
  have "serving s0 i s1"
    using s send_octet [OF sent]
    by (intro serving_same_but_upstream [OF s send_frame [OF sent]]) (auto simp: serving_defs)
  then show "serving s0 i s' \<and> well_formed_reply r" using s' send_reply [OF sent] by simp
next
  fix s w e s' w'
  assume s: "serving s0 i s" and run: "exchange send eap u ca ce (s, w) = Some (Inl e, (s', w'))"
  then have sent: "send eap u (radius_state s) ca ce (s, w) = Some (Inl e, (s', w'))"
    by (auto simp: exchange_def prog_simps bindP_eq_Some_Inl)
  have "serving s0 i s'"
    using s send_octet [OF sent]
    by (intro serving_same_but_upstream [OF s send_frame [OF sent]]) (auto simp: serving_defs)
  then show "failed (send_error send u ca ce s0) s0 e s'"
    using sent s by (fastforce simp: failed_def serving_def attending_def sound_def send_error_def)
qed

lemma ses_drain_ack:
  "ses (serving s0 i) (drain_ack send u ca ce) (\<lambda>r s. serving s0 i s \<and> well_formed_reply r)
     (failed (send_error send u ca ce s0) s0)"
  unfolding drain_ack_def
proof (rule ses_bindP [OF ses_response_id], rule ses_liftP)
  fix n ack
  show "ses (\<lambda>s. serving s0 i s \<and> n < 256)
     (thenP (modS (\<lambda>s. s\<lparr>down := (down s)\<lparr>acks_generated := acks_generated (down s) + 1\<rparr>\<rparr>))
       (exchange send ack u ca ce))
     (\<lambda>r s. serving s0 i s \<and> well_formed_reply r) (failed (send_error send u ca ce s0) s0)"
    by (rule ses_modS [OF ses_exchange]) simp
next
  fix n e s
  assume "build_ack (eap_code_value RESPONSE) n = Inl e" and "serving s0 i s \<and> n < 256"
  then show "failed (send_error send u ca ce s0) s0 e s" using build_ack_octet [of 2 n] by auto
qed

lemma ses_drain_body:
  assumes "\<And>pkt. ses (serving s0 i) (f pkt) (\<lambda>_. serving s0 i) (failed (send_error send u ca ce s0) s0)"
  shows "ses (serving s0 i)
     (if more_fragments p then
        bindP (drain_ack send u ca ce) (\<lambda>reply.
          if accept reply \<or> reject reply then thenP (stash_terminal clk reply) (returnP None)
          else
            case eap_messages reply of
              [] \<Rightarrow> bindP (getS (\<lambda>s. buffer (down_reasm s))) (\<lambda>b. returnP (Some b))
            | m # ms \<Rightarrow>
                bindP (liftP (parse m)) (\<lambda>pkt.
                bindP (on_down (ingest pkt)) (\<lambda>complete.
                  case complete of
                    None \<Rightarrow> f pkt
                  | Some d \<Rightarrow> returnP (Some d))))
      else bindP (getS (\<lambda>s. buffer (down_reasm s))) (\<lambda>b. returnP (Some b)))
     (\<lambda>_. serving s0 i) (failed (send_error send u ca ce s0) s0)"
proof -
  have on_reply: "ses (\<lambda>s. serving s0 i s \<and> well_formed_reply reply)
      (if accept reply \<or> reject reply then thenP (stash_terminal clk reply) (returnP None)
       else
         case eap_messages reply of
           [] \<Rightarrow> bindP (getS (\<lambda>s. buffer (down_reasm s))) (\<lambda>b. returnP (Some b))
         | m # ms \<Rightarrow>
             bindP (liftP (parse m)) (\<lambda>pkt.
             bindP (on_down (ingest pkt)) (\<lambda>complete.
               case complete of None \<Rightarrow> f pkt | Some d \<Rightarrow> returnP (Some d))))
      (\<lambda>_. serving s0 i) (failed (send_error send u ca ce s0) s0)" for reply
    by (rule ses_pre [where P' = "serving s0 i"],
        intro ses_if ses_thenP [OF ses_stash] ses_list ses_getS ses_returnP ses_liftP
          ses_bindP [OF ses_on_down] ses_option assms)
      (auto intro: serving_failed parse_error parse_parsed)
  show ?thesis
    by (intro ses_if ses_bindP [OF ses_drain_ack on_reply] ses_getS ses_returnP) simp
qed

lemma ses_drain:
  "ses (serving s0 i) (drain_upstream_fragments send clk u ca ce pkt) (\<lambda>_. serving s0 i)
     (failed (send_error send u ca ce s0) s0)"
proof -
  let ?P = "\<lambda>send' clk u ca ce p sw y. send' = send \<and> serving s0 i (fst sw) \<longrightarrow>
      (case fst y of Inl e \<Rightarrow> failed (send_error send u ca ce s0) s0 e (fst (snd y)) | Inr x \<Rightarrow> serving s0 i (fst (snd y)))"
  have step: "?P send clk u ca ce pkt sw y" if "drain_upstream_fragments send clk u ca ce pkt sw = Some y" for sw y
  proof (rule drain_upstream_fragments.raw_induct [OF _ that, where P = ?P])
    fix f send' clk u ca ce p sw y
    assume hyp: "\<And>send clk u ca ce p sw y. f send clk u ca ce p sw = Some y \<Longrightarrow> ?P send clk u ca ce p sw y"
      and run: "(if more_fragments p then
        bindP (drain_ack send' u ca ce) (\<lambda>reply.
          if accept reply \<or> reject reply then thenP (stash_terminal clk reply) (returnP None)
          else
            case eap_messages reply of
              [] \<Rightarrow> bindP (getS (\<lambda>s. buffer (down_reasm s))) (\<lambda>b. returnP (Some b))
            | m # ms \<Rightarrow>
                bindP (liftP (parse m)) (\<lambda>pkt.
                bindP (on_down (ingest pkt)) (\<lambda>complete.
                  case complete of
                    None \<Rightarrow> f send' clk u ca ce pkt
                  | Some d \<Rightarrow> returnP (Some d))))
      else bindP (getS (\<lambda>s. buffer (down_reasm s))) (\<lambda>b. returnP (Some b))) sw = Some y"
    have IH: "ses (serving s0 i) (f send clk u ca ce pkt) (\<lambda>_. serving s0 i) (failed (send_error send u ca ce s0) s0)" for pkt
      by (intro sesI) (drule hyp, simp)+
    show "?P send' clk u ca ce p sw y"
    proof (intro impI, elim conjE)
      assume eq: "send' = send" and s: "serving s0 i (fst sw)"
      note body = ses_drain_body [where f = "f send clk u ca ce" and p = p and u = u and ca = ca and ce = ce and clk = clk, OF IH]
      show "case fst y of Inl e \<Rightarrow> failed (send_error send u ca ce s0) s0 e (fst (snd y)) | Inr x \<Rightarrow> serving s0 i (fst (snd y))"
        using run ses_Inr [OF body, of "fst sw" "snd sw"] ses_Inl [OF body, of "fst sw" "snd sw"] s
        unfolding eq by (cases y; cases "fst y"; cases "snd y") auto
    qed
  qed
  then show ?thesis by (intro sesI) fastforce+
qed

lemma ses_handle_reply:
  assumes "\<And>r. reply_opt = Some r \<Longrightarrow> well_formed_reply r"
  shows "ses (serving s0 i) (handle_upstream_reply send clk reply_opt u ca ce) (served s0 i)
     (failed (send_error send u ca ce s0) s0)"
  unfolding handle_upstream_reply_def
  by (intro ses_option ses_if ses_returnP ses_thenP [OF ses_stash] ses_terminal ses_list ses_liftP
      ses_bindP [OF ses_on_down] ses_deliver ses_bindP [OF ses_drain] ses_getS
      ses_pre [where P = "\<lambda>s. serving s0 i s \<and> _ s" and P' = "serving s0 i"])
    (auto simp: served_def serving_def attending_def sound_def intro: serving_failed parse_error parse_parsed)

lemma ses_forward_chunks:
  assumes "\<forall>c \<in> set (map snd cs). length c \<le> 65000" and "\<And>r. rep = Some r \<Longrightarrow> well_formed_reply r"
  shows "ses (serving s0 i) (forward_chunks send u ca ce n t rep cs)
     (\<lambda>r s. serving s0 i s \<and> (\<forall>x. r = Some x \<longrightarrow> well_formed_reply x)) (failed (send_error send u ca ce s0) s0)"
  using assms
proof (induction cs arbitrary: rep)
  case Nil
  then show ?case by (auto intro: ses_returnP)
next
  case (Cons c cs)
  have rest: "ses (\<lambda>s. serving s0 i s \<and> well_formed_reply r) (forward_chunks send u ca ce n t (Some r) cs)
     (\<lambda>r s. serving s0 i s \<and> (\<forall>x. r = Some x \<longrightarrow> well_formed_reply x)) (failed (send_error send u ca ce s0) s0)" for r
    by (cases "well_formed_reply r") (use Cons in \<open>auto intro: ses_pre sesI\<close>)
  have "ses (\<lambda>s. serving s0 i s \<and> up_id < 256)
      (bindP (liftP (build (eap_code_value RESPONSE) up_id (snd c) (fst c + 1 < n)
                    (if fst c = 0 then Some t else None) False)) (\<lambda>eap_frag.
       thenP (modS (\<lambda>s. s\<lparr>up := (up s)\<lparr>fragments_out := fragments_out (up s) + 1\<rparr>\<rparr>))
       (bindP (exchange send eap_frag u ca ce) (\<lambda>r. forward_chunks send u ca ce n t (Some r) cs))))
     (\<lambda>r s. serving s0 i s \<and> (\<forall>x. r = Some x \<longrightarrow> well_formed_reply x)) (failed (send_error send u ca ce s0) s0)" for up_id
    by (rule ses_liftP, rule ses_modS [OF ses_bindP [OF ses_exchange rest]])
      (auto intro!: serving_failed intro: build_error)
  then show ?case by (simp add: ses_bindP [OF ses_response_id])
qed

lemma ses_forward_record:
  "ses (serving s0 i) (forward_record_upstream send clk d u ca ce) (served s0 i) (failed (send_error send u ca ce s0) s0)"
  unfolding forward_record_upstream_def
proof (intro ses_getS ses_liftP)
  fix r :: "py_error + bytes list" and chunks
  assume r: "r = Inr chunks"
  have on_reply: "ses (\<lambda>s. serving s0 i s \<and> (\<forall>x. reply = Some x \<longrightarrow> well_formed_reply x))
      (handle_upstream_reply send clk reply u ca ce) (served s0 i) (failed (send_error send u ca ce s0) s0)" for reply
  proof (cases "\<forall>x. reply = Some x \<longrightarrow> well_formed_reply x")
    case True
    then show ?thesis by (intro ses_pre [OF ses_handle_reply]) auto
  qed (auto intro: sesI)
  have "ses (\<lambda>s. serving s0 i s \<and> (\<forall>c \<in> set chunks. length c \<le> 65000))
     (bindP (forward_chunks send u ca ce (length chunks) (length d) None (List.enumerate 0 chunks))
        (\<lambda>reply. handle_upstream_reply send clk reply u ca ce)) (served s0 i) (failed (send_error send u ca ce s0) s0)"
  proof (cases "\<forall>c \<in> set chunks. length c \<le> 65000")
    case True
    then show ?thesis by (intro ses_pre [OF ses_bindP [OF ses_forward_chunks on_reply]]) auto
  qed (auto intro: sesI)
  then show "ses (\<lambda>s. serving s0 i s \<and> fragment d (upstream_fragment_size s) = r)
     (bindP (forward_chunks send u ca ce (length chunks) (length d) None (List.enumerate 0 chunks))
        (\<lambda>reply. handle_upstream_reply send clk reply u ca ce)) (served s0 i) (failed (send_error send u ca ce s0) s0)"
    by (rule ses_pre) (use r fragment_chunk_le in \<open>fastforce simp: serving_defs\<close>)
next
  fix r :: "py_error + bytes list" and e s
  assume "r = Inl e" and "serving s0 i s \<and> fragment d (upstream_fragment_size s) = r"
  then show "failed (send_error send u ca ce s0) s0 e s" using fragment_error by (auto simp: serving_defs)
qed

lemma ses_supplicant_ack:
  "ses (serving s0 i) (supplicant_ack send clk u ca ce) (served s0 i) (failed (send_error send u ca ce s0) s0)"
proof -
  have poll: "ses (serving s0 i)
     (bindP upstream_response_id (\<lambda>up_id.
        bindP (liftP (build_ack (eap_code_value RESPONSE) up_id)) (\<lambda>ack.
        bindP (exchange send ack u ca ce) (\<lambda>reply.
        handle_upstream_reply send clk (Some reply) u ca ce))))
     (served s0 i) (failed (send_error send u ca ce s0) s0)"
  proof (rule ses_bindP [OF ses_response_id], rule ses_liftP)
    fix n ack
    have "ses (\<lambda>s. serving s0 i s \<and> well_formed_reply reply)
        (handle_upstream_reply send clk (Some reply) u ca ce) (served s0 i) (failed (send_error send u ca ce s0) s0)" for reply
      by (cases "well_formed_reply reply") (auto intro: ses_pre [OF ses_handle_reply] sesI)
    then show "ses (\<lambda>s. serving s0 i s \<and> n < 256)
        (bindP (exchange send ack u ca ce) (\<lambda>reply. handle_upstream_reply send clk (Some reply) u ca ce))
        (served s0 i) (failed (send_error send u ca ce s0) s0)"
      by (intro ses_pre [OF ses_bindP [OF ses_exchange]]) auto
  next
    fix n e s
    assume "build_ack (eap_code_value RESPONSE) n = Inl e" and "serving s0 i s \<and> n < 256"
    then show "failed (send_error send u ca ce s0) s0 e s" using build_ack_octet [of 2 n] by auto
  qed
  show ?thesis
    unfolding supplicant_ack_def
    by (intro ses_getS ses_if ses_pre [OF ses_send_next] ses_pre [OF ses_terminal] ses_pre [OF poll]) auto
qed

lemma ses_supplicant_data:
  assumes "parsed pkt"
  shows "ses (serving s0 i) (supplicant_data send clk pkt u ca ce) (served s0 i) (failed (send_error send u ca ce s0) s0)"
proof -
  let ?bump = "\<lambda>s. s\<lparr>up := (up s)\<lparr>acks_generated := acks_generated (up s) + 1\<rparr>\<rparr>"
  have ack: "ses (serving s0 i)
     (bindP (onS next_down_id) (\<lambda>ack_id.
        bindP (liftP (build_ack (eap_code_value REQUEST) ack_id)) (\<lambda>ack.
        returnP (mk_outcome Ack (Some ack) (Some ack_id)))))
     (served s0 i) (failed (send_error send u ca ce s0) s0)"
  proof (rule sesI)
    fix s w out s' w'
    assume s: "serving s0 i s" and run: "bindP (onS next_down_id) (\<lambda>ack_id.
        bindP (liftP (build_ack (eap_code_value REQUEST) ack_id)) (\<lambda>ack.
        returnP (mk_outcome Ack (Some ack) (Some ack_id)))) (s, w) = Some (Inr out, (s', w'))"
    obtain a p where a: "build_ack 1 ((i + 1) mod 256) = Inr a" "parse a = Inr p" "eap_code p = 1"
      "eap_identifier p = (i + 1) mod 256"
      using parse_build_ack [of 1 "(i + 1) mod 256"] by auto
    have "down_next_id s = i" using s by (simp add: serving_defs)
    then have "out = mk_outcome Ack (Some a) (Some ((i + 1) mod 256))"
      "s' = s\<lparr>down_next_id := (i + 1) mod 256\<rparr>"
      using run a(1) by (simp_all add: bindP_Some_Inr next_down_id_run prog_simps)
    then show "served s0 i out s'"
      using s a by (simp add: served_def serving_defs disciplined_def request_to_def same_identity_def queued_def)
  next
    fix s w e s' w'
    assume s: "serving s0 i s" and run: "bindP (onS next_down_id) (\<lambda>ack_id.
        bindP (liftP (build_ack (eap_code_value REQUEST) ack_id)) (\<lambda>ack.
        returnP (mk_outcome Ack (Some ack) (Some ack_id)))) (s, w) = Some (Inl e, (s', w'))"
    obtain a where "build_ack 1 ((down_next_id s + 1) mod 256) = Inr a"
      using parse_build_ack [of 1 "(down_next_id s + 1) mod 256"] by auto
    then show "failed (send_error send u ca ce s0) s0 e s'"
      using run by (simp add: bindP_Some_Inr next_down_id_run prog_simps)
  qed
  show ?thesis
    unfolding supplicant_data_def
    by (intro ses_bindP [OF ses_on_up [OF assms]] ses_option ses_modS [OF ack] ses_modS [OF ses_forward_record]) simp_all
qed

lemma ses_handle:
  assumes "parse eap = Inr pkt" and "mode s0 \<noteq> ''passthrough''"
  shows "ses (\<lambda>s. s = s0 \<and> sound s) (handle_supplicant_eap send clk eap u ca ce)
     (served s0 (eap_identifier pkt)) (failed (send_error send u ca ce s0) s0)"
proof -
  have enter: "serving s0 (eap_identifier pkt) (entered pkt s0)" if "sound s0"
    using that parse_ids [OF assms(1)]
    by (simp add: serving_defs same_identity_def queued_def entered_def)
  show ?thesis
  proof (rule sesI)
    fix s w out s' w'
    assume s: "s = s0 \<and> sound s" and run: "handle_supplicant_eap send clk eap u ca ce (s, w) = Some (Inr out, (s', w'))"
    then show "served s0 (eap_identifier pkt) out s'"
      using enter assms ses_Inr [OF ses_supplicant_ack] ses_Inr [OF ses_supplicant_data [OF parse_parsed [OF assms(1)]]]
      by (auto simp: handle_reassemble split: if_splits)
  next
    fix s w e s' w'
    assume s: "s = s0 \<and> sound s" and run: "handle_supplicant_eap send clk eap u ca ce (s, w) = Some (Inl e, (s', w'))"
    then show "failed (send_error send u ca ce s0) s0 e s'"
      using enter assms ses_Inl [OF ses_supplicant_ack] ses_Inl [OF ses_supplicant_data [OF parse_parsed [OF assms(1)]]]
      by (auto simp: handle_reassemble split: if_splits)
  qed
qed

lemma ses_exchange_intact:
  "ses (intact s0) (exchange send eap u ca ce) (\<lambda>_. intact s0) (failed (send_error send u ca ce s0) s0)"
proof (rule sesI)
  fix s w r s' w'
  assume s: "intact s0 s" and run: "exchange send eap u ca ce (s, w) = Some (Inr r, (s', w'))"
  then obtain s1 where sent: "send eap u (radius_state s) ca ce (s, w) = Some (Inr r, (s1, w'))"
    and s': "s' = s1\<lparr>radius_state := reply_state r\<rparr>"
    by (auto simp: exchange_def prog_simps bindP_eq_Some_Inr)
  have "intact s0 s1"
    using s send_octet [OF sent]
    by (intro intact_same_but_upstream [OF s send_frame [OF sent]]) (auto simp: intact_def sound_def regular_def)
  then show "intact s0 s'" using s' by simp
next
  fix s w e s' w'
  assume s: "intact s0 s" and run: "exchange send eap u ca ce (s, w) = Some (Inl e, (s', w'))"
  then have sent: "send eap u (radius_state s) ca ce (s, w) = Some (Inl e, (s', w'))"
    by (auto simp: exchange_def prog_simps bindP_eq_Some_Inl)
  have "intact s0 s'"
    using s send_octet [OF sent]
    by (intro intact_same_but_upstream [OF s send_frame [OF sent]]) (auto simp: intact_def sound_def regular_def)
  then show "failed (send_error send u ca ce s0) s0 e s'"
    using sent s by (fastforce simp: failed_def intact_def send_error_def)
qed

lemma ses_passthrough:
  "ses (intact s0) (passthrough_upstream send clk eap u ca ce) (\<lambda>_. intact s0) (failed (send_error send u ca ce s0) s0)"
  unfolding passthrough_upstream_def
  by (intro ses_modS [OF ses_bindP [OF ses_exchange_intact]] ses_if ses_option
      ses_thenP [OF ses_finish_intact] ses_modS [where P' = "intact s0", OF ses_returnP] ses_returnP) simp_all

lemma handle_intact:
  assumes "sound s" and "handle_supplicant_eap send clk eap u ca ce (s, w) = Some (r, (s', w'))"
  shows "same_identity s s' \<and> sound s' \<and> (case r of Inl e \<Rightarrow> own_error e \<or> send_error send u ca ce s e | Inr out \<Rightarrow> True)"
proof (cases "parse eap")
  case (Inl e)
  then have "r = Inl e" "s' = s" using assms(2) by (simp_all add: handle_supplicant_eap_def prog_simps)
  then show ?thesis using assms(1) parse_error [OF Inl] by simp
next
  case (Inr pkt)
  show ?thesis
  proof (cases "mode s = ''passthrough''")
    case True
    let ?s1 = "s\<lparr>up := (up s)\<lparr>fragments_in := fragments_in (up s) + 1\<rparr>, down_next_id := eap_identifier pkt\<rparr>"
    have run: "passthrough_upstream send clk eap u ca ce (?s1, w) = Some (r, (s', w'))"
      using assms(2) Inr True by (simp add: handle_supplicant_eap_def prog_simps)
    have "intact s ?s1"
      using assms(1) parse_ids [OF Inr] by (simp add: intact_def same_identity_def sound_def regular_def queued_def)
    then show ?thesis
      using run ses_Inr [OF ses_passthrough, of s ?s1] ses_Inl [OF ses_passthrough, of s ?s1]
      by (cases r) (force simp: intact_def failed_def)+
  next
    case False
    note h = ses_handle [OF Inr False, of clk u ca ce]
    show ?thesis
      using assms ses_Inr [OF h, of s w] ses_Inl [OF h, of s w]
      by (cases r) (force simp: served_def failed_def)+
  qed
qed

lemma handle_disciplined:
  assumes "sound s" and "mode s \<noteq> ''passthrough''" and "parse eap = Inr pkt"
    and "handle_supplicant_eap send clk eap u ca ce (s, w) = Some (Inr out, (s', w'))"
  shows "disciplined (eap_identifier pkt) out"
  using ses_Inr [OF ses_handle [OF assms(3,2)] _ assms(4)] assms(1) by (simp add: served_def)

end

section \<open>The properties, for the repository's upstream client\<close>

lemma lab_sound: "sound lab_session"
  by (simp add: lab_session_def new_session_sound)

lemma lab_ack_parsed: "parse [2, 7, 0, 6, 13, 0] =
    Inr \<lparr>eap_code = 2, eap_identifier = 7, length_included = False, more_fragments = False,
         start = False, tls_message_length = None, tls_data = []\<rparr>"
  by code_simp

definition accepted_session :: session where
  "accepted_session = lab_session\<lparr>result := Some ''accept'', pending_success := Some [3, 1, 0, 4]\<rparr>"

lemma accepted_sound: "sound accepted_session"
  using lab_sound by (simp add: accepted_session_def sound_def regular_def queued_def)

lemma accepted_run:
  "\<exists>s'. handle_supplicant_eap send clk [2, 7, 0, 6, 13, 0] u ca ce (accepted_session, w) =
    Some (Inr (mk_outcome Accept (Some [3, 7, 0, 4]) (Some 7)), (s', w))"
  by (simp add: handle_reassemble [OF lab_ack_parsed] accepted_session_def is_ack_def supplicant_ack_def prog_simps
      terminal_outcome_def restamp_terminal_def entered_def py_bytes_def)

text \<open>
  C18: the session stays well formed on every outcome, errors included: Identifiers are octets,
  and the queue toward the supplicant is a run of consecutive chunks up to the last. The
  mediator never touches the correlation fields: key, mode, sizes, the State it minted, the
  AP's attributes and authenticator.
\<close>

theorem handler_keeps_session:
  assumes "sound s"
    and "handle_supplicant_eap (send_eap net client) clk eap u ca ce (s, w) = Some (r, (s', w'))"
  shows "sound s' \<and> same_identity s s'"
  using leg.handle_intact [OF assms] by simp

theorem handler_keeps_session_witness:
  "\<exists>out s'. handle_supplicant_eap (send_eap scripted_net lab_client) lab_clock [2, 7, 0, 6, 13, 0] ''u'' None None
      (accepted_session, []) = Some (Inr out, (s', [])) \<and> sound s' \<and> same_identity accepted_session s'"
proof -
  obtain s' where "handle_supplicant_eap (send_eap scripted_net lab_client) lab_clock [2, 7, 0, 6, 13, 0] ''u'' None None
      (accepted_session, []) = Some (Inr (mk_outcome Accept (Some [3, 7, 0, 4]) (Some 7)), (s', []))"
    using accepted_run [of "send_eap scripted_net lab_client" lab_clock "''u''" None None "[]"] by blast
  with handler_keeps_session [OF accepted_sound this] show ?thesis by blast
qed

text \<open>An exception of the network on a request built for the session.\<close>

definition network_error ::
  "'w upstream_net \<Rightarrow> upstream_client \<Rightarrow> session \<Rightarrow> string \<Rightarrow> string option \<Rightarrow> string option \<Rightarrow> py_error \<Rightarrow> bool" where
  "network_error net client s u ca ce e \<longleftrightarrow>
     (\<exists>eap st. request_error net (build_request client s eap u st ca ce) = Some e \<or>
        (\<exists>w. fst (send_packet net (build_request client s eap u st ca ce) w) = Inl e))"

lemma build_request_identity:
  "same_identity s0 s \<Longrightarrow> build_request client s eap u st ca ce = build_request client s0 eap u st ca ce"
  by (simp add: build_request_def same_identity_def Let_def)

lemma send_eap_error:
  assumes "send_error (send_eap net client) u ca ce s0 e"
  shows "e = IndexError \<or> network_error net client s0 u ca ce e"
proof -
  obtain eap st s w s' w' where "same_identity s0 s" and "send_eap net client eap u st ca ce (s, w) = Some (Inl e, (s', w'))"
    using assms unfolding send_error_def by auto
  from this(2) show ?thesis
    by (cases rule: send_eap_result)
      (auto simp: network_error_def build_request_identity [OF \<open>same_identity s0 s\<close>])
qed

text \<open>Each of the mediator's own exceptions is raised by some packet in some well-formed session.\<close>

definition raised :: "'w sender \<Rightarrow> ('w \<Rightarrow> real \<times> 'w) \<Rightarrow> string \<Rightarrow> string option \<Rightarrow> string option \<Rightarrow> py_error \<Rightarrow> bool" where
  "raised send clk u ca ce e \<longleftrightarrow>
     (\<exists>s eap w s' w'. sound s \<and> handle_supplicant_eap send clk eap u ca ce (s, w) = Some (Inl e, (s', w')))"

lemma raised_parse:
  assumes "parse eap = Inl e"
  shows "raised send clk u ca ce e"
proof -
  have "handle_supplicant_eap send clk eap u ca ce (s, w) = Some (Inl e, (s, w))" for s w
    using assms by (simp add: handle_supplicant_eap_def prog_simps)
  then show ?thesis unfolding raised_def using accepted_sound by blast
qed

lemma raised_ingest:
  assumes "parse eap = Inr pkt" and "\<not> is_ack pkt" and "ingest pkt (new_reassembler m) = Some (Inl e, r)"
  shows "raised send clk u ca ce e"
proof -
  let ?s = "new_session [] ''reassemble'' 1 1 m None 0"
  have "handle_supplicant_eap send clk eap u ca ce (?s, w) = Some (Inl e, ((entered pkt ?s)\<lparr>up_reasm := r\<rparr>, w))" for w
    using assms by (simp add: handle_reassemble supplicant_data_def on_up_def onS_def zoomP_def prog_simps
        bindP_Some_Inl entered_def new_session_def)
  then show ?thesis unfolding raised_def using new_session_sound [of 1 1 "[]" "''reassemble''" m None 0] by fastforce
qed

lemma raised_overflow: "raised send clk u ca ce OverflowError"
proof -
  obtain b :: bytes where b: "length b = 4294967296" by (rule that, rule length_replicate)
  let ?r = "\<lparr>max_message_len = 8589934592, state = IN_PROGRESS, buffer = b, expected_len = None, fragment_count = 1\<rparr>"
  let ?s = "(new_session [] ''reassemble'' 1 1 8589934592 None 0)\<lparr>up_reasm := ?r\<rparr>"
  define pkt where "pkt = \<lparr>eap_code = 2, eap_identifier = 0, length_included = False, more_fragments = False,
         start = False, tls_message_length = None, tls_data = [1]\<rparr>"
  have "parse [2, 0, 0, 7, 13, 0, 1] = Inr pkt" 
    unfolding pkt_def by code_simp
  then have pkt: "parse [2, 0, 0, 7, 13, 0, 1] = Inr pkt" "\<not> is_ack pkt" "\<not> more_fragments pkt" "tls_data pkt = [1]"
    by (simp_all add: pkt_def is_ack_def)
  let ?d = "b @ [1]"
  have fed: "ingest pkt ?r = Some (Inr (Some ?d), (appended pkt ?r)\<lparr>state := COMPLETE\<rparr>)"
    using pkt b by (simp add: ingest_def prog_simps ingest_append_eq)
  obtain c cs where chunks: "fragment ?d 1 = Inr (c # cs)"
    using fragment_nonempty [of ?d 1] fragment_error [of 1 ?d] by (metis list.exhaust order_refl sum.exhaust)
  have wire: "build 2 1 c mf (Some (length ?d)) False = Inl OverflowError" for mf
    using b by (simp add: build_def int_to_bytes_def EAP_TLS_MSGLEN_LEN_def Let_def)
  have "\<exists>s'. handle_supplicant_eap send clk [2, 0, 0, 7, 13, 0, 1] u ca ce (?s, w) = Some (Inl OverflowError, (s', w))" for w
    using pkt(1,2) fed chunks wire
    by (simp add: handle_reassemble supplicant_data_def on_up_def onS_def zoomP_def prog_simps bindP_Some_Inl
        bindP_Some_Inr entered_def new_session_def forward_record_upstream_def upstream_response_id_def next_up_id_eq
        del: length_append)
  moreover have "sound ?s" by (simp add: sound_def regular_def new_session_def queued_def)
  ultimately show ?thesis unfolding raised_def by blast
qed

lemma raised_framing: "framing_error r \<Longrightarrow> raised send clk u ca ce (EapTlsError r)"
proof (cases r)
  case (PacketTooShort n)
  assume "framing_error r"
  then have "parse (replicate n 0) = Inl (EapTlsError r)" using PacketTooShort by (simp add: parse_def EAP_HEADER_LEN_def)
  then show ?thesis by (rule raised_parse)
next
  case (NotEapTls t)
  assume "framing_error r"
  then have "parse [2, 0, 0, 5, word_of_nat t] = Inl (EapTlsError r)"
    using NotEapTls by (simp add: parse_def EAP_HEADER_LEN_def EAP_TYPE_TLS_def unat_byte_of_nat)
  then show ?thesis by (rule raised_parse)
next
  case (LengthExceedsBuffer d n)
  assume "framing_error r"
  then have d: "5 \<le> n" "n < d" "d < 65536" using LengthExceedsBuffer by simp_all
  obtain x y where xy: "be_bytes 2 d = [x, y]" by (simp add: numeral_2_eq_2)
  have "from_bytes_be [x, y] = d" using from_be_bytes_2 [OF d(3)] xy by simp
  moreover have "length (2 # 0 # x # y # 13 # replicate (n - 5) (0 :: byte)) = n" using d(1) by simp
  ultimately have "parse (2 # 0 # x # y # 13 # replicate (n - 5) 0) = Inl (EapTlsError r)"
    using d LengthExceedsBuffer by (simp add: parse_def EAP_HEADER_LEN_def EAP_TYPE_TLS_def Let_def del: length_Cons length_replicate)
  then show ?thesis by (rule raised_parse)
next
  case MessageLengthTruncated
  have "parse [2, 0, 0, 6, 13, 0x80] = Inl (EapTlsError MessageLengthTruncated)" by code_simp
  then show ?thesis unfolding MessageLengthTruncated by (rule raised_parse)
next
  case (DeclaredTooLong n m)
  assume "framing_error r"
  then have n: "m < int n" "n < 4294967296" using DeclaredTooLong by simp_all
  let ?pkt = "\<lparr>eap_code = 2, eap_identifier = 0, length_included = True, more_fragments = False,
      start = False, tls_message_length = Some n, tls_data = []\<rparr>"
  have "parse (wire_layout 2 0 [] False (Some n) False) = Inr ?pkt"
    by (subst parse_wire_layout) (use n in \<open>simp_all add: buildable_def wire_length_def length_field_def\<close>)
  moreover have "ingest ?pkt (new_reassembler m) = Some (Inl (EapTlsError r), (reset (new_reassembler m))\<lparr>expected_len := Some n\<rparr>)"
    using ingest_ready_too_long [of ?pkt "new_reassembler m" n] n(1)
    by (simp add: DeclaredTooLong is_ack_def ready_def new_reassembler_def declared_tml_def)
  ultimately show ?thesis by (intro raised_ingest) (auto simp: is_ack_def)
next
  case BufferExceeded
  let ?pkt = "\<lparr>eap_code = 2, eap_identifier = 0, length_included = False, more_fragments = False,
      start = False, tls_message_length = None, tls_data = [1]\<rparr>"
  have "parse [2, 0, 0, 7, 13, 0, 1] = Inr ?pkt" by code_simp
  moreover have "ingest ?pkt (new_reassembler 0) = Some (Inl (EapTlsError r), appended ?pkt (started ?pkt (new_reassembler 0)))"
    using BufferExceeded
    by (subst ingest_ready)
      (simp_all add: is_ack_def ready_def new_reassembler_def declared_tml_def ingest_append_eq started_def reset_def)
  ultimately show ?thesis by (intro raised_ingest) (auto simp: is_ack_def)
qed simp

lemma raised_index: "raised send clk u ca ce IndexError"
proof -
  have "parse [2, 0, 0, 5, 13] = Inl IndexError" by code_simp
  then show ?thesis by (rule raised_parse)
qed

lemma raised_own: "own_error e \<Longrightarrow> raised send clk u ca ce e"
  by (cases e) (simp_all add: raised_framing raised_index raised_overflow)

lemma passthrough_error:
  assumes "mode s = ''passthrough''" and "parse eap = Inr pkt"
    and "request_error net (build_request client s eap u (radius_state s) ca ce) = Some e \<or>
      request_error net (build_request client s eap u (radius_state s) ca ce) = None \<and>
      fst (send_packet net (build_request client s eap u (radius_state s) ca ce) w) = Inl e"
  shows "\<exists>s' w'. handle_supplicant_eap (send_eap net client) clk eap u ca ce (s, w) = Some (Inl e, (s', w'))"
proof -
  let ?s = "s\<lparr>down_next_id := eap_identifier pkt,
    up := (up s)\<lparr>fragments_in := fragments_in (up s) + 1, fragments_out := fragments_out (up s) + 1\<rparr>\<rparr>"
  have same: "build_request client ?s eap u (radius_state s) ca ce = build_request client s eap u (radius_state s) ca ce"
    by (simp add: build_request_def Let_def)
  obtain s' w' where "send_eap net client eap u (radius_state s) ca ce (?s, w) = Some (Inl e, (s', w'))"
    using assms(3) same
    by (cases "send_packet net (build_request client s eap u (radius_state s) ca ce) w")
      (auto simp: send_eap_def send_eap_through_def prog_simps ioP_apply bindP_Some_Inl)
  then have "exchange (send_eap net client) eap u ca ce (?s, w) = Some (Inl e, (s', w'))"
    by (simp add: exchange_def prog_simps bindP_Some_Inl)
  then show ?thesis
    using assms(1,2)
    by (simp add: handle_supplicant_eap_def passthrough_upstream_def prog_simps bindP_Some_Inl)
qed

text \<open>
  C19: what can escape the mediator. The exceptions it raises itself on a well-formed session are
  exactly those of \<open>own_error\<close>: the framing errors of \<open>EapTlsError\<close> with the values each can
  carry, the \<open>IndexError\<close> of the five-octet packet and the \<open>OverflowError\<close> of a record of
  4 GiB. Nothing else comes out but an exception of pyrad's encoder or of the network on a request
  built for this session, and each of them does come out, of some well-formed session on some
  packet; on a relayed packet an exception of the network comes out as it is. So no attribute is
  ever missing, no Identifier overflows and no fragment size is refused.
\<close>

theorem handler_errors:
  "(\<forall>s eap w e s' w'. sound s \<longrightarrow>
      handle_supplicant_eap (send_eap net client) clk eap u ca ce (s, w) = Some (Inl e, (s', w')) \<longrightarrow>
      own_error e \<or> network_error net client s u ca ce e) \<and>
   (\<forall>e. own_error e \<longrightarrow> (\<exists>s eap w s' w'. sound s \<and>
      handle_supplicant_eap (send_eap net client) clk eap u ca ce (s, w) = Some (Inl e, (s', w')))) \<and>
   (\<forall>s eap pkt req w e. mode s = ''passthrough'' \<longrightarrow> parse eap = Inr pkt \<longrightarrow>
      req = build_request client s eap u (radius_state s) ca ce \<longrightarrow>
      request_error net req = Some e \<or> request_error net req = None \<and> fst (send_packet net req w) = Inl e \<longrightarrow>
      (\<exists>s' w'. handle_supplicant_eap (send_eap net client) clk eap u ca ce (s, w) = Some (Inl e, (s', w'))))"
proof (intro conjI allI impI)
  fix s eap w e s' w'
  assume "sound s" and "handle_supplicant_eap (send_eap net client) clk eap u ca ce (s, w) = Some (Inl e, (s', w'))"
  then show "own_error e \<or> network_error net client s u ca ce e"
    using leg.handle_intact [of s net client clk eap u ca ce w "Inl e" s' w'] send_eap_error [of net client u ca ce s e] by auto
next
  fix e
  assume "own_error e"
  then show "\<exists>s eap w s' w'. sound s \<and>
      handle_supplicant_eap (send_eap net client) clk eap u ca ce (s, w) = Some (Inl e, (s', w'))"
    using raised_own unfolding raised_def by blast
qed (blast intro: passthrough_error)

theorem handler_errors_witness:
  "handle_supplicant_eap (send_eap scripted_net lab_client) lab_clock [2, 7] ''u'' None None (lab_session, [])
     = Some (Inl (EapTlsError (PacketTooShort 2)), (lab_session, [])) \<and>
   (own_error (EapTlsError (PacketTooShort 2)) \<or>
      network_error scripted_net lab_client lab_session ''u'' None None (EapTlsError (PacketTooShort 2))) \<and>
   (\<exists>s eap w s' w'. sound s \<and> handle_supplicant_eap (send_eap scripted_net lab_client) lab_clock eap ''u'' None None (s, w) =
      Some (Inl (EapTlsError (DeclaredTooLong 300000 262144)), (s', w'))) \<and>
   (\<exists>s' w'. handle_supplicant_eap (send_eap scripted_net lab_client) lab_clock [2, 7, 0, 6, 13, 0] ''u'' None None
      (lab_session\<lparr>mode := ''passthrough''\<rparr>, []) = Some (Inl Timeout, (s', w')))"
proof -
  let ?s = "lab_session\<lparr>mode := ''passthrough''\<rparr>"
  have run: "handle_supplicant_eap (send_eap scripted_net lab_client) lab_clock [2, 7] ''u'' None None (lab_session, [])
     = Some (Inl (EapTlsError (PacketTooShort 2)), (lab_session, []))"
    by (simp add: handle_supplicant_eap_def parse_def prog_simps EAP_HEADER_LEN_def)
  have lost: "request_error scripted_net req = None \<and> fst (send_packet scripted_net req []) = Inl Timeout" for req
    by (simp add: scripted_net_def)
  have long: "own_error (EapTlsError (DeclaredTooLong 300000 262144))" by simp
  note errors = handler_errors [of scripted_net lab_client lab_clock "''u''" None None]
  have "\<exists>s' w'. handle_supplicant_eap (send_eap scripted_net lab_client) lab_clock [2, 7, 0, 6, 13, 0] ''u'' None None
      (?s, []) = Some (Inl Timeout, (s', w'))"
    using errors [THEN conjunct2, THEN conjunct2, rule_format, of ?s _ _ _ Timeout "[]", OF _ lab_ack_parsed refl] lost by simp
  moreover note errors [THEN conjunct1, rule_format, OF lab_sound run]
    errors [THEN conjunct2, THEN conjunct1, rule_format, OF long]
  ultimately show ?thesis using run by blast
qed

end
