(* ===== verification/Mediator_Liveness.thy ===== *)
theory Mediator_Liveness
  imports Mediator_Discipline
begin

text \<open>
  Does the mediator always answer, and what does it answer on the paths its comments single
  out? Passthrough is transparent but for a rejection; the handler returns whenever the
  server's fragments carry data, and need not return otherwise; the drain hands over what it
  has when the server breaks off; an EAP-TLS ACK of the server replays the last record.
\<close>

section \<open>Passthrough\<close>

lemma normalised_messages: "eap_messages (normalised r) = [] \<or> (\<exists>m. m \<noteq> [] \<and> eap_messages (normalised r) = [m])"
  using well_formed_normalised [of r] by (simp add: well_formed_reply_def)

text \<open>
  C20: passthrough is transparent. The server gets the supplicant's EAP packet octet for octet
  in one request, the supplicant gets the server's packet octet for octet, and neither
  reassembler nor the queue is touched. The one exception is a rejection: the EAP-Failure the
  server sent is dropped.
\<close>

theorem passthrough_transparent:
  assumes "parse eap = Inr pkt" and "mode s = ''passthrough''" and "proper_reply r"
  shows "\<exists>req s' w'. handle_supplicant_eap (send_eap recording_net client) clk eap u ca ce (s, (v, seen, r # rs)) =
      Some (Inr (if pr_code r = AccessAccept then mk_outcome Accept (first_message (eap_messages (normalised r))) None
                 else if pr_code r = AccessReject then mk_outcome Reject None None
                 else case first_message (eap_messages (normalised r)) of
                        None \<Rightarrow> mk_outcome Ack None None
                      | Some e \<Rightarrow> mk_outcome Challenge (Some e) None), (s', w')) \<and>
    eap_of_calls req = eap \<and>
    w' = (if pr_code r = AccessAccept \<or> pr_code r = AccessReject then snd (clk (v, seen @ [req], rs)) else (v, seen @ [req], rs)) \<and>
    up_reasm s' = up_reasm s \<and> down_reasm s' = down_reasm s \<and> down_outbox s' = down_outbox s \<and>
    upstream_round_trips s' = upstream_round_trips s + 1"
proof -
  let ?s0 = "s\<lparr>up := (up s)\<lparr>fragments_in := fragments_in (up s) + 1\<rparr>, down_next_id := eap_identifier pkt\<rparr>"
  let ?s1 = "?s0\<lparr>up := (up ?s0)\<lparr>fragments_out := fragments_out (up ?s0) + 1\<rparr>\<rparr>"
  let ?req = "build_request client ?s1 eap u (radius_state s) ca ce"
  have h: "handle_supplicant_eap (send_eap recording_net client) clk eap u ca ce (s, (v, seen, r # rs)) =
      (if accept (normalised r) then
         thenP (finish_now clk ''accept'')
           (returnP (mk_outcome Accept (first_message (eap_messages (normalised r))) None))
       else if reject (normalised r) then
         thenP (finish_now clk ''reject'') (returnP (mk_outcome Reject None None))
       else
         case first_message (eap_messages (normalised r)) of
           Some e \<Rightarrow>
             if e \<noteq> [] then
               thenP (modS (\<lambda>s. s\<lparr>down := (down s)\<lparr>fragments_out := fragments_out (down s) + 1\<rparr>\<rparr>))
                 (returnP (mk_outcome Challenge (Some e) None))
             else returnP (mk_outcome Ack None None)
         | None \<Rightarrow> returnP (mk_outcome Ack None None)) (exchanged r ?s1, (v, seen @ [?req], rs))"
    using assms
    by (simp add: handle_supplicant_eap_def passthrough_upstream_def prog_simps bindP_exchange_recorded)
  have finish: "thenP (finish_now clk res) (returnP out) (t, w) =
      Some (Inr out, (finish res (fst (clk w)) t, snd (clk w)))" for res out t and w :: "'a recording"
    by (cases "clk w") (simp add: finish_now_def thenP_def bindP_def ioP_apply modS_apply returnP_def)
  show ?thesis
    using normalised_messages [of r]
    by (intro exI [of _ ?req], cases "snd (clk (v, seen @ [?req], rs))") (auto simp: h finish normalised_def [of r] radius_code_defs finish_def
        first_message_def prog_simps)
qed

theorem passthrough_transparent_witness:
  "\<exists>req s' w'. handle_supplicant_eap (send_eap recording_net lab_client) lab_clock [2, 7, 0, 6, 13, 0] ''u'' None None
      (lab_session\<lparr>mode := ''passthrough''\<rparr>, ((), [], [eap_reply 3 [4, 7, 0, 4]]))
      = Some (Inr (mk_outcome Reject None None), (s', w')) \<and>
    eap_of_calls req = [2, 7, 0, 6, 13, 0] \<and> upstream_round_trips s' = 1"
proof -
  have "mode (lab_session\<lparr>mode := ''passthrough''\<rparr>) = ''passthrough''" by simp
  moreover have "proper_reply (eap_reply 3 [4, 7, 0, 4])"
    by (simp add: proper_reply_def eap_reply_def AccessAccept_def)
  moreover have "pr_code (eap_reply 3 [4, 7, 0, 4]) = 3" by (simp add: eap_reply_def)
  ultimately show ?thesis
    using passthrough_transparent [OF lab_ack_parsed, of "lab_session\<lparr>mode := ''passthrough''\<rparr>"
        "eap_reply 3 [4, 7, 0, 4]" lab_client lab_clock "''u''" None None "()" "[]" "[]"]
    by (simp add: radius_code_defs) blast
qed

section \<open>The handler returns when the server's fragments carry data\<close>

lemma on_reasm_total [simp]: "on_up (ingest pkt) sw \<noteq> None" "on_down (ingest pkt) sw \<noteq> None"
  using ingest_total by (simp_all add: on_up_def on_down_def onS_def zoomP_def split: option.splits)

lemma id_total [simp]: "onS next_up_id sw \<noteq> None" "onS next_down_id sw \<noteq> None"
  by (simp_all add: onS_def zoomP_def next_up_id_eq next_down_id_eq)

lemma response_id_total [simp]: "upstream_response_id sw \<noteq> None"
  unfolding upstream_response_id_def by (intro total_intros) simp_all

lemma finish_total [simp]: "finish_now clk res sw \<noteq> None"
  by (cases sw) (simp add: finish_now_def bindP_def ioP_apply modS_apply split: prod.split)

lemma stash_total [simp]: "stash_terminal clk reply sw \<noteq> None"
  unfolding stash_terminal_def by (intro total_intros) simp_all

lemma terminal_total [simp]: "terminal_outcome a pend sw \<noteq> None"
  unfolding terminal_outcome_def by (intro total_intros) simp_all

lemma send_next_total [simp]: "send_next_downstream_fragment sw \<noteq> None"
  unfolding send_next_downstream_fragment_def Let_def by (intro total_intros) simp_all

lemma deliver_total [simp]: "deliver_record d sw \<noteq> None"
  unfolding deliver_record_def begin_downstream_fragmentation_def by (intro total_intros) simp_all


text \<open>The server's fragments carry data: no reply has the M bit on an empty fragment.\<close>

definition progressive :: "'w sender \<Rightarrow> bool" where
  "progressive send \<longleftrightarrow>
     (\<forall>eap u st ca ce sw r sw' m ms pkt. send eap u st ca ce sw = Some (Inr r, sw') \<longrightarrow>
        eap_messages r = m # ms \<longrightarrow> parse m = Inr pkt \<longrightarrow> more_fragments pkt \<longrightarrow> tls_data pkt \<noteq> [])"

text \<open>The drain's measure: the octets the reassembler can still take.\<close>

definition room :: "reassembler \<Rightarrow> nat" where
  "room r = (if state r = IN_PROGRESS then nat (max_message_len r - int (length (buffer r)))
             else Suc (nat (max_message_len r)))"

lemma ingest_room:
  assumes "ingest pkt r = Some (Inr None, r')" and "tls_data pkt \<noteq> []"
  shows "room r' < room r"
proof -
  have nack: "\<not> is_ack pkt" using assms(2) by (simp add: is_ack_def)
  then obtain r1 where r1: "state r1 = IN_PROGRESS" "max_message_len r1 = max_message_len r"
    "buffer r1 = accumulated (abs_reasm r)" "ingest pkt r = ingest_append pkt r1"
    by (cases rule: ingest_cases [of pkt r]) (use assms(1) in auto)
  then have r': "state r' = IN_PROGRESS" "max_message_len r' = max_message_len r"
    "buffer r' = accumulated (abs_reasm r) @ tls_data pkt"
    "int (length (accumulated (abs_reasm r) @ tls_data pkt)) \<le> max_message_len r"
    using assms(1) by (auto simp: ingest_append_def prog_simps split: if_splits)
  have "0 < int (length (tls_data pkt))" using assms(2) by simp
  then show ?thesis using r' by (auto simp: room_def abs_reasm_def accumulated_def simp del: of_nat_0_less_iff length_greater_0_conv)
qed

context upstream_leg
begin

lemma exchange_total [simp]: "exchange send eap u ca ce sw \<noteq> None"
  unfolding exchange_def by (intro total_intros) (simp_all add: send_returns)

lemma drain_ack_total: "drain_ack send u ca ce sw \<noteq> None"
  unfolding drain_ack_def by (intro total_intros) simp_all

lemma drain_ack_reply:
  assumes "drain_ack send u ca ce (s, w) = Some (Inr r, (s', w'))"
  shows "down_reasm s' = down_reasm s \<and> (\<exists>eap st sw sw'. send eap u st ca ce sw = Some (Inr r, sw'))"
proof -
  obtain n s1 w1 ack where id: "upstream_response_id (s, w) = Some (Inr n, (s1, w1))"
    and ex: "exchange send ack u ca ce
      (s1\<lparr>down := (down s1)\<lparr>acks_generated := acks_generated (down s1) + 1\<rparr>\<rparr>, w1) = Some (Inr r, (s', w'))"
    using assms by (auto simp: drain_ack_def bindP_eq_Some_Inr prog_simps split: sum.splits)
  have "down_reasm s1 = down_reasm s"
    using id by (auto simp: upstream_response_id_def prog_simps next_up_id_eq split: option.splits)
  moreover obtain s2 where sent: "send ack u (radius_state s1) ca ce
      (s1\<lparr>down := (down s1)\<lparr>acks_generated := acks_generated (down s1) + 1\<rparr>\<rparr>, w1) = Some (Inr r, (s2, w'))"
    and "s' = s2\<lparr>radius_state := reply_state r\<rparr>"
    using ex by (auto simp: exchange_def prog_simps bindP_eq_Some_Inr)
  moreover have "down_reasm s2 = down_reasm s1"
    using same_but_upstream_sel [OF send_frame [OF sent]] by simp
  ultimately have "down_reasm s' = down_reasm s" by simp
  with sent show ?thesis by blast
qed

lemma drain_returns:
  assumes "progressive send"
  shows "drain_upstream_fragments send clk u ca ce pkt (s, w) \<noteq> None"
proof (induction "room (down_reasm s)" arbitrary: pkt s w rule: less_induct)
  case less
  show ?case
  proof (cases "more_fragments pkt")
    case False
    then show ?thesis by (subst drain_upstream_fragments.simps) (simp add: prog_simps)
  next
    case True
    have on_reply: "(if accept reply \<or> reject reply then thenP (stash_terminal clk reply) (returnP None)
        else case eap_messages reply of
            [] \<Rightarrow> bindP (getS (\<lambda>s. buffer (down_reasm s))) (\<lambda>b. returnP (Some b))
          | m # ms \<Rightarrow> bindP (liftP (parse m)) (\<lambda>pkt. bindP (on_down (ingest pkt)) (\<lambda>complete.
              case complete of Some d \<Rightarrow> returnP (Some d)
              | None \<Rightarrow> drain_upstream_fragments send clk u ca ce pkt))) (s1, w1) \<noteq> None"
      if ack: "drain_ack send u ca ce (s, w) = Some (Inr reply, (s1, w1))" for reply s1 w1
    proof (cases "eap_messages reply")
      case Nil
      then show ?thesis by (intro if_total thenP_total) (simp_all add: bindP_total)
    next
      case (Cons m ms)
      have again: "drain_upstream_fragments send clk u ca ce p (s2, w2) \<noteq> None"
        if p: "parse m = Inr p" and ing: "on_down (ingest p) (s1, w1) = Some (Inr None, (s2, w2))" for p s2 w2
      proof (cases "more_fragments p")
        case False
        then show ?thesis by (subst drain_upstream_fragments.simps) (simp add: prog_simps)
      next
        case True
        then have "tls_data p \<noteq> []"
          using assms drain_ack_reply [OF ack] Cons p unfolding progressive_def by blast
        moreover have "ingest p (down_reasm s) = Some (Inr None, down_reasm s2)"
          using ing drain_ack_reply [OF ack] by (auto simp: on_down_def onS_def zoomP_def split: option.splits)
        ultimately have "room (down_reasm s2) < room (down_reasm s)" by (rule ingest_room [rotated])
        then show ?thesis by (rule less)
      qed
      have "bindP (liftP (parse m)) (\<lambda>p. bindP (on_down (ingest p)) (\<lambda>complete.
              case complete of Some d \<Rightarrow> returnP (Some d)
              | None \<Rightarrow> drain_upstream_fragments send clk u ca ce p)) (s1, w1) \<noteq> None"
      proof (cases "parse m")
        case (Inr p)
        have "bindP (on_down (ingest p)) (\<lambda>complete.
              case complete of Some d \<Rightarrow> returnP (Some d)
              | None \<Rightarrow> drain_upstream_fragments send clk u ca ce p) (s1, w1) \<noteq> None"
          by (rule bindP_returns) (use again [OF Inr] in \<open>auto simp: returnP_def split: option.split\<close>)
        then show ?thesis by (simp add: Inr prog_simps)
      qed (simp add: prog_simps)
      then show ?thesis by (intro if_total thenP_total) (simp_all add: Cons)
    qed
    show ?thesis
      by (subst drain_upstream_fragments.simps)
        (simp only: True if_True, rule bindP_returns_pair [OF drain_ack_total], rule on_reply)
  qed
qed

lemma handle_reply_returns:
  assumes "progressive send"
  shows "handle_upstream_reply send clk reply_opt u ca ce sw \<noteq> None"
proof -
  have drain: "drain_upstream_fragments send clk u ca ce pkt sw \<noteq> None" for pkt sw
    by (cases sw) (use drain_returns [OF assms] in blast)
  show ?thesis
    unfolding handle_upstream_reply_def by (intro total_intros) (simp_all add: drain)
qed

lemma forward_chunks_total: "forward_chunks send u ca ce n t rep cs sw \<noteq> None"
proof (induction cs arbitrary: rep sw)
  case (Cons c cs)
  then show ?case unfolding forward_chunks.simps by (intro total_intros) simp_all
qed simp

lemma handle_returns:
  assumes "progressive send"
  shows "handle_supplicant_eap send clk eap u ca ce sw \<noteq> None"
proof -
  note [simp] = handle_reply_returns [OF assms] forward_chunks_total
  have pass: "passthrough_upstream send clk eap u ca ce sw \<noteq> None" for sw
    unfolding passthrough_upstream_def by (intro total_intros) simp_all
  have forward: "forward_record_upstream send clk d u ca ce sw \<noteq> None" for d sw
    unfolding forward_record_upstream_def by (intro total_intros) simp_all
  have ack: "supplicant_ack send clk u ca ce sw \<noteq> None" for sw
    unfolding supplicant_ack_def by (intro total_intros) simp_all
  have data: "supplicant_data send clk pkt u ca ce sw \<noteq> None" for pkt sw
    unfolding supplicant_data_def by (intro total_intros) (simp_all add: forward)
  show ?thesis
    unfolding handle_supplicant_eap_def by (intro total_intros) (simp_all add: pass ack data)
qed

end

text \<open>
  C12: the handler always returns, with an outcome or an exception, when no fragment of the
  server has the M bit on and no data: the drain loop ends because every further fragment
  takes room in a reassembler of bounded length. Nothing is assumed of the session.
\<close>

theorem handler_returns:
  assumes "progressive (send_eap net client)"
  shows "\<exists>r s' w'. handle_supplicant_eap (send_eap net client) clk eap u ca ce (s, w) = Some (r, (s', w'))"
  using leg.handle_returns [OF assms, of clk eap u ca ce "(s, w)"] by auto

text \<open>A server that gives the same answer to every request.\<close>

definition constant_net :: "pyrad_reply \<Rightarrow> 'w upstream_net" where
  "constant_net r = \<lparr>request_error = (\<lambda>_. None), send_packet = (\<lambda>_ w. (Inr r, w))\<rparr>"

lemma constant_net_reply:
  assumes "send_eap (constant_net r) client eap u st ca ce sw = Some (Inr reply, sw')"
  shows "reply = normalised r"
proof -
  obtain s w s' w' where "sw = (s, w)" "sw' = (s', w')" by (cases sw; cases sw')
  with assms have "send_eap (constant_net r) client eap u st ca ce (s, w) = Some (Inr reply, (s', w'))" by simp
  then show ?thesis by (cases rule: send_eap_result) (simp_all add: constant_net_def)
qed

lemma eap_reply_messages: "m \<noteq> [] \<Longrightarrow> eap_messages (normalised (eap_reply c m)) = [m]"
  by (simp add: normalised_def eap_reply_def concat_eap_messages_def Let_def)

lemma eap_reply_flags [simp]:
  "accept (normalised (eap_reply c m)) \<longleftrightarrow> c = AccessAccept" "reject (normalised (eap_reply c m)) \<longleftrightarrow> c = AccessReject"
  "proper_reply (eap_reply c m)"
  by (simp_all add: normalised_def eap_reply_def proper_reply_def)

lemma flight_eap_reply: "m \<noteq> [] \<Longrightarrow> parse m = Inr q \<Longrightarrow> flight_reply (eap_reply 11 m) q"
  by (simp add: flight_reply_def eap_reply_messages AccessChallenge_def) (simp add: eap_reply_def)

theorem handler_returns_witness:
  "\<exists>r s' w'. handle_supplicant_eap (send_eap (constant_net (eap_reply 3 [4, 7, 0, 4])) lab_client) lab_clock
     [2, 7, 0, 6, 13, 0] ''u'' None None (lab_session, ()) = Some (r, (s', w'))"
proof (rule handler_returns)
  have "parse [4, 7, 0, 4] = Inl (EapTlsError (PacketTooShort 4))"
    by (simp add: parse_def EAP_HEADER_LEN_def)
  then show "progressive (send_eap (constant_net (eap_reply 3 [4, 7, 0, 4])) lab_client)"
    by (auto simp: progressive_def eap_reply_messages dest!: constant_net_reply)
qed

section \<open>A server that never ends its flight\<close>

text \<open>The packet \<open>01 07 0006 0D 40\<close>: an EAP-TLS Request with the M bit and no data.\<close>

definition empty_fragment :: bytes where "empty_fragment = [1, 7, 0, 6, 13, 0x40]"

lemma empty_fragment_parsed: "parse empty_fragment =
    Inr \<lparr>eap_code = 1, eap_identifier = 7, length_included = False, more_fragments = True,
         start = False, tls_message_length = None, tls_data = []\<rparr>"
  unfolding empty_fragment_def by code_simp

definition draining :: "session \<Rightarrow> bool" where
  "draining s \<longleftrightarrow> state (down_reasm s) = IN_PROGRESS \<and>
     int (length (buffer (down_reasm s))) \<le> max_message_len (down_reasm s) \<and>
     octet_id (upstream_last_eap_req_id s) \<and> up_next_id s < 256"

lemma response_id_octet:
  assumes "octet_id (upstream_last_eap_req_id s)"
  shows "\<exists>n s'. upstream_response_id (s, w) = Some (Inr n, (s', w)) \<and> n < 256 \<and>
    (s' = s \<or> s' = s\<lparr>up_next_id := n\<rparr>)"
proof (cases "upstream_last_eap_req_id s")
  case None
  then have "upstream_response_id (s, w) =
      Some (Inr ((up_next_id s + 1) mod 256), (s\<lparr>up_next_id := (up_next_id s + 1) mod 256\<rparr>, w))"
    by (simp add: upstream_response_id_def prog_simps next_up_id_eq)
  then show ?thesis by (metis mod_less_divisor zero_less_numeral)
next
  case (Some n)
  then have "upstream_response_id (s, w) = Some (Inr n, (s, w))" "n < 256"
    using assms by (simp_all add: upstream_response_id_def prog_simps)
  then show ?thesis by blast
qed

lemma draining_response_id:
  "draining s \<Longrightarrow> \<exists>n s'. upstream_response_id (s, w) = Some (Inr n, (s', w)) \<and> n < 256 \<and> draining s'"
  using response_id_octet [of s w] by (fastforce simp: draining_def)

lemma draining_exchange:
  assumes "draining s"
  shows "exchange (send_eap (constant_net (eap_reply 11 empty_fragment)) client) eap u ca ce (s, w) =
      Some (Inr (normalised (eap_reply 11 empty_fragment)), (exchanged (eap_reply 11 empty_fragment) s, w)) \<and>
    draining (exchanged (eap_reply 11 empty_fragment) s)"
proof
  show "exchange (send_eap (constant_net (eap_reply 11 empty_fragment)) client) eap u ca ce (s, w) =
      Some (Inr (normalised (eap_reply 11 empty_fragment)), (exchanged (eap_reply 11 empty_fragment) s, w))"
    by (rule exchange_run) (simp_all add: constant_net_def)
  have "octet_id (upstream_last_eap_req_id (exchanged (eap_reply 11 empty_fragment) s))"
    using assms octet_id_next by (simp add: draining_def exchanged_def after_exchange_def Let_def)
  moreover have "up_next_id (exchanged (eap_reply 11 empty_fragment) s) = up_next_id s"
    by (simp add: exchanged_def after_exchange_def Let_def)
  ultimately show "draining (exchanged (eap_reply 11 empty_fragment) s)"
    using assms by (simp add: draining_def)
qed

lemma ingest_empty:
  assumes "more_fragments p" and "tls_data p = []" and "state r = IN_PROGRESS"
    and "int (length (buffer r)) \<le> max_message_len r"
  shows "ingest p r = Some (Inr None, r\<lparr>fragment_count := fragment_count r + 1\<rparr>)"
  using assms by (simp add: ingest_def is_ack_def ingest_append_def prog_simps)


lemma draining_counters [simp]:
  "draining (s\<lparr>down := m\<rparr>) = draining s" "draining (s\<lparr>down_reasm := (down_reasm s)\<lparr>fragment_count := n\<rparr>\<rparr>) = draining s"
  by (simp_all add: draining_def)

lemma drain_diverges:
  fixes w :: 'w
  assumes "more_fragments p" and "draining s"
  shows "drain_upstream_fragments (send_eap (constant_net (eap_reply 11 empty_fragment)) client) clk u ca ce p (s, w) = None"
proof -
  let ?send = "send_eap (constant_net (eap_reply 11 empty_fragment)) client :: 'w sender"
  let ?P = "\<lambda>(send' :: 'w sender) (clk :: 'w \<Rightarrow> real \<times> 'w) (u :: string) (ca :: string option) (ce :: string option)
      p (sw :: session \<times> 'w) (y :: (py_error + bytes option) \<times> session \<times> 'w). \<not> (send' = ?send \<and> more_fragments p \<and> draining (fst sw))"
  have "?P ?send clk u ca ce p (s, w) y"
    if "drain_upstream_fragments ?send clk u ca ce p (s, w) = Some y" for y
  proof (rule drain_upstream_fragments.raw_induct [OF _ that, where P = ?P])
    fix f send' clk u ca ce p and sw :: "session \<times> 'w" and y
    assume hyp: "\<And>send clk u ca ce p sw y. f send clk u ca ce p sw = Some y \<Longrightarrow> ?P send clk u ca ce p sw y"
      and run: "(if more_fragments p then
        bindP (drain_ack send' u ca ce) (\<lambda>reply.
          if accept reply \<or> reject reply then thenP (stash_terminal clk reply) (returnP None)
          else
            case eap_messages reply of
              [] \<Rightarrow> bindP (getS (\<lambda>s. buffer (down_reasm s))) (\<lambda>b. returnP (Some b))
            | m # ms \<Rightarrow>
                bindP (liftP (parse m)) (\<lambda>pkt.
                bindP (on_down (ingest pkt)) (\<lambda>complete.
                  case complete of
                    None \<Rightarrow> f send' clk u ca ce pkt
                  | Some d \<Rightarrow> returnP (Some d))))
      else bindP (getS (\<lambda>s. buffer (down_reasm s))) (\<lambda>b. returnP (Some b))) sw = Some y"
    show "?P send' clk u ca ce p sw y"
    proof
      assume asm: "send' = ?send \<and> more_fragments p \<and> draining (fst sw)"
      obtain s w where sw: "sw = (s, w)" by (cases sw)
      obtain n s1 where id: "upstream_response_id (s, w) = Some (Inr n, (s1, w))" "n < 256" "draining s1"
        using draining_response_id asm sw by fastforce
      obtain ack where ack: "build_ack 2 n = Inr ack" using build_ack_octet id(2) by fastforce
      let ?s2 = "s1\<lparr>down := (down s1)\<lparr>acks_generated := acks_generated (down s1) + 1\<rparr>\<rparr>"
      obtain s3 where ex: "exchange ?send ack u ca ce (?s2, w) =
          Some (Inr (normalised (eap_reply 11 empty_fragment)), (s3, w))" "draining s3"
        using draining_exchange [of ?s2 client ack u ca ce w] id(3) by simp
      have reply: "drain_ack send' u ca ce sw = Some (Inr (normalised (eap_reply 11 empty_fragment)), (s3, w))"
        using asm ack id(1) ex(1) by (simp add: drain_ack_def sw bindP_Some_Inr prog_simps)
      obtain q where q: "parse empty_fragment = Inr q" "more_fragments q" "tls_data q = []"
        using empty_fragment_parsed by fastforce
      let ?r = "(down_reasm s3)\<lparr>fragment_count := fragment_count (down_reasm s3) + 1\<rparr>"
      have ing: "ingest q (down_reasm s3) = Some (Inr None, ?r)"
        using ex(2) by (intro ingest_empty q) (simp_all add: draining_def)
      let ?s4 = "s3\<lparr>down_reasm := ?r\<rparr>"
      have "on_down (ingest q) (s3, w) = Some (Inr None, (?s4, w))" using ing by (rule on_down_run)
      then have "f send' clk u ca ce q (?s4, w) = Some y"
        using run asm reply q(1)
        by (simp add: bindP_Some_Inr eap_reply_messages empty_fragment_def radius_code_defs prog_simps)
      then have "\<not> draining ?s4" using hyp [of send' clk u ca ce q "(?s4, w)" y] asm q(2) by simp
      then show False using ex(2) by simp
    qed
  qed
  then show ?thesis using assms by (cases "drain_upstream_fragments ?send clk u ca ce p (s, w)") auto
qed


text \<open>
  C17: nothing bounds the drain loop but the data it collects. Against a server that answers
  every request with an empty EAP-TLS fragment that announces more, the handler does not
  return: the supplicant's ACK starts a drain that acknowledges fragment after fragment for
  ever, and the process serves nobody else meanwhile.
\<close>

theorem handler_may_hang:
  assumes "sound s" and "mode s \<noteq> ''passthrough''" and "parse eap = Inr pkt" and "is_ack pkt"
    and "down_outbox s = []" and "result s = None" and "ready (down_reasm s)"
    and "0 \<le> max_message_len (down_reasm s)"
  shows "handle_supplicant_eap (send_eap (constant_net (eap_reply 11 empty_fragment)) client) clk eap u ca ce (s, w) = None"
proof -
  let ?send = "send_eap (constant_net (eap_reply 11 empty_fragment)) client"
  let ?r = "eap_reply 11 empty_fragment"
  have "octet_id (upstream_last_eap_req_id (entered pkt s))" "up_next_id (entered pkt s) < 256"
    using assms(1) by (simp_all add: sound_def regular_def entered_def)
  then obtain n s1 where id: "upstream_response_id (entered pkt s, w) = Some (Inr n, (s1, w))" "n < 256"
    "octet_id (upstream_last_eap_req_id s1)" "up_next_id s1 < 256" "down_reasm s1 = down_reasm s"
    using response_id_octet [of "entered pkt s" w] by fastforce
  obtain ack where ack: "build_ack 2 n = Inr ack" using build_ack_octet id(2) by fastforce
  obtain s2 where ex: "exchange ?send ack u ca ce (s1, w) = Some (Inr (normalised ?r), (s2, w))"
    and s2: "s2 = exchanged ?r s1"
    using exchange_run [of "constant_net ?r" client s1 ack u ca ce w ?r w] by (simp add: constant_net_def)
  have s2_ok: "octet_id (upstream_last_eap_req_id s2)" "up_next_id s2 < 256" "down_reasm s2 = down_reasm s"
    using id octet_id_next by (simp_all add: s2 exchanged_def after_exchange_def Let_def)
  obtain q where q: "parse empty_fragment = Inr q" "more_fragments q" "tls_data q = []" "tls_message_length q = None"
    using empty_fragment_parsed by fastforce
  have "admissible q (abs_reasm (down_reasm s2)) (max_message_len (down_reasm s2))"
    using assms(7,8) q s2_ok(3) by (simp add: admissible_def ready_abs accumulated_def declared_tml_def)
  moreover have "spec_ingest q (abs_reasm (down_reasm s2)) = (None, Some [])"
    using assms(7) q s2_ok(3) by (simp add: spec_ingest_def is_ack_def ready_abs)
  ultimately obtain x where x: "ingest q (down_reasm s2) = Some (Inr None, x)" "abs_reasm x = Some []"
    "max_message_len x = max_message_len (down_reasm s)"
    using reasm.feed_step [of q "down_reasm s2"] s2_ok(3) by auto
  then have "draining (s2\<lparr>down_reasm := x\<rparr>)"
    using s2_ok assms(8) by (auto simp: draining_def abs_reasm_def split: if_splits)
  note hang = drain_diverges [OF q(2) this, of client clk u ca ce w]
  have "flight_reply ?r q"
    using q(1) by (intro flight_eap_reply) (simp_all add: empty_fragment_def)
  from handle_challenge [OF this, of ?send clk u ca ce s2 w] have "handle_upstream_reply ?send clk (Some (normalised ?r)) u ca ce (s2, w) = None"
    using hang by (simp add: bindP_on_down x(1) bindP_None)
  then have "supplicant_ack ?send clk u ca ce (entered pkt s, w) = None"
    using assms(5,6) ack by (simp add: supplicant_ack_def prog_simps bindP_Some_Inr id(1) ex)
  then show ?thesis using assms(4) by (simp add: handle_reassemble [OF assms(3,2)])
qed

theorem handler_may_hang_witness:
  "handle_supplicant_eap (send_eap (constant_net (eap_reply 11 empty_fragment)) lab_client) lab_clock
     [2, 7, 0, 6, 13, 0] ''u'' None None (lab_session, ()) = None"
  by (rule handler_may_hang [OF lab_sound _ lab_ack_parsed]) (simp_all add: is_ack_def ready_abs)

section \<open>Two paths where the supplicant gets the wrong record\<close>

text \<open>
  C40: when the server breaks off its flight with a challenge that carries no EAP packet, the
  octets collected so far go to the supplicant as if they were the whole record, although
  the server declared more and never sent its last fragment.
\<close>

theorem broken_flight_delivered:
  assumes "flight_reply r pkt" and "more_fragments pkt" and "tls_message_length pkt = Some n"
    and "length (tls_data pkt) < n" and "int n \<le> max_message_len (down_reasm s)"
    and "ready (down_reasm s)" and "upstream_last_eap_req_id s = Some i" and "i < 256"
    and "proper_reply r2" and "pr_code r2 = AccessChallenge" and "eap_messages (normalised r2) = []"
  shows "\<exists>s' req. handle_upstream_reply (send_eap recording_net client) clk (Some (normalised r)) u ca ce (s, (v, seen, r2 # rs))
    = deliver_record (tls_data pkt) (s', (v, seen @ [req], rs))"
proof -
  have "admissible pkt (abs_reasm (down_reasm s)) (max_message_len (down_reasm s))"
    using assms(3-6) by (simp add: admissible_def ready_abs accumulated_def declared_tml_def)
  moreover have "spec_ingest pkt (abs_reasm (down_reasm s)) = (None, Some (tls_data pkt))"
    using assms(2,6) by (simp add: spec_ingest_def is_ack_def ready_abs)
  ultimately obtain x where x: "ingest pkt (down_reasm s) = Some (Inr None, x)" "abs_reasm x = Some (tls_data pkt)"
    using reasm.feed_step [of pkt "down_reasm s"] by auto
  have buf: "buffer x = tls_data pkt" using x(2) by (simp add: abs_reasm_def split: if_splits)
  let ?s1 = "s\<lparr>down_reasm := x\<rparr>"
  let ?s2 = "?s1\<lparr>down := (down ?s1)\<lparr>acks_generated := acks_generated (down ?s1) + 1\<rparr>\<rparr>"
  obtain ack where ack: "build_ack 2 i = Inr ack" using build_ack_octet assms(8) by fastforce
  let ?req = "build_request client ?s2 ack u (radius_state ?s2) ca ce"
  have no: "\<not> accept (normalised r2)" "\<not> reject (normalised r2)"
    using assms(10) by (simp_all add: normalised_def radius_code_defs)
  have "drain_upstream_fragments (send_eap recording_net client) clk u ca ce pkt (?s1, (v, seen, r2 # rs)) =
      Some (Inr (Some (tls_data pkt)), (exchanged r2 ?s2, (v, seen @ [?req], rs)))"
    by (subst drain_upstream_fragments.simps)
      (simp add: assms(2,7,9,11) drain_ack_def prog_assoc response_id_run [where i = i] ack prog_simps
        bindP_exchange_recorded no buf)
  then have "handle_upstream_reply (send_eap recording_net client) clk (Some (normalised r)) u ca ce (s, (v, seen, r2 # rs))
      = deliver_record (tls_data pkt) (exchanged r2 ?s2, (v, seen @ [?req], rs))"
    using handle_challenge [OF assms(1), of "send_eap recording_net client" clk u ca ce s "(v, seen, r2 # rs)"]
    by (simp add: bindP_on_down x(1) bindP_Some_Inr)
  then show ?thesis by blast
qed

theorem broken_flight_delivered_witness:
  "\<exists>s' req. handle_upstream_reply (send_eap recording_net lab_client) lab_clock
      (Some (normalised (eap_reply 11 [1, 5, 0, 12, 13, 0xC0, 0, 0, 0, 9, 10, 20]))) ''u'' None None
      (lab_session\<lparr>upstream_last_eap_req_id := Some 5\<rparr>, ((), [], [eap_reply 11 []]))
    = deliver_record [10, 20] (s', ((), [req], []))"
proof -
  have parsed: "parse [1, 5, 0, 12, 13, 0xC0, 0, 0, 0, 9, 10, 20] =
      Inr \<lparr>eap_code = 1, eap_identifier = 5, length_included = True, more_fragments = True,
           start = False, tls_message_length = Some 9, tls_data = [10, 20]\<rparr>" (is "_ = Inr ?p")
    by code_simp
  have "eap_messages (normalised (eap_reply 11 [])) = []" "pr_code (eap_reply 11 []) = AccessChallenge"
    by (simp_all add: normalised_def eap_reply_def concat_eap_messages_def AccessChallenge_def)
  then show ?thesis
    using broken_flight_delivered [OF flight_eap_reply [OF _ parsed], of 9 "lab_session\<lparr>upstream_last_eap_req_id := Some 5\<rparr>" 5
        "eap_reply 11 []" lab_client lab_clock "''u''" None None "()" "[]" "[]"]
    by (simp add: ready_abs)
qed

text \<open>
  An EAP-TLS ACK of the server is no fragment, so it leaves the reassembler as it is and
  the drain ends at once; what the supplicant then gets is the reassembler's buffer, that is
  the record it already received, once more.
\<close>

lemma server_ack_replays_record:
  assumes "flight_reply r pkt" and "is_ack pkt"
  shows "handle_upstream_reply send clk (Some (normalised r)) u ca ce (s, w) =
    deliver_record (buffer (down_reasm s)) (s, w)"
proof -
  have nomore: "\<not> more_fragments pkt" using assms(2) by (simp add: is_ack_def)
  have ing: "ingest pkt (down_reasm s) = Some (Inr None, down_reasm s)"
    using assms(2) by (simp add: ingest_def prog_simps)
  have "drain_upstream_fragments send clk u ca ce pkt (s, w) = Some (Inr (Some (buffer (down_reasm s))), (s, w))"
    by (subst drain_upstream_fragments.simps) (simp add: nomore prog_simps)
  then show ?thesis
    by (simp add: handle_challenge [OF assms(1)] bindP_on_down ing bindP_Some_Inr)
qed

end
