(* ===== verification/Client_Composition.thy ===== *)
theory Client_Composition
  imports Radius_Client Mediator_Liveness
begin

text \<open>
  The mediator over the retrying client: \<open>send_eap\<close> with \<open>_BigReplyClient._SendPacket\<close> in place of
  the parameter \<open>send_packet\<close>. What is left to pyrad is the packet object (\<open>pyrad_client\<close>): which
  calls it refuses, the packet they make, and the values it holds of a reply.

  The composition is the \<open>send_eap\<close> of the other theories over a suitable \<open>upstream_net\<close>, as long
  as the clock ticks. A triple for the whole handler, method by method, then carries a meter of
  the datagrams sent along with the session's count of round trips.
\<close>

section \<open>\<open>send_eap\<close> over the retrying client\<close>

record ('p, 'r, 'w) pyrad_client =
  request_fault :: "request_call list \<Rightarrow> py_error option"
  request_packet :: "request_call list \<Rightarrow> 'w \<Rightarrow> 'p \<times> 'w"
  reply_view :: "'r \<Rightarrow> pyrad_reply"

definition client_call ::
  "('p, 'r, 'w) pyrad_client \<Rightarrow> ('p, 'r, 'w) radius_io \<Rightarrow> nat \<Rightarrow> real \<Rightarrow> request_call list \<Rightarrow>
   (session \<times> 'w, pyrad_reply) prog" where
  "client_call pc io retries timeout req sw =
     (case request_packet pc req (snd sw) of (p, w) \<Rightarrow>
        case send_packet_retrying io retries timeout (p, w) of
          None \<Rightarrow> None
        | Some (x, (p', w')) \<Rightarrow> Some (map_sum id (reply_view pc) x, (fst sw, w')))"

definition send_eap_retrying ::
  "('p, 'r, 'w) pyrad_client \<Rightarrow> ('p, 'r, 'w) radius_io \<Rightarrow> nat \<Rightarrow> upstream_client \<Rightarrow> 'w sender" where
  "send_eap_retrying pc io retries client =
     send_eap_through (request_fault pc) (client_call pc io retries (timeout_s client)) client"

text \<open>The network that the client makes of the socket; the last case is never reached by a ticking clock.\<close>

definition client_net ::
  "('p, 'r, 'w) pyrad_client \<Rightarrow> ('p, 'r, 'w) radius_io \<Rightarrow> nat \<Rightarrow> upstream_client \<Rightarrow> 'w upstream_net" where
  "client_net pc io retries client =
     \<lparr>request_error = request_fault pc,
      send_packet = (\<lambda>req w.
        case request_packet pc req w of (p, w1) \<Rightarrow>
          case send_packet_retrying io retries (timeout_s client) (p, w1) of
            Some (x, (p', w')) \<Rightarrow> (map_sum id (reply_view pc) x, w')
          | None \<Rightarrow> (Inl Timeout, w))\<rparr>"

lemma client_net_sel [simp]: "request_error (client_net pc io retries client) = request_fault pc"
  by (simp add: client_net_def)

lemma client_call_returns:
  assumes "ticking io clk d"
  shows "client_call pc io retries (timeout_s client) req = ioP (send_packet (client_net pc io retries client) req)"
proof
  fix sw :: "session \<times> _"
  obtain p w where made: "request_packet pc req (snd sw) = (p, w)" by fastforce
  obtain x p' w' where "send_packet_retrying io retries (timeout_s client) (p, w) = Some (x, (p', w'))"
    using client_returns [OF assms] by blast
  with made show "client_call pc io retries (timeout_s client) req sw = ioP (send_packet (client_net pc io retries client) req) sw"
    by (cases sw) (simp add: client_call_def client_net_def ioP_apply)
qed

lemma send_eap_retrying_eq:
  assumes "ticking io clk d"
  shows "send_eap_retrying pc io retries client = send_eap (client_net pc io retries client) client"
proof -
  have "client_call pc io retries (timeout_s client) = (\<lambda>req. ioP (send_packet (client_net pc io retries client) req))"
    by (rule ext) (rule client_call_returns [OF assms])
  then show ?thesis by (simp add: send_eap_retrying_def send_eap_def)
qed

section \<open>A meter over the handler\<close>

text \<open>
  A law \<open>P\<close> of the session's count of round trips and the world, which an exchange with the
  server keeps when it brings a reply, and weakens to \<open>E\<close> when it raises.
\<close>

locale metered_leg =
  fixes send :: "'w sender" and clk :: "'w \<Rightarrow> real \<times> 'w" and P E :: "nat \<Rightarrow> 'w \<Rightarrow> bool"
  assumes weaker: "P n w \<Longrightarrow> E n w"
    and clock: "P n w \<Longrightarrow> P n (snd (clk w))"
    and replied: "P (upstream_round_trips s) w \<Longrightarrow> send eap u st ca ce (s, w) = Some (Inr r, (s', w')) \<Longrightarrow>
      P (upstream_round_trips s') w'"
    and raised: "P (upstream_round_trips s) w \<Longrightarrow> send eap u st ca ce (s, w) = Some (Inl e, (s', w')) \<Longrightarrow>
      E (upstream_round_trips s') w'"
begin

definition lawful :: "(nat \<Rightarrow> 'w \<Rightarrow> bool) \<Rightarrow> session \<times> 'w \<Rightarrow> bool" where
  "lawful L sw \<longleftrightarrow> L (upstream_round_trips (fst sw)) (snd sw)"

lemma lawful_pair [simp]: "lawful L (s, w) = L (upstream_round_trips s) w"
  by (simp add: lawful_def)

definition metered :: "(session \<times> 'w, 'a) prog \<Rightarrow> bool" where
  "metered m \<longleftrightarrow> hoare (lawful P) m (\<lambda>_. lawful P) (\<lambda>_. lawful E)"

lemma metered_run:
  "metered m \<Longrightarrow> lawful P sw \<Longrightarrow> m sw = Some y \<Longrightarrow> (case fst y of Inl e \<Rightarrow> lawful E (snd y) | Inr x \<Rightarrow> lawful P (snd y))"
  unfolding metered_def by (rule hoare_run)

lemma metered_bindP: "metered m \<Longrightarrow> (\<And>x. metered (k x)) \<Longrightarrow> metered (bindP m k)"
  unfolding metered_def by (rule hoare_bindP)

lemma metered_thenP: "metered m \<Longrightarrow> metered k \<Longrightarrow> metered (thenP m k)"
  unfolding thenP_def by (rule metered_bindP)

lemma metered_return: "metered (returnP x)"
  unfolding metered_def by (rule hoare_returnP)

lemma metered_raise: "metered (raiseP e)"
  unfolding metered_def by (rule hoare_raiseP) (auto intro: weaker)

lemma metered_lift: "metered (liftP r)"
  unfolding metered_def by (rule hoare_liftP) (auto intro: weaker)

lemma metered_get: "metered (getS f)"
  unfolding metered_def by (rule hoare_getS)

lemma metered_mod: "(\<And>s. upstream_round_trips (f s) = upstream_round_trips s) \<Longrightarrow> metered (modS f)"
  unfolding metered_def by (rule hoareI) (auto simp: modS_apply)

lemma metered_on:
  assumes "\<And>s r s'. m s = Some (r, s') \<Longrightarrow> upstream_round_trips s' = upstream_round_trips s"
  shows "metered (onS m)"
  unfolding metered_def
  by (rule hoareI) (auto simp: onS_def zoomP_def dest!: assms intro: weaker split: option.splits)

lemma metered_if: "metered m \<Longrightarrow> metered m' \<Longrightarrow> metered (if c then m else m')"
  by simp

lemma metered_option: "metered m \<Longrightarrow> (\<And>x. metered (k x)) \<Longrightarrow> metered (case y of None \<Rightarrow> m | Some x \<Rightarrow> k x)"
  by (simp split: option.split)

lemma metered_list: "metered m \<Longrightarrow> (\<And>x xs. metered (k x xs)) \<Longrightarrow> metered (case y of [] \<Rightarrow> m | x # xs \<Rightarrow> k x xs)"
  by (simp split: list.split)

lemma metered_send: "metered (send eap u st ca ce)"
  unfolding metered_def by (rule hoareI) (auto dest: replied raised)

lemma metered_id: "metered (onS next_up_id)" "metered (onS next_down_id)"
  by (rule metered_on; auto simp: next_up_id_def next_down_id_def prog_simps)+

lemma metered_reasm: "metered (on_up (ingest pkt))" "metered (on_down (ingest pkt))"
  unfolding on_up_def on_down_def by (rule metered_on; auto simp: zoomP_def split: option.splits)+

lemma metered_finish: "metered (finish_now clk res)"
proof -
  have "metered (ioP (\<lambda>w. case clk w of (t, w') \<Rightarrow> (Inr t, w')))"
    unfolding metered_def by (rule hoare_ioP) (auto split: prod.splits dest: clock)
  then show ?thesis
    unfolding finish_now_def by (rule metered_bindP) (rule metered_mod, simp add: finish_def)
qed

lemmas metered_rules =
  metered_bindP metered_thenP metered_return metered_raise metered_lift metered_get metered_if metered_option
  metered_list metered_send metered_id metered_reasm metered_finish

lemma metered_steps:
  "metered (terminal_outcome a pend)" "metered upstream_response_id" "metered (exchange send eap u ca ce)"
  "metered (stash_terminal clk reply)" "metered send_next_downstream_fragment"
  unfolding terminal_outcome_def upstream_response_id_def exchange_def stash_terminal_def send_next_downstream_fragment_def Let_def
  by (intro metered_rules metered_mod; simp)+

lemma metered_begin: "metered (begin_downstream_fragmentation d)"
  unfolding begin_downstream_fragmentation_def by (intro metered_rules metered_steps metered_mod; simp)

lemma metered_deliver: "metered (deliver_record d)"
  unfolding deliver_record_def by (intro metered_rules metered_begin metered_mod; simp)

lemma metered_drain_ack: "metered (drain_ack send u ca ce)"
  unfolding drain_ack_def by (intro metered_rules metered_steps metered_mod; simp)

lemma metered_drain: "metered (drain_upstream_fragments send clk u ca ce pkt)"
proof -
  let ?P = "\<lambda>send' clk' u ca ce p sw y. send' = send \<and> clk' = clk \<and> lawful P sw \<longrightarrow>
    (case fst y of Inl e \<Rightarrow> lawful E (snd y) | Inr x \<Rightarrow> lawful P (snd y))"
  have step: "?P send clk u ca ce pkt sw y" if "drain_upstream_fragments send clk u ca ce pkt sw = Some y" for sw y
  proof (rule drain_upstream_fragments.raw_induct [OF _ that, where P = ?P])
    fix f send' clk' u ca ce p sw y
    assume hyp: "\<And>send clk u ca ce p sw y. f send clk u ca ce p sw = Some y \<Longrightarrow> ?P send clk u ca ce p sw y"
      and run: "(if more_fragments p then
        bindP (drain_ack send' u ca ce) (\<lambda>reply.
          if accept reply \<or> reject reply then thenP (stash_terminal clk' reply) (returnP None)
          else
            case eap_messages reply of
              [] \<Rightarrow> bindP (getS (\<lambda>s. buffer (down_reasm s))) (\<lambda>b. returnP (Some b))
            | m # ms \<Rightarrow>
                bindP (liftP (parse m)) (\<lambda>pkt.
                bindP (on_down (ingest pkt)) (\<lambda>complete.
                  case complete of
                    None \<Rightarrow> f send' clk' u ca ce pkt
                  | Some d \<Rightarrow> returnP (Some d))))
      else bindP (getS (\<lambda>s. buffer (down_reasm s))) (\<lambda>b. returnP (Some b))) sw = Some y"
    have IH: "metered (f send clk u ca ce pkt)" for pkt
      unfolding metered_def by (intro hoareI) (drule hyp, simp)+
    show "?P send' clk' u ca ce p sw y"
    proof (intro impI, elim conjE)
      assume eqs: "send' = send" "clk' = clk" and inv: "lawful P sw"
      have body: "metered (if more_fragments p then
        bindP (drain_ack send u ca ce) (\<lambda>reply.
          if accept reply \<or> reject reply then thenP (stash_terminal clk reply) (returnP None)
          else
            case eap_messages reply of
              [] \<Rightarrow> bindP (getS (\<lambda>s. buffer (down_reasm s))) (\<lambda>b. returnP (Some b))
            | m # ms \<Rightarrow>
                bindP (liftP (parse m)) (\<lambda>pkt.
                bindP (on_down (ingest pkt)) (\<lambda>complete.
                  case complete of
                    None \<Rightarrow> f send clk u ca ce pkt
                  | Some d \<Rightarrow> returnP (Some d))))
      else bindP (getS (\<lambda>s. buffer (down_reasm s))) (\<lambda>b. returnP (Some b)))"
        by (intro metered_rules metered_steps metered_drain_ack IH)
      show "case fst y of Inl e \<Rightarrow> lawful E (snd y) | Inr x \<Rightarrow> lawful P (snd y)"
        by (rule metered_run [OF body inv]) (rule run [unfolded eqs])
    qed
  qed
  show ?thesis unfolding metered_def by (intro hoareI) (drule step, simp)+
qed

lemma metered_handle_reply: "metered (handle_upstream_reply send clk reply_opt u ca ce)"
  unfolding handle_upstream_reply_def by (intro metered_rules metered_steps metered_deliver metered_drain)

lemma metered_forward_chunks: "metered (forward_chunks send u ca ce n t rep cs)"
proof (induction cs arbitrary: rep)
  case (Cons c cs)
  then show ?case unfolding forward_chunks.simps by (intro metered_rules metered_steps metered_mod; simp)
qed (simp add: metered_return)

lemma metered_paths:
  "metered (passthrough_upstream send clk eap u ca ce)" "metered (supplicant_ack send clk u ca ce)"
  "metered (forward_record_upstream send clk d u ca ce)"
  unfolding passthrough_upstream_def supplicant_ack_def forward_record_upstream_def
  by (intro metered_rules metered_steps metered_handle_reply metered_forward_chunks metered_mod; simp)+

lemma metered_data: "metered (supplicant_data send clk pkt u ca ce)"
  unfolding supplicant_data_def by (intro metered_rules metered_paths metered_mod; simp)

lemma metered_handle: "metered (handle_supplicant_eap send clk eap u ca ce)"
  unfolding handle_supplicant_eap_def by (intro metered_rules metered_paths metered_data metered_mod; simp)

lemma handle_run:
  assumes "P (upstream_round_trips s) w" and "handle_supplicant_eap send clk eap u ca ce (s, w) = Some (r, (s', w'))"
  shows "E (upstream_round_trips s') w' \<and> (\<forall>out. r = Inr out \<longrightarrow> P (upstream_round_trips s') w')"
proof -
  have "lawful P (s, w)" using assms(1) by simp
  from hoare_run [OF metered_handle [unfolded metered_def] this assms(2)] show ?thesis
    using weaker by (cases r) auto
qed

end

text \<open>Whatever the mediator does, its count of round trips never goes down.\<close>

interpretation trips: metered_leg "send_eap net client" clk "\<lambda>k w. t \<le> k" "\<lambda>k w. t \<le> k" for net client clk t
proof
  fix eap u st ca ce w r w' and s s' :: session
  assume up: "t \<le> upstream_round_trips s"
  show "t \<le> upstream_round_trips s'" if "send_eap net client eap u st ca ce (s, w) = Some (Inr r, (s', w'))"
    using leg.send_trip [OF that] up by simp
  show "t \<le> upstream_round_trips s'" if "send_eap net client eap u st ca ce (s, w) = Some (Inl e, (s', w'))" for e
    using that up by (cases rule: send_eap_result) auto
qed simp_all

section \<open>Round trips and datagrams\<close>

text \<open>Making a packet, and reading the clock, send nothing.\<close>

definition quiet :: "('p, 'r, 'w) pyrad_client \<Rightarrow> ('w \<Rightarrow> nat) \<Rightarrow> bool" where
  "quiet pc n \<longleftrightarrow> (\<forall>req w. n (snd (request_packet pc req w)) = n w)"

lemma client_net_counts:
  assumes "ticking io clk d" and "counting io n" and "no_timeout io" and "quiet pc n"
    and "send_packet (client_net pc io retries client) req w = (x, w')"
  shows "n w' \<le> n w + retries" "x = Inr r \<Longrightarrow> n w < n w'" "x = Inl Timeout \<Longrightarrow> n w' = n w + retries"
proof -
  obtain p w1 where made: "request_packet pc req w = (p, w1)" by fastforce
  then have n: "n w1 = n w" using assms(4) unfolding quiet_def by (metis snd_conv)
  obtain y p' w2 where run: "send_packet_retrying io retries (timeout_s client) (p, w1) = Some (y, (p', w2))"
    using client_returns [OF assms(1)] by blast
  then have xw: "x = map_sum id (reply_view pc) y" "w' = w2"
    using assms(5) made by (simp_all add: client_net_def)
  note bounds = transmissions_bounded [OF assms(2,3) run]
  show "n w' \<le> n w + retries" using bounds n xw by simp
  show "n w < n w'" if "x = Inr r" using bounds n xw that by (cases y) auto
  show "n w' = n w + retries" if "x = Inl Timeout" using bounds n xw that by (cases y) auto
qed

lemma client_exchange:
  assumes "ticking io clk d" and "counting io n" and "no_timeout io" and "quiet pc n"
    and "send_eap (client_net pc io retries client) client eap u st ca ce (s, w) = Some (x, (s', w'))"
  shows "x = Inr r \<Longrightarrow> upstream_round_trips s' = upstream_round_trips s + 1 \<and> n w < n w' \<and> n w' \<le> n w + retries"
    and "x = Inl e \<Longrightarrow> upstream_round_trips s' = upstream_round_trips s \<and> n w' = n w \<or>
      upstream_round_trips s' = upstream_round_trips s + 1 \<and> n w' \<le> n w + retries"
    and "x = Inl Timeout \<Longrightarrow> request_fault pc (build_request client s eap u st ca ce) \<noteq> Some Timeout \<Longrightarrow>
      upstream_round_trips s' = upstream_round_trips s + 1 \<and> n w' = n w + retries"
proof -
  note counts = client_net_counts [OF assms(1-4) surjective_pairing]
  show "upstream_round_trips s' = upstream_round_trips s + 1 \<and> n w < n w' \<and> n w' \<le> n w + retries" if "x = Inr r"
    using assms(5)
  proof (cases rule: send_eap_result)
    case (replied y)
    then show ?thesis using client_net_counts [OF assms(1-4) replied(4)] leg.send_trip [OF assms(5) [unfolded that]] by simp
  qed (use that in simp_all)
  show "upstream_round_trips s' = upstream_round_trips s \<and> n w' = n w \<or>
      upstream_round_trips s' = upstream_round_trips s + 1 \<and> n w' \<le> n w + retries" if "x = Inl e"
    using assms(5) by (cases rule: send_eap_result) (use that counts(1) in auto)
  show "upstream_round_trips s' = upstream_round_trips s + 1 \<and> n w' = n w + retries"
    if "x = Inl Timeout" "request_fault pc (build_request client s eap u st ca ce) \<noteq> Some Timeout"
    using assms(5) by (cases rule: send_eap_result) (use that counts(3) in auto)
qed

lemma client_metered:
  assumes "ticking io tick d" and "counting io n" and "no_timeout io" and "quiet pc n"
    and "\<And>w. n (snd (clk w)) = n w"
  shows "metered_leg (send_eap (client_net pc io retries client) client) clk
    (\<lambda>k w. t \<le> k \<and> c + (k - t) \<le> n w \<and> n w \<le> c + retries * (k - t)) (\<lambda>k w. t \<le> k \<and> n w \<le> c + retries * (k - t))"
proof
  fix eap u st ca ce w w' and s s' :: session
  assume law: "t \<le> upstream_round_trips s \<and> c + (upstream_round_trips s - t) \<le> n w \<and> n w \<le> c + retries * (upstream_round_trips s - t)"
  have next_trip: "retries * (upstream_round_trips s + 1 - t) = retries * (upstream_round_trips s - t) + retries"
    using law by (simp add: Suc_diff_le)
  show "t \<le> upstream_round_trips s' \<and> c + (upstream_round_trips s' - t) \<le> n w' \<and> n w' \<le> c + retries * (upstream_round_trips s' - t)"
    if "send_eap (client_net pc io retries client) client eap u st ca ce (s, w) = Some (Inr r, (s', w'))" for r
    using client_exchange(1) [OF assms(1-4) that refl] law next_trip by auto
  show "t \<le> upstream_round_trips s' \<and> n w' \<le> c + retries * (upstream_round_trips s' - t)"
    if "send_eap (client_net pc io retries client) client eap u st ca ce (s, w) = Some (Inl e, (s', w'))" for e
    using client_exchange(2) [OF assms(1-4) that refl] law next_trip by auto
qed (use assms(5) in auto)

text \<open>
  C29: an exchange of the mediator over the retrying client always ends, as the exchange over
  the network the client makes of the socket. A reply costs one counted round trip and between one
  and \<open>retries\<close> datagrams; an exception costs at most that, or nothing when pyrad refused to
  encode the request; \<open>Timeout\<close> comes after exactly \<open>retries\<close> datagrams.
\<close>

theorem exchange_over_client:
  assumes "ticking io clk d" and "counting io n" and "no_timeout io" and "quiet pc n"
  shows "\<exists>x s' w'. send_eap_retrying pc io retries client eap u st ca ce (s, w) = Some (x, (s', w')) \<and>
    send_eap (client_net pc io retries client) client eap u st ca ce (s, w) = Some (x, (s', w')) \<and>
    (\<forall>r. x = Inr r \<longrightarrow> upstream_round_trips s' = upstream_round_trips s + 1 \<and> n w < n w' \<and> n w' \<le> n w + retries) \<and>
    (\<forall>e. x = Inl e \<longrightarrow> upstream_round_trips s' = upstream_round_trips s \<and> n w' = n w \<or>
       upstream_round_trips s' = upstream_round_trips s + 1 \<and> n w' \<le> n w + retries) \<and>
    (x = Inl Timeout \<and> request_fault pc (build_request client s eap u st ca ce) \<noteq> Some Timeout \<longrightarrow>
       upstream_round_trips s' = upstream_round_trips s + 1 \<and> n w' = n w + retries)"
proof -
  obtain x s' w' where run: "send_eap (client_net pc io retries client) client eap u st ca ce (s, w) = Some (x, (s', w'))"
    using send_eap_total by (metis not_None_eq prod.exhaust)
  show ?thesis
    unfolding send_eap_retrying_eq [OF assms(1)]
    by (rule exI [of _ x], rule exI [of _ s'], rule exI [of _ w'])
      (use run client_exchange [OF assms run] in auto)
qed

text \<open>
  C30: the count the report gives as the cost of an authentication is that of the datagrams
  sent to the server, up to retransmission: the handler sends at most \<open>retries\<close> datagrams for
  each round trip it counts, whatever its outcome, and at least one when it ends without an exception.
  It ends when the fragments of the server carry data.
\<close>

theorem handler_transmissions:
  assumes "ticking io tick d" and "counting io n" and "no_timeout io" and "quiet pc n"
    and "\<And>w. n (snd (clk w)) = n w"
  shows "(progressive (send_eap_retrying pc io retries client) \<longrightarrow>
      handle_supplicant_eap (send_eap_retrying pc io retries client) clk eap u ca ce (s, w) \<noteq> None) \<and>
    (\<forall>r s' w'. handle_supplicant_eap (send_eap_retrying pc io retries client) clk eap u ca ce (s, w) = Some (r, (s', w')) \<longrightarrow>
      upstream_round_trips s \<le> upstream_round_trips s' \<and>
      n w' \<le> n w + retries * (upstream_round_trips s' - upstream_round_trips s) \<and>
      (\<forall>out. r = Inr out \<longrightarrow> n w + (upstream_round_trips s' - upstream_round_trips s) \<le> n w'))"
proof -
  note same = send_eap_retrying_eq [OF assms(1), of pc retries client]
  have law: "upstream_round_trips s \<le> upstream_round_trips s \<and> n w + (upstream_round_trips s - upstream_round_trips s) \<le> n w \<and>
      n w \<le> n w + retries * (upstream_round_trips s - upstream_round_trips s)" by simp
  note run = metered_leg.handle_run [OF client_metered [OF assms] law]
  show ?thesis unfolding same
    by (intro conjI impI allI; (erule leg.handle_returns)?; drule run) auto
qed

text \<open>
  A client whose replies are all the server's rejection; two forged datagrams use up the first attempt,
  and the reply to the second one is genuine.
\<close>

definition lab_pyrad :: "(bytes, bytes, real \<times> bytes list \<times> nat) pyrad_client" where
  "lab_pyrad = \<lparr>request_fault = (\<lambda>_. None), request_packet = (\<lambda>req w. ([1], w)),
     reply_view = (\<lambda>_. eap_reply 3 [4, 7, 0, 4])\<rparr>"

abbreviation hasty :: upstream_client where
  "hasty \<equiv> lab_client\<lparr>timeout_s := 2\<rparr>"

lemma lab_ticking: "ticking lab_io (\<lambda>(t, i, c). t) 1"
  by (auto simp: ticking_def)

lemma lab_quiet: "quiet lab_pyrad n"
  by (simp add: quiet_def lab_pyrad_def)

lemma hasty_await:
  "await_reply lab_io 2 0 ([1], (0, [[9], [9], [2, 5]], c)) = Some (Inr None, ([1], (2, [[2, 5]], c)))"
  "await_reply lab_io 4 2 ([1], (2, [[2, 5]], c)) = Some (Inr (Some [2, 5]), ([1], (3, [], c)))"
  by (subst await_reply.simps, simp add: await_turn_def bindP_def ioP_apply getS_apply liftP_def try_reply_def
      except_packet_error_def read_clock_def returnP_def;
      (subst await_reply.simps, simp add: await_turn_def bindP_def ioP_apply getS_apply liftP_def try_reply_def
        except_packet_error_def read_clock_def returnP_def;
       (subst await_reply.simps, simp add: returnP_def)?)?)+

lemma hasty_exchange:
  "send_packet_retrying lab_io 3 2 ([1], (0, [[9], [9], [2, 5]], 0)) = Some (Inr [2, 5], ([1], (3, [], 2)))"
proof -
  have "[0..<3] = [0, 1, 2 :: nat]" by (simp add: upt_rec)
  then show ?thesis
    by (simp add: send_packet_retrying_def attempt_once_def charge_delay_def thenP_def bindP_def ioP_apply getS_apply modS_apply
        liftP_def read_clock_def encode_request_def onS_def zoomP_def hasty_await AccountingRequest_def returnP_def)
qed

lemma hasty_send:
  "send_packet (client_net lab_pyrad lab_io 3 hasty) req (0, [[9], [9], [2, 5]], 0) = (Inr (eap_reply 3 [4, 7, 0, 4]), (3, [], 2))"
  by (simp add: client_net_def lab_pyrad_def hasty_exchange)

text \<open>One round trip is counted, and two datagrams went out.\<close>

theorem exchange_over_client_witness:
  "\<exists>x s' w'. send_eap_retrying lab_pyrad lab_io 3 hasty [2, 7, 0, 6, 13, 0] ''u'' None None None
      (lab_session, (0, [[9], [9], [2, 5]], 0)) = Some (Inr x, (s', w')) \<and>
    upstream_round_trips s' = upstream_round_trips lab_session + 1 \<and> w' = (3, [], 2)"
proof -
  let ?w = "(0, [[9], [9], [2, 5]], 0) :: real \<times> bytes list \<times> nat"
  have run: "send_eap (client_net lab_pyrad lab_io 3 hasty) hasty [2, 7, 0, 6, 13, 0] ''u'' None None None (lab_session, ?w) =
      Some (Inr (normalised (eap_reply 3 [4, 7, 0, 4])), (after_exchange (eap_reply 3 [4, 7, 0, 4]) lab_session, (3, [], 2)))"
    by (rule send_eap_run) (simp_all add: hasty_send, simp add: lab_pyrad_def)
  show ?thesis
    using exchange_over_client [OF lab_ticking lab_counting lab_quiet, where s = lab_session and w = ?w and retries = 3
        and client = hasty and eap = "[2, 7, 0, 6, 13, 0]" and u = "''u''" and st = None and ca = None and ce = None] run
    by auto
qed

theorem handler_transmissions_witness:
  "\<exists>r s' t i c. handle_supplicant_eap (send_eap_retrying lab_pyrad lab_io 3 hasty) (\<lambda>w. (0, w)) [2, 7, 0, 6, 13, 0] ''u'' None None
      (lab_session, (0, [[9], [9], [2, 5]], 0)) = Some (r, (s', (t, i, c))) \<and>
    c \<le> 3 * (upstream_round_trips s' - upstream_round_trips lab_session)"
proof -
  have "reply = normalised (eap_reply 3 [4, 7, 0, 4])"
    if run: "send_eap (client_net lab_pyrad lab_io 3 hasty) hasty eap u st ca ce sw = Some (Inr reply, sw')" for eap u st ca ce sw reply sw'
  proof -
    obtain s w s' w' where sw: "sw = (s, w)" "sw' = (s', w')" by (cases sw; cases sw')
    have same_view: "r = eap_reply 3 [4, 7, 0, 4]" if "map_sum id (\<lambda>_. eap_reply 3 [4, 7, 0, 4]) y = Inr r" for r and y :: "py_error + bytes"
      using that by (cases y) auto
    show ?thesis using run unfolding sw
      by (cases rule: send_eap_result) (auto simp: client_net_def lab_pyrad_def dest!: same_view split: option.splits)
  qed
  moreover have "parse [4, 7, 0, 4] = Inl (EapTlsError (PacketTooShort 4))"
    by (simp add: parse_def EAP_HEADER_LEN_def)
  ultimately have carries: "progressive (send_eap_retrying lab_pyrad lab_io 3 hasty)"
    unfolding send_eap_retrying_eq [OF lab_ticking] by (fastforce simp: progressive_def eap_reply_messages)
  have bounds: "\<exists>r s' w'. handle_supplicant_eap (send_eap_retrying lab_pyrad lab_io 3 hasty) (\<lambda>w. (0, w)) [2, 7, 0, 6, 13, 0] ''u'' None None
      (lab_session, (0, [[9], [9], [2, 5]], 0)) = Some (r, (s', w')) \<and>
    (case w' of (t, i, c) \<Rightarrow> c) \<le> 0 + 3 * (upstream_round_trips s' - upstream_round_trips lab_session)"
    using handler_transmissions [OF lab_ticking lab_counting lab_quiet, where clk = "\<lambda>w. (0, w)" and s = lab_session
        and w = "(0, [[9], [9], [2, 5]], 0)" and retries = 3 and client = hasty and eap = "[2, 7, 0, 6, 13, 0]"
        and u = "''u''" and ca = None and ce = None] carries
    by (auto simp: carries)
  then show ?thesis by (auto split: prod.splits)
qed

end
