(* ===== verification/Downstream_Server.thy ===== *)
theory Downstream_Server
  imports Mediator
begin

text \<open>
  \<open>proxy/downstream_server.py\<close>: the server the access points talk to. A datagram is decoded,
  checked, matched to a session, routed to the mediator or straight upstream, answered, and
  its session dropped once it is over.

  The program runs over the session table and the outside world. A session is reached through
  its key, and what a handler assigns to it is written back to the table when the handler ends,
  with an exception too (\<open>on_session\<close>). What the source takes from pyrad and from the operating
  system is the parameter \<open>server_env\<close>. Text is represented by its UTF-8 octets, so that
  \<open>str.encode\<close> keeps the octets and \<open>bytes.decode\<close> keeps or refuses them.
  The properties are in \<open>Downstream_Properties\<close>, \<open>Downstream_Exchange\<close> and
  \<open>Downstream_Guarantees\<close>, those of whole conversations in \<open>Downstream_Conversation\<close> and the
  theories after it.
\<close>

section \<open>Text\<close>

definition hex_digit :: "nat \<Rightarrow> char" where
  "hex_digit n = (if n < 10 then char_of (48 + n) else char_of (87 + n))"

text \<open>\<open>bytes.hex\<close>\<close>

definition bytes_hex :: "bytes \<Rightarrow> string" where
  "bytes_hex bs = concat (map (\<lambda>b. [hex_digit (unat b div 16), hex_digit (unat b mod 16)]) bs)"

text \<open>\<open>str(n)\<close> of a number that is not negative\<close>

fun decimal :: "nat \<Rightarrow> string" where
  "decimal n = (if n < 10 then [char_of (48 + n)] else decimal (n div 10) @ [char_of (48 + n mod 10)])"

declare decimal.simps [simp del]

text \<open>The octet sequences \<open>bytes.decode\<close> accepts: well-formed UTF-8.\<close>

definition continuation :: "byte \<Rightarrow> bool" where
  "continuation b \<longleftrightarrow> 0x80 \<le> b \<and> b \<le> 0xBF"

fun valid_utf8 :: "bytes \<Rightarrow> bool" where
  "valid_utf8 [] \<longleftrightarrow> True"
| "valid_utf8 (a # bs) \<longleftrightarrow>
     (if a \<le> 0x7F then valid_utf8 bs
      else if 0xC2 \<le> a \<and> a \<le> 0xDF then
        (case bs of b # r \<Rightarrow> continuation b \<and> valid_utf8 r | _ \<Rightarrow> False)
      else if 0xE0 \<le> a \<and> a \<le> 0xEF then
        (case bs of
           b # c # r \<Rightarrow> continuation b \<and> continuation c \<and> (a = 0xE0 \<longrightarrow> 0xA0 \<le> b) \<and>
             (a = 0xED \<longrightarrow> b \<le> 0x9F) \<and> valid_utf8 r
         | _ \<Rightarrow> False)
      else if 0xF0 \<le> a \<and> a \<le> 0xF4 then
        (case bs of
           b # c # d # r \<Rightarrow> continuation b \<and> continuation c \<and> continuation d \<and> (a = 0xF0 \<longrightarrow> 0x90 \<le> b) \<and>
             (a = 0xF4 \<longrightarrow> b \<le> 0x8F) \<and> valid_utf8 r
         | _ \<Rightarrow> False)
      else False)"

definition py_decode :: "bytes \<Rightarrow> py_error + string" where
  "py_decode bs = (if valid_utf8 bs then Inr (map (\<lambda>b. char_of (unat b)) bs) else Inl UnicodeError)"

definition py_encode :: "string \<Rightarrow> bytes" where
  "py_encode t = map (\<lambda>c. word_of_nat (of_char c)) t"

section \<open>Requests, replies and the surroundings\<close>

text \<open>A value of a text or octets attribute as pyrad hands it out: bytes, or already a string.\<close>

datatype text_value = PyBytes bytes | PyStr string

type_synonym address = "string \<times> nat"

text \<open>
  A decoded Access-Request. \<open>name in req\<close> is \<open>\<noteq> None\<close>; the three views are the attributes read
  as text, those read as octets, and those captured as they are.
\<close>

record ap_request =
  rq_code :: nat
  rq_authenticator :: bytes
  rq_text :: "string \<Rightarrow> text_value list option"
  rq_octets :: "string \<Rightarrow> bytes list option"
  rq_any :: "string \<Rightarrow> attr_value list option"

record 'w server_env =
  auth_packet :: "bytes \<Rightarrow> py_error + ap_request"
  verifier :: "(ap_request \<Rightarrow> py_error + bool) option"
  call_error :: "ap_request \<Rightarrow> request_call \<Rightarrow> py_error option"
  reply_packet :: "ap_request \<Rightarrow> nat \<Rightarrow> request_call list \<Rightarrow> py_error + bytes"
  token_bytes :: "nat \<Rightarrow> 'w \<Rightarrow> bytes \<times> 'w"
  monotonic :: "'w \<Rightarrow> real \<times> 'w"
  sendto :: "bytes \<Rightarrow> address \<Rightarrow> 'w \<Rightarrow> (py_error + unit) \<times> 'w"
  upstream_send :: "'w sender"
  report :: "summary \<Rightarrow> 'w \<Rightarrow> (py_error + unit) \<times> 'w"

type_synonym ('w, 'a) server_prog = "(session_table \<times> 'w, 'a) prog"

text \<open>Run a method on the session object stored under a key.\<close>

definition on_session :: "string \<Rightarrow> ('w, 'a) handler \<Rightarrow> ('w, 'a) server_prog" where
  "on_session k m = (\<lambda>(t, w).
     case sessions t k of
       None \<Rightarrow> Some (Inl KeyError, (t, w))
     | Some s \<Rightarrow>
         (case m (s, w) of
            None \<Rightarrow> None
          | Some (r, (s', w')) \<Rightarrow> Some (r, (store_session k s' t, w'))))"

section \<open>Reading the request\<close>

definition check_message_authenticator :: "'w server_env \<Rightarrow> ap_request \<Rightarrow> py_error + bool" where
  "check_message_authenticator env req =
     (if rq_octets req ''Message-Authenticator'' = None then Inr False
      else case verifier env of
             Some f \<Rightarrow> (case f req of Inl e \<Rightarrow> if e = KeyboardInterrupt then Inl e else Inr False | Inr b \<Rightarrow> Inr b)
           | None \<Rightarrow> Inr True)"

definition get_str :: "ap_request \<Rightarrow> string \<Rightarrow> py_error + string option" where
  "get_str req name =
     (case rq_text req name of
        None \<Rightarrow> Inr None
      | Some [] \<Rightarrow> Inl IndexError
      | Some (PyBytes b # _) \<Rightarrow> (case py_decode b of Inl e \<Rightarrow> Inl e | Inr t \<Rightarrow> Inr (Some t))
      | Some (PyStr t # _) \<Rightarrow> Inr (Some t))"

definition get_bytes :: "ap_request \<Rightarrow> string \<Rightarrow> py_error + bytes option" where
  "get_bytes req name =
     (case rq_text req name of
        None \<Rightarrow> Inr None
      | Some [] \<Rightarrow> Inl IndexError
      | Some (PyBytes b # _) \<Rightarrow> Inr (Some b)
      | Some (PyStr t # _) \<Rightarrow> Inr (Some (py_encode t)))"

definition forwarded_attrs :: "string list" where
  "forwarded_attrs =
     [''NAS-IP-Address'', ''NAS-Identifier'', ''NAS-Port'', ''NAS-Port-Type'', ''Framed-MTU'', ''Service-Type'']"

primrec capture_attrs :: "ap_request \<Rightarrow> string list \<Rightarrow> ('w, unit) handler" where
  "capture_attrs req [] = returnP ()"
| "capture_attrs req (name # names) =
     (case rq_any req name of
        None \<Rightarrow> capture_attrs req names
      | Some [] \<Rightarrow> raiseP IndexError
      | Some (v # _) \<Rightarrow>
          thenP (modS (\<lambda>s. s\<lparr>ap_attrs := ap_attrs s @ [(name, v)]\<rparr>)) (capture_attrs req names))"

definition observe_request :: "ap_request \<Rightarrow> ('w, unit) handler" where
  "observe_request req =
     thenP (modS (\<lambda>s. s\<lparr>last_ap_authenticator := Some (rq_authenticator req)\<rparr>))
     (bindP (getS ap_attrs) (\<lambda>a. if a = [] then capture_attrs req forwarded_attrs else returnP ()))"

section \<open>Finding the session\<close>

definition eap_identifier_or_0 :: "bytes \<Rightarrow> nat" where
  "eap_identifier_or_0 eap = (if 2 \<le> length eap then unat (eap ! 1) else 0)"

definition lookup_key :: "bytes option \<Rightarrow> address \<Rightarrow> string option \<Rightarrow> bytes \<Rightarrow> string" where
  "lookup_key st addr calling eap =
     (case st of
        Some v \<Rightarrow> ''st:'' @ bytes_hex v
      | None \<Rightarrow>
          (case calling of
             Some c \<Rightarrow>
               if c \<noteq> [] then ''new:'' @ c
               else ''new:'' @ fst addr @ '':'' @ decimal (snd addr) @ '':'' @ decimal (eap_identifier_or_0 eap)
           | None \<Rightarrow> ''new:'' @ fst addr @ '':'' @ decimal (snd addr) @ '':'' @ decimal (eap_identifier_or_0 eap)))"

text \<open>\<open>get_or_create\<close> reads the clock only for a session it creates.\<close>

definition lookup_session ::
  "'w server_env \<Rightarrow> bytes option \<Rightarrow> address \<Rightarrow> string option \<Rightarrow> bytes \<Rightarrow> ('w, string) server_prog" where
  "lookup_session env st addr calling eap = (\<lambda>(t, w).
     let k = lookup_key st addr calling eap in
     case sessions t k of
       Some s \<Rightarrow> Some (Inr k, (t, w))
     | None \<Rightarrow>
         (case monotonic env w of (now, w') \<Rightarrow>
            Some (Inr k, (snd (get_or_create k (Some addr) now t), w'))))"

section \<open>Forwarding what is not EAP-TLS\<close>

definition passthrough_non_tls ::
  "'w server_env \<Rightarrow> bytes \<Rightarrow> string \<Rightarrow> string option \<Rightarrow> string option \<Rightarrow> ('w, outcome) handler" where
  "passthrough_non_tls env eap u ca ce =
     bindP (exchange (upstream_send env) eap u ca ce) (\<lambda>reply.
       let e = first_message (eap_messages reply) in
       if accept reply then
         thenP (finish_now (monotonic env) ''accept'') (returnP (mk_outcome Accept e None))
       else if reject reply then
         thenP (finish_now (monotonic env) ''reject'') (returnP (mk_outcome Reject e None))
       else returnP (mk_outcome Challenge e None))"

definition route ::
  "'w server_env \<Rightarrow> bytes \<Rightarrow> string \<Rightarrow> string option \<Rightarrow> string option \<Rightarrow> ('w, outcome) handler" where
  "route env eap u ca ce =
     (if 5 \<le> length eap \<and> unat (eap ! 4) = EAP_TYPE_TLS
      then handle_supplicant_eap (upstream_send env) (monotonic env) eap u ca ce
      else passthrough_non_tls env eap u ca ce)"

section \<open>The reply\<close>

definition add_call :: "'w server_env \<Rightarrow> ap_request \<Rightarrow> request_call \<Rightarrow> request_call list \<Rightarrow> ('w, request_call list) server_prog" where
  "add_call env req call calls =
     (case call_error env req call of Some e \<Rightarrow> raiseP e | None \<Rightarrow> returnP (calls @ [call]))"

primrec add_calls ::
  "'w server_env \<Rightarrow> ap_request \<Rightarrow> request_call list \<Rightarrow> request_call list \<Rightarrow> ('w, request_call list) server_prog" where
  "add_calls env req calls [] = returnP calls"
| "add_calls env req calls (c # cs) = bindP (add_call env req c calls) (\<lambda>calls'. add_calls env req calls' cs)"

definition set_if_octets :: "string \<Rightarrow> bytes option \<Rightarrow> request_call list" where
  "set_if_octets name v = (case v of None \<Rightarrow> [] | Some b \<Rightarrow> [SetItem name (AOctets b)])"

text \<open>
  Mint the downstream State once per session and move the session under it; the result is the
  key the session is stored under from then on.
\<close>

definition mint_state :: "'w server_env \<Rightarrow> string \<Rightarrow> ('w, string) server_prog" where
  "mint_state env k =
     bindP (on_session k (getS downstream_state)) (\<lambda>st.
       case st of
         Some v \<Rightarrow> returnP k
       | None \<Rightarrow>
           bindP (on_session k
             (bindP (ioP (\<lambda>w. case token_bytes env 16 w of (b, w') \<Rightarrow> (Inr b, w'))) (\<lambda>tok.
              thenP (modS (\<lambda>s. s\<lparr>downstream_state := Some tok\<rparr>)) (getS (\<lambda>s. (tok, key s)))))) (\<lambda>(tok, old).
           let new = ''st:'' @ bytes_hex tok in
           thenP (modS (rekey old new)) (returnP (if k = old then new else k))))"

definition eap_calls :: "bytes option \<Rightarrow> request_call list" where
  "eap_calls eap =
     (case eap of
        None \<Rightarrow> []
      | Some e \<Rightarrow>
          if e \<noteq> [] then map (AddAttribute ''EAP-Message'') (downstream_split_eap_message e 253) @ [AddMessageAuthenticator]
          else [])"

definition build_reply ::
  "'w server_env \<Rightarrow> ap_request \<Rightarrow> string \<Rightarrow> outcome \<Rightarrow> ('w, nat \<times> request_call list \<times> string) server_prog" where
  "build_reply env req k out =
     bindP
       (if action out = Accept then
          bindP (on_session k (getS (\<lambda>s. set_if_octets ''MS-MPPE-Send-Key'' (ms_mppe_send_key s) @
                                         set_if_octets ''MS-MPPE-Recv-Key'' (ms_mppe_recv_key s)))) (\<lambda>keys.
          bindP (add_calls env req [] keys) (\<lambda>calls. returnP (AccessAccept, calls, k)))
        else if action out = Reject then returnP (AccessReject, [], k)
        else
          bindP (mint_state env k) (\<lambda>k'.
          bindP (on_session k' (getS (\<lambda>s. set_if_octets ''State'' (downstream_state s)))) (\<lambda>st.
          bindP (add_calls env req [] st) (\<lambda>calls. returnP (AccessChallenge, calls, k')))))
       (\<lambda>(c, calls, k').
     bindP (add_calls env req calls (eap_calls (eap_bytes out))) (\<lambda>calls'. returnP (c, calls', k')))"

section \<open>One datagram\<close>

definition finish_session :: "'w server_env \<Rightarrow> string \<Rightarrow> ('w, unit) server_prog" where
  "finish_session env k =
     bindP (on_session k (getS (\<lambda>s. (result s, session_summary s, key s)))) (\<lambda>(res, smry, sk).
       if res = Some ''accept'' \<or> res = Some ''reject'' then
         thenP (ioP (report env smry)) (modS (drop_session sk))
       else returnP ())"

definition serve_request ::
  "'w server_env \<Rightarrow> ap_request \<Rightarrow> bytes list \<Rightarrow> address \<Rightarrow> ('w, unit) server_prog" where
  "serve_request env req eap_parts addr =
     bindP (liftP (get_str req ''User-Name'')) (\<lambda>user.
     bindP (liftP (get_str req ''Calling-Station-Id'')) (\<lambda>calling.
     bindP (liftP (get_str req ''Called-Station-Id'')) (\<lambda>called.
     bindP (liftP (get_bytes req ''State'')) (\<lambda>st.
     let eap = concat eap_parts; username = (case user of None \<Rightarrow> [] | Some u \<Rightarrow> u) in
     bindP (lookup_session env st addr calling eap) (\<lambda>k.
     bindP (on_session k (thenP (observe_request req) (route env eap username calling called))) (\<lambda>out.
     bindP (build_reply env req k out) (\<lambda>(c, calls, k').
     bindP (liftP (reply_packet env req c calls)) (\<lambda>octets.
     thenP (ioP (sendto env octets addr)) (finish_session env k')))))))))"

definition handle_datagram :: "'w server_env \<Rightarrow> bytes \<Rightarrow> address \<Rightarrow> ('w, unit) server_prog" where
  "handle_datagram env data addr =
     bindP (liftP (auth_packet env data)) (\<lambda>req.
       if rq_code req \<noteq> AccessRequest then returnP ()
       else
         case rq_octets req ''EAP-Message'' of
           None \<Rightarrow> returnP ()
         | Some parts \<Rightarrow>
             bindP (liftP (check_message_authenticator env req)) (\<lambda>ok.
               if \<not> ok then returnP () else serve_request env req parts addr))"

text \<open>
  The receive loop over the datagrams that arrive: an \<open>Exception\<close> of one is logged and the next
  is served. The result is the state in which the loop listens again after them. It is \<open>None\<close> when
  it never does: a handler does not return, or is cut short by the operator's interrupt.
\<close>

primrec serve :: "'w server_env \<Rightarrow> (bytes \<times> address) list \<Rightarrow> session_table \<times> 'w \<Rightarrow> (session_table \<times> 'w) option" where
  "serve env [] tw = Some tw"
| "serve env (d # ds) tw =
     (case handle_datagram env (fst d) (snd d) tw of
        None \<Rightarrow> None
      | Some (r, tw') \<Rightarrow> if r = Inl KeyboardInterrupt then None else serve env ds tw')"

end
