(* ===== verification/Downstream_Properties.thy ===== *)
theory Downstream_Properties
  imports Downstream_Server Mediator_Liveness
begin

text \<open>
  The downstream server: what a datagram can change, the invariant of the session table over
  all reachable states, the correlation of a conversation by the State the proxy minted, the
  contents of a reply, and the end of a session.
\<close>

section \<open>Keys\<close>

definition unhex :: "char \<Rightarrow> nat" where
  "unhex c = (let n = of_char c in if n < 58 then n - 48 else n - 87)"

lemma unhex_digit: "n < 16 \<Longrightarrow> unhex (hex_digit n) = n"
  by (simp add: unhex_def hex_digit_def Let_def)

lemma hex_digit_inj: "hex_digit m = hex_digit n \<Longrightarrow> m < 16 \<Longrightarrow> n < 16 \<Longrightarrow> m = n"
  by (metis unhex_digit)

lemma bytes_hex_simps [simp]:
  "bytes_hex [] = []"
  "bytes_hex (b # bs) = hex_digit (unat b div 16) # hex_digit (unat b mod 16) # bytes_hex bs"
  by (simp_all add: bytes_hex_def)

lemma byte_from_nibbles:
  assumes "unat (a :: byte) div 16 = unat b div 16" and "unat a mod 16 = unat b mod 16"
  shows "a = b"
proof -
  have "unat a = unat b" using assms by (metis div_mult_mod_eq)
  then show ?thesis by (simp add: word_unat_eq_iff)
qed

lemma bytes_hex_inj: "bytes_hex a = bytes_hex b \<Longrightarrow> a = b"
proof (induction a arbitrary: b)
  case Nil
  then show ?case by (cases b) simp_all
next
  case (Cons x xs)
  then obtain y ys where b: "b = y # ys" by (cases b) simp_all
  have "unat x div 16 < 16" "unat y div 16 < 16"
    using byte_unat_lt [of x] byte_unat_lt [of y] by (simp_all add: less_mult_imp_div_less)
  then show ?case using Cons b hex_digit_inj byte_from_nibbles [of x y] by simp
qed

section \<open>Running a method on a stored session\<close>

lemma store_same [simp]: "sessions t k = Some s \<Longrightarrow> store_session k s t = t"
  by (simp add: store_session_def fun_upd_idem)

lemma store_lookup [simp]: "sessions (store_session k s t) = (sessions t)(k \<mapsto> s)"
  by (simp add: store_session_def)

lemma on_session_getS:
  "sessions t k = Some s \<Longrightarrow> bindP (on_session k (getS f)) h (t, w) = h (f s) (t, w)"
  by (simp add: on_session_def bindP_def getS_apply)

lemma on_session_read:
  "sessions t k = Some s \<Longrightarrow> on_session k (getS f) (t, w) = Some (Inr (f s), (t, w))"
  by (simp add: on_session_def getS_apply)

lemma on_session_Some:
  assumes "sessions t k = Some s"
  shows "on_session k m (t, w) =
     (case m (s, w) of None \<Rightarrow> None | Some (r, (s', w')) \<Rightarrow> Some (r, (store_session k s' t, w')))"
  by (simp add: on_session_def assms)

section \<open>The invariant\<close>

definition state_key :: "bytes \<Rightarrow> string" where "state_key st = ''st:'' @ bytes_hex st"

definition table_config_ok :: "session_table \<Rightarrow> bool" where
  "table_config_ok t \<longleftrightarrow>
     1 \<le> table_upstream_fragment_size t \<and> table_upstream_fragment_size t \<le> 65000 \<and>
     1 \<le> table_downstream_fragment_size t \<and> table_downstream_fragment_size t \<le> 65000"

text \<open>A stored session is well formed, configured as its table, and keyed by its minted State once it has one.\<close>

definition session_ok :: "session_table \<Rightarrow> session \<Rightarrow> bool" where
  "session_ok t s \<longleftrightarrow> sound s \<and> mode s = table_mode t \<and>
     upstream_fragment_size s = table_upstream_fragment_size t \<and>
     downstream_fragment_size s = table_downstream_fragment_size t \<and>
     session_max_message_len s = table_max_message_len t \<and>
     max_message_len (up_reasm s) = table_max_message_len t \<and>
     max_message_len (down_reasm s) = table_max_message_len t \<and>
     (\<forall>st. downstream_state s = Some st \<longrightarrow> key s = state_key st)"

definition table_ok :: "session_table \<Rightarrow> bool" where
  "table_ok t \<longleftrightarrow> table_config_ok t \<and> well_keyed (sessions t) \<and>
     (\<forall>k s. sessions t k = Some s \<longrightarrow> session_ok t s)"

definition same_config :: "session_table \<Rightarrow> session_table \<Rightarrow> bool" where
  "same_config t t' \<longleftrightarrow> (\<exists>m. t' = t\<lparr>sessions := m\<rparr>)"

lemma same_config_refl [simp]: "same_config t t"
  by (auto simp: same_config_def intro: exI [of _ "sessions t"])

lemma same_config_trans: "same_config a b \<Longrightarrow> same_config b c \<Longrightarrow> same_config a c"
  by (auto simp: same_config_def)

lemma same_config_ops [simp]:
  "same_config t (store_session k s t)" "same_config t (rekey a b t)" "same_config t (drop_session k t)"
  "same_config t (snd (get_or_create k addr now t))"
  unfolding same_config_def store_session_def rekey_def drop_session_def get_or_create_def Let_def
  by (auto split: option.splits intro: exI [of _ "sessions t"])

lemma session_ok_config: "same_config t t' \<Longrightarrow> session_ok t' s = session_ok t s"
  by (auto simp: same_config_def session_ok_def)

lemma table_config_ok_config: "same_config t t' \<Longrightarrow> table_config_ok t' = table_config_ok t"
  by (auto simp: same_config_def table_config_ok_def)

lemma table_okI:
  assumes "table_ok t" and "same_config t t'" and "well_keyed (sessions t')"
    and "\<And>k s. sessions t' k = Some s \<Longrightarrow> session_ok t s"
  shows "table_ok t'"
  using assms session_ok_config [OF assms(2)] table_config_ok_config [OF assms(2)] by (simp add: table_ok_def)

lemma new_session_ok: "table_config_ok t \<Longrightarrow> session_ok t (new_session k (table_mode t) (table_upstream_fragment_size t)
    (table_downstream_fragment_size t) (table_max_message_len t) addr now)"
  using new_session_sound
  by (simp add: session_ok_def table_config_ok_def) (simp add: new_session_def new_reassembler_def)

lemma table_ok_open: "table_ok t \<Longrightarrow> table_ok (snd (get_or_create k addr now t))"
proof (rule table_okI)
  assume ok: "table_ok t"
  then show "well_keyed (sessions (snd (get_or_create k addr now t)))"
    by (simp add: table_ok_def tbl.keyed_open)
  show "session_ok t s" if "sessions (snd (get_or_create k addr now t)) j = Some s" for j s
    using that ok new_session_ok
    by (auto simp: table_ok_def get_or_create_def Let_def split: option.splits if_splits)
qed simp_all

lemma table_ok_store:
  "table_ok t \<Longrightarrow> session_ok t s \<Longrightarrow> key s = k \<Longrightarrow> table_ok (store_session k s t)"
  by (rule table_okI) (auto simp: table_ok_def well_keyed_upd split: if_splits)

lemma table_ok_drop: "table_ok t \<Longrightarrow> table_ok (drop_session k t)"
  by (rule table_okI [where t = t]) (auto simp: table_ok_def well_keyed_del tbl.find_remove split: if_splits)

section \<open>What a datagram may touch\<close>

text \<open>
  The three stages of serving a request for the key \<open>k\<close> from the table \<open>t0\<close>: before the State is
  minted, with the session under its present key \<open>k'\<close>, and at the end, where it may be gone.
\<close>

definition home :: "'w server_env \<Rightarrow> string \<Rightarrow> string \<Rightarrow> bool" where
  "home env k k' \<longleftrightarrow> k' = k \<or> (\<exists>w. k' = state_key (fst (token_bytes env 16 w)))"

text \<open>The session that was under the key \<open>k\<close> in the table \<open>t0\<close>, if there was one, later.\<close>

definition heir :: "session_table \<Rightarrow> string \<Rightarrow> session \<Rightarrow> bool" where
  "heir t0 k s \<longleftrightarrow> (\<forall>s0. sessions t0 k = Some s0 \<longrightarrow> ap_address s = ap_address s0 \<and> started_at s = started_at s0)"

definition found :: "session_table \<Rightarrow> string \<Rightarrow> session_table \<Rightarrow> bool" where
  "found t0 k t \<longleftrightarrow> table_ok t \<and> same_config t0 t \<and> (\<exists>s. sessions t = (sessions t0)(k \<mapsto> s) \<and> heir t0 k s)"

definition placed :: "'w server_env \<Rightarrow> session_table \<Rightarrow> string \<Rightarrow> string \<Rightarrow> session_table \<Rightarrow> bool" where
  "placed env t0 k k' t \<longleftrightarrow> table_ok t \<and> same_config t0 t \<and> home env k k' \<and>
     (\<exists>s. sessions t = (sessions t0)(k := None, k' \<mapsto> s) \<and> heir t0 k s)"

definition confined :: "'w server_env \<Rightarrow> session_table \<Rightarrow> string \<Rightarrow> session_table \<Rightarrow> bool" where
  "confined env t0 k t \<longleftrightarrow> table_ok t \<and> same_config t0 t \<and>
     (\<exists>k' x. home env k k' \<and> sessions t = (sessions t0)(k := None, k' := x) \<and> (\<forall>s. x = Some s \<longrightarrow> heir t0 k s))"

definition terminal :: "session \<Rightarrow> bool" where
  "terminal s \<longleftrightarrow> result s = Some ''accept'' \<or> result s = Some ''reject''"

definition settled :: "'w server_env \<Rightarrow> session_table \<Rightarrow> string \<Rightarrow> session_table \<Rightarrow> bool" where
  "settled env t0 k t \<longleftrightarrow> table_ok t \<and> same_config t0 t \<and>
     (\<exists>k' x. home env k k' \<and> sessions t = (sessions t0)(k := None, k' := x) \<and>
       (\<forall>s. x = Some s \<longrightarrow> heir t0 k s \<and> \<not> terminal s))"

lemma settled_confined: "settled env t0 k t \<Longrightarrow> confined env t0 k t"
  unfolding settled_def confined_def by blast

lemma placed_settled: "placed env t0 k k' t \<Longrightarrow> sessions t k' = Some s \<Longrightarrow> \<not> terminal s \<Longrightarrow> settled env t0 k t"
  by (force simp: placed_def settled_def)

lemma home_simps [simp]: "home env k k" "token_bytes env 16 w = (tok, w') \<Longrightarrow> home env k (state_key tok)"
  unfolding home_def by simp (metis fst_conv)

lemma found_some: "found t0 k t \<Longrightarrow> \<exists>s. sessions t k = Some s"
  by (auto simp: found_def)

lemma placed_some: "placed env t0 k k' t \<Longrightarrow> \<exists>s. sessions t k' = Some s"
  by (auto simp: placed_def)

lemma found_placed: "found t0 k t \<Longrightarrow> placed env t0 k k t"
  by (simp add: found_def placed_def)

lemma placed_confined: "placed env t0 k k' t \<Longrightarrow> confined env t0 k t"
  unfolding placed_def confined_def by blast

text \<open>A method that keeps the stored session in order keeps every stage.\<close>

definition orderly :: "session_table \<Rightarrow> session \<Rightarrow> session \<Rightarrow> bool" where
  "orderly t s s' \<longleftrightarrow> (session_ok t s \<longrightarrow> session_ok t s') \<and> key s' = key s \<and>
     ap_address s' = ap_address s \<and> started_at s' = started_at s"

lemma stored_ok:
  assumes "table_ok t" and "sessions t k = Some s"
  shows "session_ok t s" "key s = k"
  using assms by (simp_all add: table_ok_def well_keyed_def)

lemma found_store:
  "found t0 k t \<Longrightarrow> sessions t k = Some s \<Longrightarrow> orderly t s s' \<Longrightarrow> found t0 k (store_session k s' t)"
  using stored_ok [of t k s] same_config_trans [OF _ same_config_ops(1), of t0 t k s']
  by (auto simp: found_def orderly_def heir_def intro!: table_ok_store exI [of _ s'])

lemma placed_store:
  "placed env t0 k k' t \<Longrightarrow> sessions t k' = Some s \<Longrightarrow> orderly t s s' \<Longrightarrow> placed env t0 k k' (store_session k' s' t)"
  using stored_ok [of t k' s] same_config_trans [OF _ same_config_ops(1), of t0 t k' s']
  by (auto simp: placed_def orderly_def heir_def intro!: table_ok_store exI [of _ s'])

lemma ses_on_session_found:
  assumes "\<And>t s w r s' w'. session_ok t s \<Longrightarrow> m (s, w) = Some (r, (s', w')) \<Longrightarrow> orderly t s s'"
  shows "ses (found t0 k) (on_session k m) (\<lambda>_. found t0 k) (\<lambda>_. confined env t0 k)"
proof -
  have run: "found t0 k t'" if fnd: "found t0 k t" and ran: "on_session k m (t, w) = Some (r, (t', w'))" for t w r t' w'
  proof -
    obtain s where s: "sessions t k = Some s" using found_some [OF fnd] by blast
    then obtain s' where s': "m (s, w) = Some (r, (s', w'))" "t' = store_session k s' t"
      using ran by (auto simp: on_session_Some split: option.splits)
    have "session_ok t s" using fnd stored_ok [OF _ s] by (simp add: found_def)
    then show ?thesis using found_store [OF fnd s assms] s' by simp
  qed
  show ?thesis by (rule sesI) (auto dest: run intro: found_placed placed_confined)
qed

lemma ses_on_session_read:
  "ses (placed env t0 k k') (on_session k' (getS f)) (\<lambda>_. placed env t0 k k') (\<lambda>_. confined env t0 k)"
  by (rule sesI) (use placed_some in \<open>fastforce simp: on_session_read\<close>)+

lemma ses_read_found:
  "ses (found t0 k) (on_session k (getS f)) (\<lambda>_. found t0 k) (\<lambda>_. confined env t0 k)"
  by (rule ses_on_session_found) (simp add: getS_apply orderly_def)

lemma ses_add_calls:
  "ses P (add_calls env req calls cs) (\<lambda>_. P) (\<lambda>_. P)"
  by (induction cs arbitrary: calls)
    (auto simp: add_call_def intro!: ses_returnP ses_raiseP ses_bindP [where R = "\<lambda>_. P"] split: option.split)

lemma mint_run:
  assumes s: "sessions t k = Some s" and "key s = k"
  shows "mint_state env k (t, w) =
     (case downstream_state s of
        Some v \<Rightarrow> Some (Inr k, (t, w))
      | None \<Rightarrow>
          (case token_bytes env 16 w of (tok, w1) \<Rightarrow>
             Some (Inr (state_key tok),
               (rekey k (state_key tok) (store_session k (s\<lparr>downstream_state := Some tok\<rparr>) t), w1))))"
proof (cases "downstream_state s")
  case None
  obtain tok w1 where tok: "token_bytes env 16 w = (tok, w1)" by fastforce
  have "bindP (on_session k
           (bindP (ioP (\<lambda>w. case token_bytes env 16 w of (b, w') \<Rightarrow> (Inr b, w'))) (\<lambda>tok.
            thenP (modS (\<lambda>s. s\<lparr>downstream_state := Some tok\<rparr>)) (getS (\<lambda>s. (tok, key s)))))) h (t, w) =
      h (tok, k) (store_session k (s\<lparr>downstream_state := Some tok\<rparr>) t, w1)"
    for h :: "bytes \<times> string \<Rightarrow> ('a, string) server_prog"
    using tok assms(2) by (simp add: bindP_def on_session_Some [OF s] ioP_apply thenP_modS getS_apply)
  then show ?thesis
    using None tok by (simp add: mint_state_def on_session_getS [OF s] prog_simps state_key_def Let_def)
qed (simp add: mint_state_def on_session_getS [OF s] prog_simps)

text \<open>The table after a State was minted: the session has moved to the key of its State.\<close>

lemma minted_sessions:
  assumes "sessions t k = Some s" and "key s = k"
  shows "sessions (rekey k (state_key tok) (store_session k (s\<lparr>downstream_state := Some tok\<rparr>) t)) =
    (sessions t)(k := None, state_key tok \<mapsto> s\<lparr>downstream_state := Some tok, key := state_key tok\<rparr>)"
proof (cases "k = state_key tok")
  case True
  then have "s\<lparr>downstream_state := Some tok, key := state_key tok\<rparr> = s\<lparr>downstream_state := Some tok\<rparr>"
    using assms(2) by (cases s) simp
  then show ?thesis using True by (simp add: rekey_def)
next
  case False
  then show ?thesis
    using tbl.find_move [of "store_session k (s\<lparr>downstream_state := Some tok\<rparr>) t" k _ "state_key tok"] by simp
qed

lemma mint_found:
  assumes "found t0 k t" and "mint_state env k (t, w) = Some (r, (t', w'))"
  shows "\<exists>k'. r = Inr k' \<and> placed env t0 k k' t'"
proof -
  obtain s where s: "sessions t k = Some s" using found_some [OF assms(1)] by blast
  have ok: "table_ok t" and sk: "session_ok t s" "key s = k"
    using assms(1) stored_ok [OF _ s] by (simp_all add: found_def)
  show ?thesis
  proof (cases "downstream_state s")
    case (Some v)
    then show ?thesis using assms mint_run [OF s sk(2), of env w] found_placed [OF assms(1)] by auto
  next
    case None
    obtain tok w1 where tok: "token_bytes env 16 w = (tok, w1)" by fastforce
    let ?t = "rekey k (state_key tok) (store_session k (s\<lparr>downstream_state := Some tok\<rparr>) t)"
    have run: "r = Inr (state_key tok)" "t' = ?t"
      using assms(2) mint_run [OF s sk(2), of env w] None tok by auto
    have "session_ok t (s\<lparr>downstream_state := Some tok, key := state_key tok\<rparr>)"
      using sk(1) by (auto simp: session_ok_def sound_def regular_def queued_def)
    then have "table_ok ?t"
      using ok
      by (intro table_okI [OF ok same_config_trans [OF same_config_ops(1) same_config_ops(2)]])
        (auto simp: minted_sessions [OF s sk(2)] table_ok_def well_keyed_def split: if_splits)
    moreover have "same_config t0 t" using assms(1) by (simp add: found_def)
    then have "same_config t0 ?t"
      by (rule same_config_trans [OF same_config_trans [OF _ same_config_ops(1)] same_config_ops(2)])
    moreover have "sessions ?t = (sessions t0)(k := None, state_key tok \<mapsto> s\<lparr>downstream_state := Some tok, key := state_key tok\<rparr>)"
      "heir t0 k (s\<lparr>downstream_state := Some tok, key := state_key tok\<rparr>)"
      using assms(1) s by (auto simp: found_def minted_sessions [OF s sk(2)] heir_def)
    ultimately show ?thesis using run home_simps(2) [OF tok] unfolding placed_def by blast
  qed
qed


section \<open>The parts of a request\<close>

lemma capture_attrs_run:
  "capture_attrs req names (s, w) = Some (r, (s', w')) \<Longrightarrow> w' = w \<and> (\<exists>a. s' = s\<lparr>ap_attrs := a\<rparr>)"
proof (induction names arbitrary: s)
  case Nil
  then show ?case by (auto simp: prog_simps intro: exI [of _ "ap_attrs s"])
next
  case (Cons n ns)
  show ?case
  proof (cases "rq_any req n")
    case None
    then show ?thesis using Cons by simp
  next
    case (Some vs)
    then show ?thesis
      using Cons.prems Cons.IH [of "s\<lparr>ap_attrs := ap_attrs s @ [(n, hd vs)]\<rparr>"]
      by (cases vs) (auto simp: prog_simps intro: exI [of _ "ap_attrs s"])
  qed
qed

lemma observe_run:
  assumes "observe_request req (s, w) = Some (r, (s', w'))"
  shows "w' = w \<and> (\<exists>a. s' = s\<lparr>last_ap_authenticator := Some (rq_authenticator req), ap_attrs := a\<rparr>)"
proof (cases "ap_attrs s")
  case Nil
  then show ?thesis
    using assms capture_attrs_run [of req forwarded_attrs "s\<lparr>last_ap_authenticator := Some (rq_authenticator req)\<rparr>" w r s' w']
    by (auto simp: observe_request_def prog_simps)
next
  case Cons
  then show ?thesis
    using assms by (auto simp: observe_request_def prog_simps intro: exI [of _ "ap_attrs s"])
qed

lemma observed_ok [simp]:
  "session_ok t (s\<lparr>last_ap_authenticator := x, ap_attrs := a\<rparr>) = session_ok t s"
  "sound (s\<lparr>last_ap_authenticator := x, ap_attrs := a\<rparr>) = sound s"
  by (simp_all add: session_ok_def sound_def regular_def queued_def)

lemma identity_orderly:
  assumes "same_identity s s'" and "sound s'"
  shows "orderly t s s'"
  using assms by (auto simp: orderly_def same_identity_def session_ok_def)

context upstream_leg
begin

lemma ses_passthrough_non_tls:
  assumes "upstream_send env = send"
  shows "ses (intact s0) (passthrough_non_tls env eap u ca ce) (\<lambda>_. intact s0) (failed (send_error send u ca ce s0) s0)"
  unfolding passthrough_non_tls_def assms Let_def
  by (intro ses_bindP [OF ses_exchange_intact] ses_if ses_thenP [OF ses_finish_intact] ses_returnP) simp_all

lemma route_run:
  assumes "upstream_send env = send" and "sound s" and "route env eap u ca ce (s, w) = Some (r, (s', w'))"
  shows "same_identity s s' \<and> sound s'"
proof (cases "5 \<le> length eap \<and> unat (eap ! 4) = EAP_TYPE_TLS")
  case True
  then have "handle_supplicant_eap send (monotonic env) eap u ca ce (s, w) = Some (r, (s', w'))"
    using assms(1,3) by (simp add: route_def)
  then show ?thesis using handle_intact [OF assms(2)] by blast
next
  case False
  then have run: "passthrough_non_tls env eap u ca ce (s, w) = Some (r, (s', w'))"
    using assms(3) by (simp only: route_def if_False)
  have "intact s s" using assms(2) by (simp add: intact_def)
  then show ?thesis
    using run ses_Inr [OF ses_passthrough_non_tls [OF assms(1)], of s s] ses_Inl [OF ses_passthrough_non_tls [OF assms(1)], of s s]
    by (cases r) (force simp: intact_def failed_def)+
qed

lemma observe_route_orderly:
  assumes "upstream_send env = send" and "session_ok t s"
    and "thenP (observe_request req) (route env eap u ca ce) (s, w) = Some (r, (s', w'))"
  shows "orderly t s s'"
proof -
  obtain r1 s1 w1 where obs: "observe_request req (s, w) = Some (r1, (s1, w1))"
    and rest: "(\<exists>e. r1 = Inl e \<and> s' = s1) \<or> route env eap u ca ce (s1, w1) = Some (r, (s', w'))"
    using assms(3) by (auto simp: thenP_def bindP_def split: option.splits sum.splits)
  obtain a where s1: "s1 = s\<lparr>last_ap_authenticator := Some (rq_authenticator req), ap_attrs := a\<rparr>"
    using observe_run [OF obs] by blast
  have sound: "sound s1" using assms(2) s1 by (simp add: session_ok_def)
  have o1: "orderly t s s1" by (simp add: s1 orderly_def)
  from rest show ?thesis
  proof
    assume "route env eap u ca ce (s1, w1) = Some (r, (s', w'))"
    then have "orderly t s1 s'" using route_run [OF assms(1) sound] identity_orderly by blast
    then show ?thesis using o1 by (simp add: orderly_def)
  qed (use o1 in auto)
qed

end

lemma ses_mint:
  "ses (found t0 k) (mint_state env k) (\<lambda>k'. placed env t0 k k') (\<lambda>_. confined env t0 k)"
  by (rule sesI) (use mint_found in fastforce)+

lemma ses_build_reply:
  "ses (found t0 k) (build_reply env req k out) (\<lambda>(c, calls, k'). placed env t0 k k') (\<lambda>_. confined env t0 k)"
proof -
  have keep: "ses (placed env t0 k k') (add_calls env req calls cs) (\<lambda>_. placed env t0 k k') (\<lambda>_. confined env t0 k)" for k' calls cs
    by (rule ses_weaken [OF ses_add_calls [where P = "placed env t0 k k'"]]) (auto intro: placed_confined)
  have tail: "ses (placed env t0 k k') (bindP (add_calls env req calls cs) (\<lambda>calls'. returnP (c, calls', k')))
     (\<lambda>(c, calls, k'). placed env t0 k k') (\<lambda>_. confined env t0 k)" for k' calls cs and c :: nat
    by (rule ses_bindP [OF keep], rule ses_returnP) simp
  have front: "ses (found t0 k)
     (if action out = Accept then
          bindP (on_session k (getS (\<lambda>s. set_if_octets ''MS-MPPE-Send-Key'' (ms_mppe_send_key s) @
                                         set_if_octets ''MS-MPPE-Recv-Key'' (ms_mppe_recv_key s)))) (\<lambda>keys.
          bindP (add_calls env req [] keys) (\<lambda>calls. returnP (AccessAccept, calls, k)))
        else if action out = Reject then returnP (AccessReject, [], k)
        else
          bindP (mint_state env k) (\<lambda>k'.
          bindP (on_session k' (getS (\<lambda>s. set_if_octets ''State'' (downstream_state s)))) (\<lambda>st.
          bindP (add_calls env req [] st) (\<lambda>calls. returnP (AccessChallenge, calls, k')))))
     (\<lambda>(c, calls, k'). placed env t0 k k') (\<lambda>_. confined env t0 k)"
    by (intro ses_if ses_bindP [OF ses_read_found] ses_bindP [OF ses_mint] ses_bindP [OF ses_on_session_read]
        ses_pre [OF tail] ses_returnP) (simp_all add: found_placed)
  show ?thesis
    unfolding build_reply_def by (rule ses_bindP [OF front]) (auto intro: ses_pre [OF tail])
qed

lemma ses_finish_session:
  "ses (placed env t0 k k') (finish_session env k') (\<lambda>_. settled env t0 k) (\<lambda>_. confined env t0 k)"
proof -
  have dropped: "settled env t0 k (drop_session k' t)" if p: "placed env t0 k k' t" for t
  proof -
    have "same_config t0 (drop_session k' t)"
      using p same_config_trans [OF _ same_config_ops(3)] by (auto simp: placed_def)
    moreover have "\<exists>k'' x. home env k k'' \<and> sessions (drop_session k' t) = (sessions t0)(k := None, k'' := x) \<and>
        (\<forall>s. x = Some s \<longrightarrow> heir t0 k s \<and> \<not> terminal s)"
      using p by (auto simp: placed_def tbl.find_remove intro!: exI [of _ k'] exI [of _ None])
    ultimately show ?thesis using p table_ok_drop by (auto simp: placed_def settled_def)
  qed
  have run: "(case r of Inl e \<Rightarrow> confined env t0 k t' | Inr x \<Rightarrow> settled env t0 k t')"
    if p: "placed env t0 k k' t" and ran: "finish_session env k' (t, w) = Some (r, (t', w'))" for t w r t' w'
  proof -
    obtain s where s: "sessions t k' = Some s" using placed_some [OF p] by blast
    have "key s = k'" using p stored_ok(2) [OF _ s] by (simp add: placed_def)
    then show ?thesis
      using ran dropped [OF p] placed_confined [OF p] placed_settled [OF p s]
      by (auto simp: finish_session_def on_session_read [OF s] thenP_def bindP_def ioP_apply modS_apply
          returnP_apply terminal_def split: if_splits sum.splits option.splits)
  qed
  show ?thesis by (rule sesI) (auto dest: run)
qed


section \<open>A whole datagram\<close>

lemma lookup_run:
  assumes "table_ok t"
  shows "\<exists>t' w'. lookup_session env st addr calling eap (t, w) = Some (Inr (lookup_key st addr calling eap), (t', w')) \<and>
    found t (lookup_key st addr calling eap) t'"
proof (cases "sessions t (lookup_key st addr calling eap)")
  case None
  let ?k = "lookup_key st addr calling eap"
  let ?t = "snd (get_or_create ?k (Some addr) (fst (monotonic env w)) t)"
  have "found t ?k ?t"
    using assms table_ok_open [OF assms] None by (auto simp: found_def tbl.find_open heir_def)
  then show ?thesis using None by (cases "monotonic env w") (simp add: lookup_session_def Let_def)
next
  case (Some s)
  then have "sessions t = (sessions t)(lookup_key st addr calling eap \<mapsto> s)" "heir t (lookup_key st addr calling eap) s"
    by (simp_all add: fun_upd_idem heir_def)
  then show ?thesis using Some assms unfolding found_def by (simp add: lookup_session_def Let_def) blast
qed

text \<open>The key a request is served under, when it gets that far.\<close>

definition request_key :: "ap_request \<Rightarrow> bytes list \<Rightarrow> address \<Rightarrow> py_error + string" where
  "request_key req parts addr =
     (case get_str req ''Calling-Station-Id'' of
        Inl e \<Rightarrow> Inl e
      | Inr calling \<Rightarrow>
          (case get_bytes req ''State'' of
             Inl e \<Rightarrow> Inl e
           | Inr st \<Rightarrow> Inr (lookup_key st addr calling (concat parts))))"

text \<open>What lets a datagram have any effect.\<close>

definition admitted :: "'w server_env \<Rightarrow> ap_request \<Rightarrow> bytes list \<Rightarrow> bool" where
  "admitted env req parts \<longleftrightarrow> rq_code req = AccessRequest \<and> rq_octets req ''EAP-Message'' = Some parts \<and>
     rq_octets req ''Message-Authenticator'' \<noteq> None \<and>
     (case verifier env of None \<Rightarrow> True | Some f \<Rightarrow> f req = Inr True)"

lemma admitted_iff: "admitted env req parts \<longleftrightarrow>
    rq_code req = AccessRequest \<and> rq_octets req ''EAP-Message'' = Some parts \<and> check_message_authenticator env req = Inr True"
  by (auto simp: admitted_def check_message_authenticator_def split: option.splits sum.splits)

text \<open>The rest of serving a request, once its attributes are read and its session is found.\<close>

definition answer ::
  "'w server_env \<Rightarrow> ap_request \<Rightarrow> bytes \<Rightarrow> string \<Rightarrow> string option \<Rightarrow> string option \<Rightarrow> address \<Rightarrow> string \<Rightarrow> ('w, unit) server_prog" where
  "answer env req eap u calling called addr k =
     bindP (on_session k (thenP (observe_request req) (route env eap u calling called))) (\<lambda>out.
     bindP (build_reply env req k out) (\<lambda>(c, calls, k').
     bindP (liftP (reply_packet env req c calls)) (\<lambda>octets.
     thenP (ioP (sendto env octets addr)) (finish_session env k'))))"

lemma serve_request_cases:
  obtains (refused) e where "\<And>tw. serve_request env req parts addr tw = Some (Inl e, tw)"
  | (read) user calling called st where "request_key req parts addr = Inr (lookup_key st addr calling (concat parts))"
      "\<And>tw. serve_request env req parts addr tw =
         bindP (lookup_session env st addr calling (concat parts))
           (answer env req (concat parts) (case user of None \<Rightarrow> [] | Some u \<Rightarrow> u) calling called addr) tw"
proof -
  let ?run = "\<lambda>us ca ce st. bindP (liftP us) (\<lambda>user. bindP (liftP ca) (\<lambda>calling. bindP (liftP ce) (\<lambda>called.
      bindP (liftP st) (\<lambda>st. bindP (lookup_session env st addr calling (concat parts))
        (answer env req (concat parts) (case user of None \<Rightarrow> [] | Some u \<Rightarrow> u) calling called addr)))))"
  have run: "serve_request env req parts addr =
      ?run (get_str req ''User-Name'') (get_str req ''Calling-Station-Id'') (get_str req ''Called-Station-Id'') (get_bytes req ''State'')"
    unfolding serve_request_def answer_def [abs_def] Let_def by (rule refl)
  show ?thesis
  proof (cases "\<exists>user calling called st. get_str req ''User-Name'' = Inr user \<and> get_str req ''Calling-Station-Id'' = Inr calling \<and>
      get_str req ''Called-Station-Id'' = Inr called \<and> get_bytes req ''State'' = Inr st")
    case True
    then obtain user calling called st where r: "get_str req ''User-Name'' = Inr user" "get_str req ''Calling-Station-Id'' = Inr calling"
      "get_str req ''Called-Station-Id'' = Inr called" "get_bytes req ''State'' = Inr st"
      by blast
    then show ?thesis by (intro read) (simp_all add: run prog_simps request_key_def)
  next
    case False
    then have "\<exists>e. \<forall>tw. serve_request env req parts addr tw = Some (Inl e, tw)"
      unfolding run
      by (cases "get_str req ''User-Name''"; cases "get_str req ''Calling-Station-Id''";
          cases "get_str req ''Called-Station-Id''"; cases "get_bytes req ''State''") (auto simp: prog_simps)
    then show ?thesis using refused by blast
  qed
qed

context upstream_leg
begin

lemma ses_answer:
  assumes "upstream_send env = send"
  shows "ses (found t k) (answer env req eap u calling called addr k) (\<lambda>_. settled env t k) (\<lambda>_. confined env t k)"
proof -
  have sent: "ses (placed env t k k') (ioP f) (\<lambda>_. placed env t k k') (\<lambda>_. confined env t k)"
    for k' and f :: "'a \<Rightarrow> (py_error + unit) \<times> 'a"
    by (rule sesI) (auto simp: ioP_apply intro: placed_confined)
  have last: "ses (placed env t k k') (bindP (liftP (reply_packet env req c calls)) (\<lambda>octets.
      thenP (ioP (sendto env octets addr)) (finish_session env k'))) (\<lambda>_. settled env t k) (\<lambda>_. confined env t k)" for c calls k'
    by (auto intro!: ses_liftP ses_thenP [OF sent ses_finish_session] placed_confined)
  have "ses (found t k) (on_session k (thenP (observe_request req) (route env eap u calling called)))
      (\<lambda>_. found t k) (\<lambda>_. confined env t k)"
    by (rule ses_on_session_found) (rule observe_route_orderly [OF assms])
  then show ?thesis
    unfolding answer_def by (rule ses_bindP) (rule ses_bindP [OF ses_build_reply], auto intro: last)
qed

lemma serve_request_confined:
  assumes "upstream_send env = send" and "table_ok t" and run: "serve_request env req parts addr (t, w) = Some (r, (t', w'))"
  shows "(t' = t \<and> w' = w \<and> (\<exists>e. r = Inl e)) \<or>
    (\<exists>k. request_key req parts addr = Inr k \<and> (case r of Inl e \<Rightarrow> confined env t k t' | Inr x \<Rightarrow> settled env t k t'))"
proof (cases rule: serve_request_cases [of env req parts addr])
  case (refused e)
  then show ?thesis using run by auto
next
  case (read user calling called st)
  let ?k = "lookup_key st addr calling (concat parts)"
  obtain t1 w1 where look: "lookup_session env st addr calling (concat parts) (t, w) = Some (Inr ?k, (t1, w1))" "found t ?k t1"
    using lookup_run [OF assms(2), of env st addr calling "concat parts" w] by blast
  then have "answer env req (concat parts) (case user of None \<Rightarrow> [] | Some u \<Rightarrow> u) calling called addr ?k (t1, w1) = Some (r, (t', w'))"
    using run by (simp add: read(2) bindP_Some_Inr)
  then have "case r of Inl e \<Rightarrow> confined env t ?k t' | Inr x \<Rightarrow> settled env t ?k t'"
    using ses_Inr [OF ses_answer [OF assms(1)] look(2)] ses_Inl [OF ses_answer [OF assms(1)] look(2)] by (cases r) auto
  then show ?thesis using read(1) by blast
qed

end

lemma handle_datagram_cases:
  assumes "handle_datagram env data addr (t, w) = Some (r, (t', w'))"
  obtains (refused) "t' = t" "w' = w"
  | (taken) req parts where "auth_packet env data = Inr req" "admitted env req parts"
      "serve_request env req parts addr (t, w) = Some (r, (t', w'))"
proof (cases "\<exists>req parts. auth_packet env data = Inr req \<and> admitted env req parts")
  case True
  then show ?thesis using assms taken by (auto simp: handle_datagram_def admitted_iff prog_simps)
next
  case False
  then show ?thesis using assms refused
    by (cases "auth_packet env data")
      (auto simp: handle_datagram_def admitted_iff prog_simps liftP_def bindP_def returnP_def split: if_splits option.splits sum.splits)
qed

context upstream_leg
begin

lemma handle_datagram_confined:
  assumes "upstream_send env = send" and "table_ok t"
    and "handle_datagram env data addr (t, w) = Some (r, (t', w'))"
  shows "(t' = t \<and> w' = w) \<or> (\<exists>req parts k. auth_packet env data = Inr req \<and> admitted env req parts \<and>
      request_key req parts addr = Inr k \<and> (case r of Inl e \<Rightarrow> confined env t k t' | Inr x \<Rightarrow> settled env t k t'))"
  using assms(3)
proof (cases rule: handle_datagram_cases)
  case (taken req parts)
  then show ?thesis using serve_request_confined [OF assms(1,2) taken(3)] by blast
qed simp

lemma handle_datagram_ok:
  assumes "upstream_send env = send" and "table_ok t"
    and "handle_datagram env data addr (t, w) = Some (r, (t', w'))"
  shows "table_ok t' \<and> same_config t t'"
  using handle_datagram_confined [OF assms] assms(2)
  by (cases r) (auto simp: confined_def settled_def)

end

end
