(* ===== verification/Downstream_Exchange.thy ===== *)
theory Downstream_Exchange
  imports Downstream_Properties
begin

text \<open>
  One exchange with the access point in full, from the datagram to the challenge that answers
  it, and a concrete surrounding in which the guarantees are tried out.
\<close>

section \<open>An exchange that ends in a challenge\<close>

lemma handle_admitted:
  assumes "auth_packet env data = Inr req" and "admitted env req parts"
  shows "handle_datagram env data addr tw = serve_request env req parts addr tw"
  using assms by (simp add: handle_datagram_def admitted_iff prog_simps)

lemma route_mediator:
  assumes "parse eap = Inr pkt"
  shows "route env eap u ca ce = handle_supplicant_eap (upstream_send env) (monotonic env) eap u ca ce"
proof -
  have "6 \<le> length eap \<and> unat (eap ! 4) = EAP_TYPE_TLS" using parse_accepts [of eap] assms by blast
  then show ?thesis unfolding route_def by simp
qed

lemma add_calls_ok: "(\<And>call. call_error env req call = None) \<Longrightarrow> add_calls env req calls cs = returnP (calls @ cs)"
  by (induction cs arbitrary: calls) (simp_all add: add_call_def bindP_returnP)

lemma challenge_reply:
  assumes "action out = Ack \<or> action out = Challenge" and "\<And>call. call_error env req call = None"
    and "mint_state env k (t, w) = Some (Inr k', (t', w'))" and "sessions t' k' = Some s"
    and "downstream_state s = Some st"
  shows "build_reply env req k out (t, w) =
    Some (Inr (AccessChallenge, SetItem ''State'' (AOctets st) # eap_calls (eap_bytes out), k'), (t', w'))"
  using assms by (auto simp: build_reply_def add_calls_ok prog_simps prog_assoc bindP_Some_Inr on_session_getS set_if_octets_def)

lemma open_finish_session:
  assumes "sessions t k = Some s" and "\<not> terminal s"
  shows "finish_session env k (t, w) = Some (Inr (), (t, w))"
  using assms by (auto simp: finish_session_def on_session_getS prog_simps terminal_def)

lemma serve_challenge:
  assumes "get_str req ''User-Name'' = Inr user" and "get_str req ''Calling-Station-Id'' = Inr calling"
    and "get_str req ''Called-Station-Id'' = Inr called" and "get_bytes req ''State'' = Inr st"
    and "lookup_session env st addr calling (concat parts) (t, w) = Some (Inr k, (t1, w1))" and s: "sessions t1 k = Some s"
    and "observe_request req (s, w1) = Some (Inr (), (s1, w1))"
    and "route env (concat parts) (case user of None \<Rightarrow> [] | Some u \<Rightarrow> u) calling called (s1, w1) = Some (Inr out, (s2, w2))"
    and reply: "action out = Ack \<or> action out = Challenge" "\<And>call. call_error env req call = None"
      "mint_state env k (store_session k s2 t1, w2) = Some (Inr k', (t3, w3))" "sessions t3 k' = Some s3"
      "downstream_state s3 = Some st'"
    and "reply_packet env req AccessChallenge (SetItem ''State'' (AOctets st') # eap_calls (eap_bytes out)) = Inr octets"
    and "sendto env octets addr w3 = (Inr (), w4)" and "\<not> terminal s3"
  shows "serve_request env req parts addr (t, w) = Some (Inr (), (t3, w4))"
proof -
  have handled: "on_session k (thenP (observe_request req)
      (route env (concat parts) (case user of None \<Rightarrow> [] | Some u \<Rightarrow> u) calling called)) (t1, w1) =
      Some (Inr out, (store_session k s2 t1, w2))"
    using assms(7,8) by (simp add: on_session_Some [OF s] thenP_def bindP_Some_Inr)
  have sent: "thenP (ioP (sendto env octets addr)) (finish_session env k') (t3, w3) = Some (Inr (), (t3, w4))"
    using assms(15) open_finish_session [OF reply(4) assms(16)] by (simp add: thenP_def bindP_Some_Inr ioP_apply)
  show ?thesis
    unfolding serve_request_def Let_def
    using assms(1-5,14) by (simp add: prog_simps bindP_Some_Inr handled challenge_reply [OF reply] sent)
qed

lemma observe_ok:
  assumes "\<And>name. rq_any req name \<noteq> Some []"
  obtains a where "observe_request req (s, w) =
    Some (Inr (), (s\<lparr>last_ap_authenticator := Some (rq_authenticator req), ap_attrs := a\<rparr>, w))"
proof -
  have run: "\<exists>a. capture_attrs req names (s, w) = Some (Inr (), (s\<lparr>ap_attrs := a\<rparr>, w))" for names s
  proof (induction names arbitrary: s)
    case Nil
    then show ?case by (auto simp: prog_simps intro: exI [of _ "ap_attrs s"])
  next
    case (Cons n ns)
    then show ?case
      using assms [of n] Cons.IH [of "s\<lparr>ap_attrs := ap_attrs s @ [(n, hd (the (rq_any req n)))]\<rparr>"]
      by (auto simp: prog_simps split: option.split list.split)
  qed
  let ?s = "s\<lparr>last_ap_authenticator := Some (rq_authenticator req)\<rparr>"
  obtain a where a: "capture_attrs req forwarded_attrs (?s, w) = Some (Inr (), (?s\<lparr>ap_attrs := a\<rparr>, w))"
    using run by blast
  show ?thesis
  proof (cases "ap_attrs s = []")
    case True
    then show ?thesis using that [of a] a by (simp add: observe_request_def prog_simps)
  next
    case False
    then show ?thesis using that [of "ap_attrs s"] by (simp add: observe_request_def prog_simps)
  qed
qed

lemma eap_of_eap_calls [simp]: "eap_of_calls (eap_calls e) = (case e of None \<Rightarrow> [] | Some b \<Rightarrow> b)"
  by (auto simp: eap_calls_def down_eap.split_concat split: option.split)

lemma items_of_eap_calls [simp]: "items_of name (eap_calls e) = []"
  by (simp add: eap_calls_def split: option.split)

lemma eap_calls_chunks:
  "AddAttribute n v \<in> set (eap_calls e) \<Longrightarrow> n = ''EAP-Message'' \<and> 1 \<le> length v \<and> length v \<le> 253"
  using down_eap.split_le [of v] down_eap.split_full [of _ v]
  by (cases e) (auto simp: eap_calls_def Suc_le_eq split: if_splits)

section \<open>A concrete surrounding\<close>

text \<open>
  A decoder that takes the datagram for the EAP packet, with a given State quoted; the world
  is the list of what was sent.
\<close>

definition lab_request :: "bytes option \<Rightarrow> bytes \<Rightarrow> ap_request" where
  "lab_request st eap =
     \<lparr>rq_code = 1, rq_authenticator = replicate 16 0,
      rq_text = Map.empty(''User-Name'' \<mapsto> [PyStr ''u''], ''Calling-Station-Id'' \<mapsto> [PyStr ''02-00''],
                          ''State'' := (case st of None \<Rightarrow> None | Some v \<Rightarrow> Some [PyBytes v])),
      rq_octets = Map.empty(''EAP-Message'' \<mapsto> [eap], ''Message-Authenticator'' \<mapsto> [replicate 16 0]),
      rq_any = Map.empty\<rparr>"

definition lab_env :: "bytes option \<Rightarrow> bytes list sender \<Rightarrow> bytes list server_env" where
  "lab_env st send =
     \<lparr>auth_packet = (\<lambda>d. Inr (lab_request st d)), verifier = Some (\<lambda>_. Inr True), call_error = (\<lambda>_ _. None),
      reply_packet = (\<lambda>_ c calls. Inr (word_of_nat c # eap_of_calls calls)),
      token_bytes = (\<lambda>n w. (replicate n 7, w)), monotonic = lab_clock,
      sendto = (\<lambda>octets addr w. (Inr (), w @ [octets])), upstream_send = send,
      report = (\<lambda>_ w. (Inr (), w))\<rparr>"

lemma lab_env_sel [simp]:
  "auth_packet (lab_env st send) d = Inr (lab_request st d)" "verifier (lab_env st send) = Some (\<lambda>_. Inr True)"
  "call_error (lab_env st send) req call = None"
  "reply_packet (lab_env st send) req c calls = Inr (word_of_nat c # eap_of_calls calls)"
  "token_bytes (lab_env st send) n w = (replicate n 7, w)" "monotonic (lab_env st send) = lab_clock"
  "sendto (lab_env st send) octets addr w = (Inr (), w @ [octets])" "upstream_send (lab_env st send) = send"
  "report (lab_env st send) smry w = (Inr (), w)"
  by (simp_all add: lab_env_def)

lemma lab_request_sel [simp]:
  "rq_code (lab_request st d) = 1" "rq_any (lab_request st d) n = None"
  "get_str (lab_request st d) ''User-Name'' = Inr (Some ''u'')"
  "get_str (lab_request st d) ''Calling-Station-Id'' = Inr (Some ''02-00'')"
  "get_str (lab_request st d) ''Called-Station-Id'' = Inr None" "get_bytes (lab_request st d) ''State'' = Inr st"
  "admitted (lab_env st' send) (lab_request st d) parts \<longleftrightarrow> parts = [d]"
  by (auto simp: lab_request_def get_str_def get_bytes_def admitted_def AccessRequest_def split: option.split)

definition lab_table :: session_table where
  "lab_table = new_session_table ''reassemble'' 60000 1000 262144 30"

lemma new_table_ok:
  "1 \<le> u \<Longrightarrow> u \<le> 65000 \<Longrightarrow> 1 \<le> d \<Longrightarrow> d \<le> 65000 \<Longrightarrow> table_ok (new_session_table m u d n idle)"
  by (simp add: table_ok_def table_config_ok_def new_session_table_def well_keyed_def)

lemma lab_table_ok: "table_ok lab_table"
  unfolding lab_table_def by (rule new_table_ok) simp_all

text \<open>A server that answers everything with the EAP-TLS Start; the first datagram, an EAP-Response/Identity.\<close>

definition start_server :: "bytes list sender" where
  "start_server = send_eap (constant_net (eap_reply 11 [1, 2, 0, 6, 13, 0x20])) lab_client"

lemma start_server_run:
  "send_eap (constant_net (eap_reply 11 [1, 2, 0, 6, 13, 0x20])) client eap u st ca ce (s, w) =
    Some (Inr (normalised (eap_reply 11 [1, 2, 0, 6, 13, 0x20])), (after_exchange (eap_reply 11 [1, 2, 0, 6, 13, 0x20]) s, w))"
  by (rule send_eap_run) (simp_all add: constant_net_def)

lemma identity_run:
  fixes env :: "'w server_env"
  assumes request: "\<And>d. auth_packet env d = Inr (lab_request None d)" and "verifier env = Some (\<lambda>_. Inr True)"
    and calls: "\<And>req call. call_error env req call = None" and clk: "monotonic env = lab_clock"
    and tok: "token_bytes env 16 w = (tok, w)"
    and send: "upstream_send env = send_eap (constant_net (eap_reply 11 [1, 2, 0, 6, 13, 0x20])) client"
    and octets: "reply_packet env (lab_request None [2, 1, 0, 5, 1]) AccessChallenge
      (SetItem ''State'' (AOctets tok) # eap_calls (Some [1, 2, 0, 6, 13, 0x20])) = Inr octets"
    and out: "sendto env octets (''ap'', 1812) w = (Inr (), w')"
  shows "\<exists>t s. handle_datagram env [2, 1, 0, 5, 1] (''ap'', 1812) (lab_table, w) = Some (Inr (), (t, w')) \<and>
     sessions t (state_key tok) = Some s \<and> result s = None \<and> downstream_state s = Some tok"
proof -
  let ?eap = "[2, 1, 0, 5, 1] :: bytes" and ?k = "''new:02-00''"
  let ?req = "lab_request None ?eap" and ?r = "eap_reply 11 [1, 2, 0, 6, 13, 0x20]"
  let ?s = "new_session ?k ''reassemble'' 60000 1000 262144 (Some (''ap'', 1812)) 1"
  obtain t where t: "lookup_session env None (''ap'', 1812) (Some ''02-00'') (concat [?eap]) (lab_table, w) = Some (Inr ?k, (t, w))"
    "sessions t ?k = Some ?s"
    by (simp add: lookup_session_def lookup_key_def lab_table_def new_session_table_def clk lab_clock_def get_or_create_def Let_def)
  obtain a where obs: "observe_request ?req (?s, w) =
      Some (Inr (), (?s\<lparr>last_ap_authenticator := Some (rq_authenticator ?req), ap_attrs := a\<rparr>, w))"
    by (rule observe_ok [of ?req ?s w]) simp_all
  let ?s1 = "?s\<lparr>last_ap_authenticator := Some (rq_authenticator ?req), ap_attrs := a\<rparr>"
  obtain s2 where routed: "route env (concat [?eap]) (case Some ''u'' of None \<Rightarrow> [] | Some u \<Rightarrow> u) (Some ''02-00'') None (?s1, w)
      = Some (Inr (mk_outcome Challenge (Some [1, 2, 0, 6, 13, 0x20]) None), (s2, w))"
    and s2: "key s2 = ?k" "downstream_state s2 = None" "result s2 = None"
  proof
    let ?s2 = "(after_exchange ?r ?s1)\<lparr>radius_state := reply_state (normalised ?r)\<rparr>"
    show "route env (concat [?eap]) (case Some ''u'' of None \<Rightarrow> [] | Some u \<Rightarrow> u) (Some ''02-00'') None (?s1, w)
      = Some (Inr (mk_outcome Challenge (Some [1, 2, 0, 6, 13, 0x20]) None), (?s2, w))"
      by (simp add: route_def passthrough_non_tls_def exchange_def prog_simps prog_assoc bindP_Some_Inr send start_server_run
          first_message_def eap_reply_messages EAP_TYPE_TLS_def Let_def AccessAccept_def AccessReject_def)
    show "key ?s2 = ?k" "downstream_state ?s2 = None" "result ?s2 = None"
      by (simp_all add: after_exchange_def new_session_def Let_def)
  qed
  have find: "sessions (store_session ?k s2 t) ?k = Some s2" by simp
  obtain t3 where mint: "mint_state env ?k (store_session ?k s2 t, w) = Some (Inr (state_key tok), (t3, w))"
    and s3: "sessions t3 (state_key tok) = Some (s2\<lparr>downstream_state := Some tok, key := state_key tok\<rparr>)"
    using mint_run [OF find s2(1), of env w] minted_sessions [OF find s2(1), of tok] s2(2) tok by simp
  have adm: "admitted env ?req [?eap]" using assms(2) by (simp add: admitted_def lab_request_def AccessRequest_def)
  have "serve_request env ?req [?eap] (''ap'', 1812) (lab_table, w) = Some (Inr (), (t3, w'))"
    by (rule serve_challenge [OF _ _ _ _ t obs routed _ calls mint s3 _ _ out]) (use s2(3) octets in \<open>simp_all add: terminal_def\<close>)
  then show ?thesis using s3 s2(3) handle_admitted [OF request adm] by simp
qed

lemma lab_identity_run:
  "\<exists>t s. handle_datagram (lab_env None start_server) [2, 1, 0, 5, 1] (''ap'', 1812) (lab_table, []) =
     Some (Inr (), (t, [[11, 1, 2, 0, 6, 13, 0x20]])) \<and>
     sessions t (state_key (replicate 16 7)) = Some s \<and> result s = None \<and> downstream_state s = Some (replicate 16 7)"
  by (rule identity_run) (simp_all add: start_server_def AccessChallenge_def)

end
