(* ===== verification/Interrupts.thy ===== *)
theory Interrupts
  imports Downstream_Exchange
begin

text \<open>
  Where a \<open>KeyboardInterrupt\<close> can come from while a datagram is handled. It is no \<open>Exception\<close>, so the
  receive loop lets it through and the program ends. The code raises it nowhere; it comes out
  of the surroundings (a socket, a clock, pyrad) when the operator interrupts a call. Method by
  method, the lemmas show that surroundings that are calm let every datagram be handled whole.
\<close>

section \<open>Programs that pass no interrupt on\<close>

definition unbroken :: "('s, 'a) prog \<Rightarrow> bool" where
  "unbroken m \<longleftrightarrow> (\<forall>s s'. m s \<noteq> Some (Inl KeyboardInterrupt, s'))"

lemma unbroken_bindP: "unbroken m \<Longrightarrow> (\<And>x. unbroken (k x)) \<Longrightarrow> unbroken (bindP m k)"
  by (auto simp: unbroken_def bindP_eq_Some_Inl)

lemma unbroken_thenP: "unbroken m \<Longrightarrow> unbroken k \<Longrightarrow> unbroken (thenP m k)"
  unfolding thenP_def by (rule unbroken_bindP)

lemma unbroken_steps:
  "unbroken (returnP x)" "unbroken (getP g)" "unbroken (modifyP h)" "unbroken (getS f)" "unbroken (modS f')"
  by (simp_all add: unbroken_def returnP_def getP_def modifyP_def getS_def modS_def)

lemma unbroken_raise: "e \<noteq> KeyboardInterrupt \<Longrightarrow> unbroken (raiseP e)"
  by (simp add: unbroken_def raiseP_def)

lemma unbroken_lift: "r \<noteq> Inl KeyboardInterrupt \<Longrightarrow> unbroken (liftP r)"
  by (simp add: unbroken_def liftP_def)

lemma unbroken_io: "(\<And>w. fst (f w) \<noteq> Inl KeyboardInterrupt) \<Longrightarrow> unbroken (ioP f)"
  by (auto simp: unbroken_def ioP_apply)

lemma unbroken_zoom: "unbroken m \<Longrightarrow> unbroken (zoomP get put m)"
  by (auto simp: unbroken_def zoomP_def split: option.splits)

lemma unbroken_on: "unbroken m \<Longrightarrow> unbroken (onS m)"
  unfolding onS_def by (rule unbroken_zoom)

lemma unbroken_if: "unbroken m \<Longrightarrow> unbroken m' \<Longrightarrow> unbroken (if c then m else m')"
  by simp

lemma unbroken_option: "unbroken m \<Longrightarrow> (\<And>x. unbroken (k x)) \<Longrightarrow> unbroken (case y of None \<Rightarrow> m | Some x \<Rightarrow> k x)"
  by (simp split: option.split)

lemma unbroken_list: "unbroken m \<Longrightarrow> (\<And>x xs. unbroken (k x xs)) \<Longrightarrow> unbroken (case y of [] \<Rightarrow> m | x # xs \<Rightarrow> k x xs)"
  by (simp split: list.split)

lemma unbroken_read:
  "(\<And>s. f s \<noteq> Inl KeyboardInterrupt) \<Longrightarrow> (\<And>x. unbroken (k x)) \<Longrightarrow> unbroken (bindP (getS f) (\<lambda>r. bindP (liftP r) k))"
  by (auto simp: unbroken_def getS_def getP_def bindP_def liftP_def split: option.splits sum.splits)

lemma unbroken_run: "unbroken m \<Longrightarrow> m s = Some y \<Longrightarrow> fst y \<noteq> Inl KeyboardInterrupt"
  by (cases y) (auto simp: unbroken_def)

lemma unbroken_session: "unbroken m \<Longrightarrow> unbroken (on_session k m)"
  by (auto simp: unbroken_def on_session_def split: option.splits)

lemmas unbroken_rules =
  unbroken_bindP unbroken_thenP unbroken_steps unbroken_raise unbroken_lift unbroken_on unbroken_zoom unbroken_if
  unbroken_option unbroken_list unbroken_session

section \<open>The codec, the reassembler and the request\<close>

lemma codec_calm [simp]:
  "parse b \<noteq> Inl KeyboardInterrupt" "py_bytes ns \<noteq> Inl KeyboardInterrupt" "int_to_bytes v k \<noteq> Inl KeyboardInterrupt"
  "fragment d n \<noteq> Inl KeyboardInterrupt" "restamp_terminal s eap \<noteq> Inl KeyboardInterrupt"
  by (simp_all add: parse_def Let_def py_bytes_def int_to_bytes_def fragment_def restamp_terminal_def split: option.split)

lemma build_calm [simp]: "build c i d mf tml st \<noteq> Inl KeyboardInterrupt" "build_ack c i \<noteq> Inl KeyboardInterrupt"
  by (simp_all add: build_ack_def build_def Let_def py_bytes_def int_to_bytes_def split: sum.split option.split)

lemma ingest_calm: "unbroken (ingest pkt)"
  unfolding ingest_def ingest_first_def ingest_append_def
  by (intro unbroken_rules) simp_all

lemma request_calm [simp]: "get_str req n \<noteq> Inl KeyboardInterrupt" "get_bytes req n \<noteq> Inl KeyboardInterrupt"
  by (auto simp: get_str_def get_bytes_def py_decode_def split: option.splits list.splits text_value.splits)

lemma capture_calm: "unbroken (capture_attrs req names)"
  by (induction names) (simp_all add: unbroken_steps unbroken_raise unbroken_thenP split: option.split list.split)

lemma observe_calm: "unbroken (observe_request req)"
  unfolding observe_request_def by (intro unbroken_rules capture_calm)

section \<open>The mediator\<close>

definition calm_leg :: "'w sender \<Rightarrow> bool" where
  "calm_leg send \<longleftrightarrow> (\<forall>eap u st ca ce. unbroken (send eap u st ca ce))"

lemma finish_calm: "unbroken (finish_now clk res)"
  unfolding finish_now_def
  by (intro unbroken_rules unbroken_io) (simp split: prod.split)

lemma ids_calm: "unbroken next_up_id" "unbroken next_down_id"
  by (simp_all add: unbroken_def next_up_id_def next_down_id_def prog_simps)

lemma terminal_calm: "unbroken (terminal_outcome a pend)"
  unfolding terminal_outcome_def unbroken_def by (auto simp: prog_simps bindP_eq_Some_Inl liftP_def)

lemma mediator_steps_calm:
  "unbroken upstream_response_id" "unbroken (stash_terminal clk reply)" "unbroken send_next_downstream_fragment"
  "unbroken (on_up (ingest pkt))" "unbroken (on_down (ingest pkt))"
  unfolding upstream_response_id_def stash_terminal_def send_next_downstream_fragment_def on_up_def on_down_def Let_def
  by (intro unbroken_rules finish_calm ids_calm ingest_calm build_calm; simp)+

lemma begin_calm: "unbroken (begin_downstream_fragmentation d)"
  unfolding begin_downstream_fragmentation_def
  by (rule unbroken_read, simp, intro unbroken_rules mediator_steps_calm)

lemma deliver_calm: "unbroken (deliver_record d)"
  unfolding deliver_record_def by (intro unbroken_rules begin_calm)

lemma exchange_calm:
  assumes "calm_leg send"
  shows "unbroken (exchange send eap u ca ce)"
  using assms unfolding exchange_def calm_leg_def by (intro unbroken_rules) blast

lemma drain_ack_calm: "calm_leg send \<Longrightarrow> unbroken (drain_ack send u ca ce)"
  unfolding drain_ack_def by (intro unbroken_rules mediator_steps_calm exchange_calm) simp_all

lemma drain_calm:
  assumes "calm_leg send"
  shows "unbroken (drain_upstream_fragments send clk u ca ce pkt)"
proof -
  let ?P = "\<lambda>send' clk u ca ce p sw y. send' = send \<longrightarrow> fst y \<noteq> Inl KeyboardInterrupt"
  have step: "?P send clk u ca ce pkt sw y" if "drain_upstream_fragments send clk u ca ce pkt sw = Some y" for sw y
  proof (rule drain_upstream_fragments.raw_induct [OF _ that, where P = ?P])
    fix f send' clk u ca ce p sw y
    assume hyp: "\<And>send clk u ca ce p sw y. f send clk u ca ce p sw = Some y \<Longrightarrow> ?P send clk u ca ce p sw y"
      and run: "(if more_fragments p then
        bindP (drain_ack send' u ca ce) (\<lambda>reply.
          if accept reply \<or> reject reply then thenP (stash_terminal clk reply) (returnP None)
          else
            case eap_messages reply of
              [] \<Rightarrow> bindP (getS (\<lambda>s. buffer (down_reasm s))) (\<lambda>b. returnP (Some b))
            | m # ms \<Rightarrow>
                bindP (liftP (parse m)) (\<lambda>pkt.
                bindP (on_down (ingest pkt)) (\<lambda>complete.
                  case complete of
                    None \<Rightarrow> f send' clk u ca ce pkt
                  | Some d \<Rightarrow> returnP (Some d))))
      else bindP (getS (\<lambda>s. buffer (down_reasm s))) (\<lambda>b. returnP (Some b))) sw = Some y"
    have IH: "unbroken (f send clk u ca ce pkt)" for pkt
      unfolding unbroken_def using hyp by fastforce
    show "?P send' clk u ca ce p sw y"
    proof
      assume eq: "send' = send"
      have body: "unbroken (if more_fragments p then
        bindP (drain_ack send u ca ce) (\<lambda>reply.
          if accept reply \<or> reject reply then thenP (stash_terminal clk reply) (returnP None)
          else
            case eap_messages reply of
              [] \<Rightarrow> bindP (getS (\<lambda>s. buffer (down_reasm s))) (\<lambda>b. returnP (Some b))
            | m # ms \<Rightarrow>
                bindP (liftP (parse m)) (\<lambda>pkt.
                bindP (on_down (ingest pkt)) (\<lambda>complete.
                  case complete of
                    None \<Rightarrow> f send clk u ca ce pkt
                  | Some d \<Rightarrow> returnP (Some d))))
      else bindP (getS (\<lambda>s. buffer (down_reasm s))) (\<lambda>b. returnP (Some b)))"
        by (intro unbroken_rules drain_ack_calm [OF assms] mediator_steps_calm codec_calm IH)
      show "fst y \<noteq> Inl KeyboardInterrupt"
        by (rule unbroken_run [OF body]) (rule run [unfolded eq])
    qed
  qed
  then show ?thesis unfolding unbroken_def by (metis fst_conv)
qed

lemma reply_calm: "calm_leg send \<Longrightarrow> unbroken (handle_upstream_reply send clk reply_opt u ca ce)"
  unfolding handle_upstream_reply_def
  by (intro unbroken_rules mediator_steps_calm terminal_calm deliver_calm drain_calm codec_calm)

lemma chunks_calm: "calm_leg send \<Longrightarrow> unbroken (forward_chunks send u ca ce n t rep cs)"
proof (induction cs arbitrary: rep)
  case (Cons c cs)
  show ?case unfolding forward_chunks.simps
    by (intro unbroken_rules mediator_steps_calm exchange_calm [OF Cons.prems] Cons.IH [OF Cons.prems] build_calm)
qed (simp add: unbroken_steps)

lemma forward_calm: "calm_leg send \<Longrightarrow> unbroken (forward_record_upstream send clk d u ca ce)"
  unfolding forward_record_upstream_def
  by (rule unbroken_read, simp, intro unbroken_rules chunks_calm reply_calm)

lemma handle_calm:
  assumes "calm_leg send"
  shows "unbroken (handle_supplicant_eap send clk eap u ca ce)"
proof -
  have pass: "unbroken (passthrough_upstream send clk eap u ca ce)"
    unfolding passthrough_upstream_def by (intro unbroken_rules exchange_calm [OF assms] finish_calm)
  have ack: "unbroken (supplicant_ack send clk u ca ce)"
    unfolding supplicant_ack_def
    by (intro unbroken_rules mediator_steps_calm terminal_calm exchange_calm [OF assms] reply_calm [OF assms] build_calm)
  have data: "unbroken (supplicant_data send clk pkt u ca ce)" for pkt
    unfolding supplicant_data_def
    by (intro unbroken_rules mediator_steps_calm ids_calm forward_calm [OF assms] build_calm)
  show ?thesis
    unfolding handle_supplicant_eap_def by (intro unbroken_rules codec_calm pass ack data)
qed

section \<open>The server\<close>

text \<open>Surroundings in which no call is interrupted.\<close>

definition calm :: "'w server_env \<Rightarrow> bool" where
  "calm env \<longleftrightarrow>
     (\<forall>d. auth_packet env d \<noteq> Inl KeyboardInterrupt) \<and>
     (\<forall>f req. verifier env = Some f \<longrightarrow> f req \<noteq> Inl KeyboardInterrupt) \<and>
     (\<forall>req c. call_error env req c \<noteq> Some KeyboardInterrupt) \<and>
     (\<forall>req c cs. reply_packet env req c cs \<noteq> Inl KeyboardInterrupt) \<and>
     (\<forall>octets addr w. fst (sendto env octets addr w) \<noteq> Inl KeyboardInterrupt) \<and>
     (\<forall>smry w. fst (report env smry w) \<noteq> Inl KeyboardInterrupt) \<and> calm_leg (upstream_send env)"

lemma route_calm:
  assumes "calm env"
  shows "unbroken (route env eap u ca ce)"
proof -
  have leg: "calm_leg (upstream_send env)" using assms by (simp add: calm_def)
  show ?thesis
    unfolding route_def passthrough_non_tls_def Let_def
    by (intro unbroken_rules handle_calm [OF leg] exchange_calm [OF leg] finish_calm)
qed

lemma calls_calm: "calm env \<Longrightarrow> unbroken (add_calls env req calls cs)"
proof (induction cs arbitrary: calls)
  case (Cons c cs)
  then have "unbroken (add_call env req c calls)"
    by (auto simp: add_call_def calm_def unbroken_steps intro: unbroken_raise split: option.split)
  then show ?case using Cons by (simp add: unbroken_bindP)
qed (simp add: unbroken_steps)

lemma build_reply_calm:
  assumes "calm env"
  shows "unbroken (build_reply env req k out)"
proof -
  have mint: "unbroken (mint_state env k)"
    unfolding mint_state_def Let_def case_prod_beta
    by (intro unbroken_rules unbroken_io) (simp add: case_prod_beta)
  show ?thesis
    unfolding build_reply_def case_prod_beta by (intro unbroken_rules mint calls_calm [OF assms])
qed

lemma calm_datagram:
  assumes "calm env"
  shows "handle_datagram env octets addr tw \<noteq> Some (Inl KeyboardInterrupt, tw')"
proof -
  note c = assms [unfolded calm_def]
  have look: "unbroken (lookup_session env st addr calling eap)" for st calling eap
    by (auto simp: unbroken_def lookup_session_def Let_def split: option.split prod.split)
  have finish: "unbroken (finish_session env k)" for k
    unfolding finish_session_def case_prod_beta by (intro unbroken_rules unbroken_io) (use c in blast)
  have sent: "unbroken (ioP (sendto env octets' addr))" for octets'
    by (rule unbroken_io) (use c in blast)
  have reply: "reply_packet env req co cs \<noteq> Inl KeyboardInterrupt" for req co cs using c by blast
  have serve: "unbroken (serve_request env req parts addr)" for req parts
    unfolding serve_request_def Let_def case_prod_beta
    by (intro unbroken_rules request_calm look observe_calm route_calm [OF assms] build_reply_calm [OF assms] reply sent finish)
  have check: "check_message_authenticator env req \<noteq> Inl KeyboardInterrupt" for req
    using c by (auto simp: check_message_authenticator_def split: option.split sum.split)
  have "unbroken (handle_datagram env octets addr)"
    unfolding handle_datagram_def by (intro unbroken_rules serve check) (use c in blast)
  then show ?thesis unfolding unbroken_def by blast
qed

text \<open>The upstream client is calm when pyrad and the network are.\<close>

definition calm_net :: "'w upstream_net \<Rightarrow> bool" where
  "calm_net net \<longleftrightarrow> (\<forall>req. request_error net req \<noteq> Some KeyboardInterrupt) \<and>
     (\<forall>req w. fst (send_packet net req w) \<noteq> Inl KeyboardInterrupt)"

lemma calm_send_eap:
  assumes "calm_net net"
  shows "calm_leg (send_eap net client)"
proof -
  have "x \<noteq> Inl KeyboardInterrupt"
    if "send_eap net client eap u st ca ce (s, w) = Some (x, (s', w'))" for eap u st ca ce s w x s' w'
    using that by (cases rule: send_eap_result) (use assms in \<open>auto simp: calm_net_def\<close>)
  then show ?thesis by (fastforce simp: calm_leg_def unbroken_def)
qed

end
