(* ===== verification/Downstream_Guarantees.thy ===== *)
theory Downstream_Guarantees
  imports Interrupts
begin

text \<open>
  What the downstream server guarantees, for the repository's upstream client: an invariant of
  every reachable table, the isolation of sessions from each other and from datagrams that are
  not admitted, the correlation of a conversation by its State, the Identifiers toward the
  supplicant, the contents of a reply, the end of a session, and what stops the receive loop.
\<close>

section \<open>Runs of the server\<close>

text \<open>
  The table and the world after any number of datagrams, each handled with or without an
  exception, while the world changes at will in between.
\<close>

inductive server_run :: "'w server_env \<Rightarrow> session_table \<times> 'w \<Rightarrow> session_table \<times> 'w \<Rightarrow> bool"
  for env :: "'w server_env" and tw :: "session_table \<times> 'w" where
  run_start: "server_run env tw tw"
| run_datagram: "server_run env tw tw1 \<Longrightarrow> handle_datagram env data addr tw1 = Some (r, tw2) \<Longrightarrow>
    server_run env tw tw2"
| run_world: "server_run env tw (t, w) \<Longrightarrow> server_run env tw (t, w')"

inductive_cases server_run_from: "server_run env tw tw'"

lemma serve_run: "server_run env tw0 tw \<Longrightarrow> serve env ds tw = Some tw' \<Longrightarrow> server_run env tw0 tw'"
proof (induction ds arbitrary: tw)
  case (Cons d ds)
  then obtain r tw1 where "handle_datagram env (fst d) (snd d) tw = Some (r, tw1)" "serve env ds tw1 = Some tw'"
    by (auto split: option.splits if_splits)
  then show ?case using run_datagram [OF Cons.prems(1)] Cons.IH by blast
qed simp

lemma run_keeps:
  assumes "server_run env (t0, w0) tw" and "upstream_send env = send_eap net client" and "table_ok t0"
  shows "table_ok (fst tw) \<and> same_config t0 (fst tw)"
  using assms(1)
proof (induction rule: server_run.induct)
  case (run_datagram tw1 data addr r tw2)
  then show ?case
    using leg.handle_datagram_ok [OF assms(2), of "fst tw1" data addr "snd tw1" r "fst tw2" "snd tw2"]
      same_config_trans [of t0 "fst tw1" "fst tw2"] by simp
qed (use assms(3) in simp_all)

lemma same_config_fields:
  "same_config t t' \<Longrightarrow> table_mode t' = table_mode t \<and>
     table_upstream_fragment_size t' = table_upstream_fragment_size t \<and>
     table_downstream_fragment_size t' = table_downstream_fragment_size t \<and>
     table_max_message_len t' = table_max_message_len t"
  by (auto simp: same_config_def)

text \<open>
  C8: the invariant of the running server, over every sequence of datagrams from anybody, with
  exceptions, whatever the upstream server answers and whatever the clock and the random
  source give. Every stored session is well formed, is under its own key, has the operator's
  mode and sizes, and is keyed by the State minted for it as soon as it has one; so no two
  sessions share a State.
\<close>

theorem server_invariant:
  assumes "server_run env (new_session_table m u d n idle, w0) (t, w)"
    and "upstream_send env = send_eap net client"
    and "1 \<le> u" and "u \<le> 65000" and "1 \<le> d" and "d \<le> 65000"
    and "sessions t k = Some s"
  shows "sound s \<and> key s = k \<and> mode s = m \<and> upstream_fragment_size s = u \<and> downstream_fragment_size s = d \<and>
    max_message_len (up_reasm s) = n \<and> max_message_len (down_reasm s) = n \<and>
    (\<forall>st. downstream_state s = Some st \<longrightarrow> k = ''st:'' @ bytes_hex st \<and>
       (\<forall>k2 s2. sessions t k2 = Some s2 \<longrightarrow> downstream_state s2 = Some st \<longrightarrow> k2 = k))"
proof -
  have ok: "table_ok t" and cfg: "same_config (new_session_table m u d n idle) t"
    using run_keeps [OF assms(1,2) new_table_ok [OF assms(3-6)]] by simp_all
  have fields: "table_mode t = m" "table_upstream_fragment_size t = u" "table_downstream_fragment_size t = d"
    "table_max_message_len t = n"
    using same_config_fields [OF cfg] by (simp_all add: new_session_table_def)
  have keyed: "k2 = state_key st" if "sessions t k2 = Some s2" "downstream_state s2 = Some st" for k2 s2 st
    using stored_ok [OF ok that(1)] that(2) by (simp add: session_ok_def)
  show ?thesis
    using stored_ok [OF ok assms(7)] fields keyed keyed [OF assms(7)]
    by (auto simp: session_ok_def state_key_def)
qed

theorem server_invariant_witness:
  "\<exists>t w s. server_run (lab_env None start_server) (lab_table, []) (t, w) \<and>
     sessions t (''st:'' @ bytes_hex (replicate 16 7)) = Some s \<and> sound s \<and> mode s = ''reassemble''"
proof -
  obtain t s where run: "handle_datagram (lab_env None start_server) [2, 1, 0, 5, 1] (''ap'', 1812) (lab_table, []) =
      Some (Inr (), (t, [[11, 1, 2, 0, 6, 13, 0x20]]))" and s: "sessions t (state_key (replicate 16 7)) = Some s"
    using lab_identity_run by blast
  have "server_run (lab_env None start_server) (lab_table, []) (t, [[11, 1, 2, 0, 6, 13, 0x20]])"
    using run_datagram [OF run_start run] .
  from server_invariant [OF this [unfolded lab_table_def] _ _ _ _ _ s, of "constant_net (eap_reply 11 [1, 2, 0, 6, 13, 0x20])" lab_client]
    this s show ?thesis by (auto simp: start_server_def state_key_def)
qed

section \<open>Isolation\<close>

text \<open>
  C9: a datagram that changes anything, in the table or outside, is a decoded Access-Request
  that carries an EAP-Message and a Message-Authenticator that verifies (where pyrad can).
  It reaches one session only: the one its State, or else its Calling-Station-Id or address,
  names. That session is afterwards where it was, or under the key of a State the random source
  gave, or gone; it is the same session, of the same station and start. Every other session is as
  before, unless the random source repeats a State in use. With an exception too.
\<close>

theorem datagram_isolated:
  assumes "upstream_send env = send_eap net client" and "table_ok t"
    and "handle_datagram env data addr (t, w) = Some (r, (t', w'))" and "(t', w') \<noteq> (t, w)"
  shows "\<exists>req parts k k' x. auth_packet env data = Inr req \<and> rq_code req = AccessRequest \<and>
    rq_octets req ''EAP-Message'' = Some parts \<and> rq_octets req ''Message-Authenticator'' \<noteq> None \<and>
    (case verifier env of None \<Rightarrow> True | Some f \<Rightarrow> f req = Inr True) \<and>
    request_key req parts addr = Inr k \<and>
    (k' = k \<or> (\<exists>wr. k' = ''st:'' @ bytes_hex (fst (token_bytes env 16 wr)))) \<and>
    sessions t' = (sessions t)(k := None, k' := x) \<and>
    (\<forall>s'. x = Some s' \<longrightarrow> key s' = k' \<and>
       (\<forall>s. sessions t k = Some s \<longrightarrow> ap_address s' = ap_address s \<and> started_at s' = started_at s)) \<and>
    ((\<forall>wr. sessions t (''st:'' @ bytes_hex (fst (token_bytes env 16 wr))) = None) \<longrightarrow>
       (\<forall>k2 s2. k2 \<noteq> k \<longrightarrow> sessions t k2 = Some s2 \<longrightarrow> sessions t' k2 = Some s2))"
proof -
  obtain req parts k where r: "auth_packet env data = Inr req" "admitted env req parts" "request_key req parts addr = Inr k"
    "case r of Inl e \<Rightarrow> confined env t k t' | Inr x \<Rightarrow> settled env t k t'"
    using leg.handle_datagram_confined [OF assms(1-3)] assms(4) by blast
  then have "confined env t k t'" using settled_confined by (cases r) auto
  then obtain k' x where c: "table_ok t'" "home env k k'" "sessions t' = (sessions t)(k := None, k' := x)"
    "\<forall>s. x = Some s \<longrightarrow> heir t k s"
    by (auto simp: confined_def)
  have "key s' = k'" if "x = Some s'" for s' using stored_ok(2) [OF c(1), of k' s'] c(3) that by simp
  then show ?thesis
    using r(1-3) c(2-4) unfolding admitted_def home_def heir_def state_key_def
    by (intro exI [of _ req] exI [of _ parts] exI [of _ k] exI [of _ k'] exI [of _ x]) auto
qed

theorem datagram_isolated_witness:
  "\<exists>t w k k' x. handle_datagram (lab_env None start_server) [2, 1, 0, 5, 1] (''ap'', 1812) (lab_table, []) = Some (Inr (), (t, w)) \<and>
     request_key (lab_request None [2, 1, 0, 5, 1]) [[2, 1, 0, 5, 1]] (''ap'', 1812) = Inr k \<and>
     sessions t = (sessions lab_table)(k := None, k' := x)"
proof -
  obtain t where run: "handle_datagram (lab_env None start_server) [2, 1, 0, 5, 1] (''ap'', 1812) (lab_table, []) =
      Some (Inr (), (t, [[11, 1, 2, 0, 6, 13, 0x20]]))"
    using lab_identity_run by blast
  have env: "upstream_send (lab_env None start_server) = send_eap (constant_net (eap_reply 11 [1, 2, 0, 6, 13, 0x20])) lab_client"
    by (simp add: start_server_def)
  have "(t, [[11, 1, 2, 0, 6, 13, 0x20]]) \<noteq> (lab_table, [] :: bytes list)" by simp
  from datagram_isolated [OF env lab_table_ok run this] obtain req parts k k' x where
    d: "Inr (lab_request None [2, 1, 0, 5, 1]) = (Inr req :: py_error + ap_request)"
    "rq_octets req ''EAP-Message'' = Some parts" "request_key req parts (''ap'', 1812) = Inr k"
    "sessions t = (sessions lab_table)(k := None, k' := x)"
    unfolding lab_env_sel by blast
  then have "request_key (lab_request None [2, 1, 0, 5, 1]) [[2, 1, 0, 5, 1]] (''ap'', 1812) = Inr k"
    by (auto simp: lab_request_def)
  with run d(4) show ?thesis by blast
qed

text \<open>
  C21: an exchange that ends without an exception leaves no finished session behind: if no
  session of the table was accepted or rejected before, none is afterwards.
\<close>

theorem finished_sessions_leave:
  assumes "upstream_send env = send_eap net client" and "table_ok t"
    and "handle_datagram env data addr (t, w) = Some (Inr (), (t', w'))"
    and "\<forall>k s. sessions t k = Some s \<longrightarrow> result s \<notin> {Some ''accept'', Some ''reject''}"
    and "sessions t' k = Some s"
  shows "result s \<noteq> Some ''accept'' \<and> result s \<noteq> Some ''reject''"
proof -
  have "t' = t \<or> (\<exists>k. settled env t k t')" using leg.handle_datagram_confined [OF assms(1-3)] by auto
  then show ?thesis
  proof
    assume "\<exists>k. settled env t k t'"
    then show ?thesis using assms(4,5) by (auto simp: settled_def terminal_def split: if_splits)
  qed (use assms(4,5) in auto)
qed

theorem finished_sessions_leave_witness:
  "\<exists>t s. handle_datagram (lab_env None start_server) [2, 1, 0, 5, 1] (''ap'', 1812) (lab_table, []) =
      Some (Inr (), (t, [[11, 1, 2, 0, 6, 13, 0x20]])) \<and>
    sessions t (state_key (replicate 16 7)) = Some s \<and> result s \<noteq> Some ''accept'' \<and> result s \<noteq> Some ''reject''"
proof -
  obtain t s where run: "handle_datagram (lab_env None start_server) [2, 1, 0, 5, 1] (''ap'', 1812) (lab_table, []) =
      Some (Inr (), (t, [[11, 1, 2, 0, 6, 13, 0x20]]))" and s: "sessions t (state_key (replicate 16 7)) = Some s"
    using lab_identity_run by blast
  have "\<forall>k s. sessions lab_table k = Some s \<longrightarrow> result s \<notin> {Some ''accept'', Some ''reject''}"
    by (simp add: lab_table_def new_session_table_def)
  from finished_sessions_leave [OF _ lab_table_ok run this s, of "constant_net (eap_reply 11 [1, 2, 0, 6, 13, 0x20])" lab_client] run s
  show ?thesis by (simp add: start_server_def) 
qed

section \<open>The reply\<close>

lemma add_call_run: "add_call env req c calls tw = Some (Inr calls', tw') \<Longrightarrow> calls' = calls @ [c] \<and> tw' = tw"
  by (cases "call_error env req c") (auto simp: add_call_def prog_simps)

lemma add_calls_run:
  "add_calls env req calls cs tw = Some (Inr calls', tw') \<Longrightarrow> calls' = calls @ cs \<and> tw' = tw"
proof (induction cs arbitrary: calls)
  case (Cons c cs)
  then show ?case using Cons.IH [of "calls @ [c]"] by (cases "call_error env req c") (auto simp: add_call_def prog_simps)
qed (simp add: prog_simps)

lemma mint_outcome:
  assumes "table_ok t" and s: "sessions t k = Some s"
  obtains st t' w' where "mint_state env k (t, w) = Some (Inr (state_key st), (t', w'))"
    "sessions t' = (sessions t)(k := None, state_key st \<mapsto> s\<lparr>downstream_state := Some st, key := state_key st\<rparr>)"
proof (cases "downstream_state s")
  case None
  then show ?thesis
    using that mint_run [OF s stored_ok(2) [OF assms], of env w] minted_sessions [OF s stored_ok(2) [OF assms]]
    by (cases "token_bytes env 16 w") auto
next
  case (Some v)
  then have "state_key v = k" using stored_ok [OF assms] by (simp add: session_ok_def)
  moreover have "s\<lparr>downstream_state := Some v, key := k\<rparr> = s" using Some stored_ok(2) [OF assms] by (cases s) simp
  ultimately show ?thesis
    using that [of v t w] mint_run [OF s stored_ok(2) [OF assms], of env w] Some s by (simp add: fun_upd_idem)
qed

definition code_of :: "action \<Rightarrow> nat" where
  "code_of a = (case a of Accept \<Rightarrow> AccessAccept | Reject \<Rightarrow> AccessReject | _ \<Rightarrow> AccessChallenge)"

lemma build_reply_run:
  assumes "table_ok t" and s: "sessions t k = Some s"
    and "build_reply env req k out (t, w) = Some (Inr (c, calls, k'), (t', w'))"
  obtains (final) "action out = Accept \<or> action out = Reject" "k' = k" "t' = t" "c = code_of (action out)"
      "calls = (if action out = Accept then set_if_octets ''MS-MPPE-Send-Key'' (ms_mppe_send_key s) @
          set_if_octets ''MS-MPPE-Recv-Key'' (ms_mppe_recv_key s) else []) @ eap_calls (eap_bytes out)"
  | (onward) st where "action out = Ack \<or> action out = Challenge" "k' = state_key st" "c = AccessChallenge"
      "calls = SetItem ''State'' (AOctets st) # eap_calls (eap_bytes out)"
      "sessions t' = (sessions t)(k := None, k' \<mapsto> s\<lparr>downstream_state := Some st, key := k'\<rparr>)"
proof (cases "action out = Accept \<or> action out = Reject")
  case True
  then show ?thesis
    using final assms(3)
    by (auto simp: build_reply_def on_session_getS [OF s] prog_simps bindP_eq_Some_Inr prog_assoc code_of_def
        dest!: add_calls_run split: if_splits)
next
  case False
  obtain st t1 w1 where mint: "mint_state env k (t, w) = Some (Inr (state_key st), (t1, w1))"
    and t1: "sessions t1 = (sessions t)(k := None, state_key st \<mapsto> s\<lparr>downstream_state := Some st, key := state_key st\<rparr>)"
    by (rule mint_outcome [OF assms(1) s])
  then have find: "sessions t1 (state_key st) = Some (s\<lparr>downstream_state := Some st, key := state_key st\<rparr>)" by simp
  have act: "action out = Ack \<or> action out = Challenge" using False by (cases "action out") simp_all
  show ?thesis
    using assms(3) False act t1
    by (intro onward [of st])
      (auto simp: build_reply_def bindP_Some_Inr mint prog_assoc on_session_getS [OF find] prog_simps bindP_eq_Some_Inr
        set_if_octets_def dest!: add_calls_run add_call_run)
qed

text \<open>
  C11: what the access point gets. The RADIUS code follows the outcome; the EAP-Message
  attributes carry the outcome's EAP packet whole, in pieces of at most 253 octets, and come
  with a Message-Authenticator, which a reply without EAP packet has not; the session keys go
  out with an Access-Accept only, and the State with an Access-Challenge only.
\<close>

theorem reply_contents:
  assumes "table_ok t" and "sessions t k = Some s"
    and "build_reply env req k out (t, w) = Some (Inr (c, calls, k'), (t', w'))"
  shows "c = (case action out of Accept \<Rightarrow> AccessAccept | Reject \<Rightarrow> AccessReject | _ \<Rightarrow> AccessChallenge) \<and>
    eap_of_calls calls = (case eap_bytes out of None \<Rightarrow> [] | Some e \<Rightarrow> e) \<and>
    list_all (\<lambda>call. case call of AddAttribute n v \<Rightarrow> n = ''EAP-Message'' \<and> 1 \<le> length v \<and> length v \<le> 253 | _ \<Rightarrow> True) calls \<and>
    (AddMessageAuthenticator \<in> set calls \<longleftrightarrow> eap_of_calls calls \<noteq> []) \<and>
    items_of ''MS-MPPE-Send-Key'' calls = (case (action out, ms_mppe_send_key s) of (Accept, Some v) \<Rightarrow> [AOctets v] | _ \<Rightarrow> []) \<and>
    items_of ''MS-MPPE-Recv-Key'' calls = (case (action out, ms_mppe_recv_key s) of (Accept, Some v) \<Rightarrow> [AOctets v] | _ \<Rightarrow> []) \<and>
    length (items_of ''State'' calls) = (if c = AccessChallenge then 1 else 0)"
proof -
  have chunks: "list_all (\<lambda>call. case call of AddAttribute n v \<Rightarrow> n = ''EAP-Message'' \<and> 1 \<le> length v \<and> length v \<le> 253 | _ \<Rightarrow> True)
      (eap_calls e)" for e
    using eap_calls_chunks by (auto simp: list_all_iff split: request_call.split)
  have auth: "AddMessageAuthenticator \<in> set (eap_calls e) \<longleftrightarrow> e \<noteq> None \<and> e \<noteq> Some []" for e
    by (auto simp: eap_calls_def split: option.split)
  show ?thesis
    using assms
  proof (cases rule: build_reply_run)
    case final
    then show ?thesis using chunks [of "eap_bytes out"] auth [of "eap_bytes out"]
      by (auto simp: code_of_def set_if_octets_def radius_code_defs split: option.split)
  next
    case (onward st)
    then show ?thesis using chunks [of "eap_bytes out"] auth [of "eap_bytes out"]
      by (auto simp: radius_code_defs split: option.split)
  qed
qed

definition keyed_table :: session_table where
  "keyed_table = store_session ''k'' (new_session ''k'' ''reassemble'' 60000 1000 262144 None 0\<lparr>ms_mppe_send_key := Some [1, 2]\<rparr>) lab_table"

lemma keyed_table_ok: "table_ok keyed_table"
  unfolding keyed_table_def
  by (rule table_ok_store [OF lab_table_ok])
    (use new_session_ok [of lab_table "''k''" None 0] lab_table_ok in
      \<open>simp_all add: table_ok_def lab_table_def new_session_table_def session_ok_def sound_def regular_def queued_def new_session_def\<close>)

lemma keyed_table_find:
  "sessions keyed_table ''k'' = Some (new_session ''k'' ''reassemble'' 60000 1000 262144 None 0\<lparr>ms_mppe_send_key := Some [1, 2]\<rparr>)"
  by (simp add: keyed_table_def)

theorem reply_contents_witness:
  "build_reply (lab_env None start_server) (lab_request None []) ''k'' (mk_outcome Accept (Some [3, 7, 0, 4]) None) (keyed_table, []) =
     Some (Inr (AccessAccept, [SetItem ''MS-MPPE-Send-Key'' (AOctets [1, 2]), AddAttribute ''EAP-Message'' [3, 7, 0, 4],
       AddMessageAuthenticator], ''k''), (keyed_table, [])) \<and>
   eap_of_calls [SetItem ''MS-MPPE-Send-Key'' (AOctets [1, 2]), AddAttribute ''EAP-Message'' [3, 7, 0, 4],
       AddMessageAuthenticator] = [3, 7, 0, 4]"
proof -
  have calls: "eap_calls (Some [3, 7, 0, 4]) = [AddAttribute ''EAP-Message'' [3, 7, 0, 4], AddMessageAuthenticator]"
    by (simp add: eap_calls_def downstream_split_eap_message_def py_chunks_chop chop_single)
  have run: "build_reply (lab_env None start_server) (lab_request None []) ''k'' (mk_outcome Accept (Some [3, 7, 0, 4]) None) (keyed_table, []) =
     Some (Inr (AccessAccept, [SetItem ''MS-MPPE-Send-Key'' (AOctets [1, 2]), AddAttribute ''EAP-Message'' [3, 7, 0, 4],
       AddMessageAuthenticator], ''k''), (keyed_table, []))"
    by (simp add: build_reply_def on_session_getS [OF keyed_table_find] bindP_returnP prog_assoc add_calls_ok set_if_octets_def calls
        del: add_calls.simps)
      (simp add: new_session_def bindP_returnP returnP_apply)
  from reply_contents [OF keyed_table_ok keyed_table_find run] run show ?thesis by simp
qed

text \<open>
  C10: the correlation of a conversation. The State a challenge carries is the session's own;
  whatever request next quotes it, from any address and with any attributes, is served on
  that very session, with nothing of it lost. No other value of State leads to that session.
\<close>

theorem challenge_correlates:
  assumes "table_ok t" and "sessions t k = Some s" and "action out = Ack \<or> action out = Challenge"
    and "build_reply env req k out (t, w) = Some (Inr (c, calls, k'), (t', w'))"
  shows "\<exists>st. items_of ''State'' calls = [AOctets st] \<and>
    sessions t' k' = Some (s\<lparr>downstream_state := Some st, key := k'\<rparr>) \<and> (k \<noteq> k' \<longrightarrow> sessions t' k = None) \<and>
    lookup_session env (Some st) addr calling eap (t', w2) = Some (Inr k', (t', w2)) \<and>
    (\<forall>st2. lookup_key (Some st2) addr calling eap = k' \<longrightarrow> st2 = st)"
  using assms(1,2,4)
proof (cases rule: build_reply_run)
  case final
  then show ?thesis using assms(3) by auto
next
  case (onward st)
  have find: "sessions t' k' = Some (s\<lparr>downstream_state := Some st, key := k'\<rparr>)" using onward(5) by simp
  moreover have "lookup_session env (Some st) addr calling eap (t', w2) = Some (Inr k', (t', w2))"
    using find onward(2) by (simp add: lookup_session_def lookup_key_def state_key_def)
  moreover have "items_of ''State'' calls = [AOctets st]" "k \<noteq> k' \<longrightarrow> sessions t' k = None"
    using onward(4,5) by simp_all
  moreover have "\<forall>st2. lookup_key (Some st2) addr calling eap = k' \<longrightarrow> st2 = st"
    using onward(2) bytes_hex_inj by (simp add: lookup_key_def state_key_def)
  ultimately show ?thesis by blast
qed

theorem challenge_correlates_witness:
  "\<exists>c calls k' t' st. build_reply (lab_env None start_server) (lab_request None []) ''k'' (mk_outcome Ack None None) (keyed_table, []) =
      Some (Inr (c, calls, k'), (t', [])) \<and>
    lookup_session (lab_env None start_server) (Some st) (''other'', 9) None [] (t', []) = Some (Inr k', (t', []))"
proof -
  obtain st t' w' where mint: "mint_state (lab_env None start_server) ''k'' (keyed_table, []) = Some (Inr (state_key st), (t', w'))"
    and t': "sessions t' = (sessions keyed_table)(''k'' := None, state_key st \<mapsto>
      new_session ''k'' ''reassemble'' 60000 1000 262144 None 0\<lparr>ms_mppe_send_key := Some [1, 2], downstream_state := Some st, key := state_key st\<rparr>)"
    by (rule mint_outcome [OF keyed_table_ok keyed_table_find, of "lab_env None start_server" "[]"])
  have w': "w' = []"
    using mint mint_run [OF keyed_table_find, of "lab_env None start_server" "[]"]
    by (auto simp: new_session_def split: option.splits)
  have run: "build_reply (lab_env None start_server) (lab_request None []) ''k'' (mk_outcome Ack None None) (keyed_table, []) =
      Some (Inr (AccessChallenge, SetItem ''State'' (AOctets st) # eap_calls None, state_key st), (t', []))"
    using challenge_reply [OF _ _ mint, of "mk_outcome Ack None None" "lab_request None []" _ st] t' w' by simp
  from challenge_correlates [OF keyed_table_ok keyed_table_find _ run, of "(''other'', 9)" None "[]" "[]"] run
  show ?thesis by auto
qed

section \<open>Identifiers toward the supplicant\<close>

lemma passthrough_relays:
  assumes "upstream_send env = send_eap net client" and "passthrough_non_tls env eap u ca ce (s, w) = Some (Inr out, (s', w'))"
  shows "\<exists>req r w1. eap_of_calls req = eap \<and> send_packet net req w = (Inr r, w1) \<and> echo_id out = None \<and>
    eap_bytes out = first_message (eap_messages (normalised r))"
proof -
  obtain reply s1 w1 s2 where sent: "send_eap net client eap u (radius_state s) ca ce (s, w) = Some (Inr reply, (s1, w1))"
    and out: "echo_id out = None" "eap_bytes out = first_message (eap_messages reply)"
    using assms(2) by (auto simp: passthrough_non_tls_def assms(1) exchange_def bindP_eq_Some_Inr prog_simps Let_def thenP_def
        split: if_splits)
  from sent show ?thesis
  proof (cases rule: send_eap_result)
    case (replied r)
    then show ?thesis
      using out by (intro exI [of _ "build_request client s eap u (radius_state s) ca ce"] exI [of _ r] exI [of _ w1]) simp
  qed simp_all
qed

text \<open>
  C4: the Identifiers toward the supplicant in reassemble mode, on either way a datagram's EAP packet
  can go and whatever the server answers. For EAP-TLS, a Request (an ACK or a fragment) is an
  EAP-TLS Request under a fresh Identifier, one above the Identifier of the Response being served,
  and an EAP-Success or EAP-Failure carries the Identifier of that Response. Any other packet goes to
  the server as it is, and what comes back is the packet of the server's reply as it is, under the
  Identifier the server gave it.
\<close>

theorem identifier_discipline:
  assumes "sound s" and "mode s \<noteq> ''passthrough''" and "upstream_send env = send_eap net client"
    and "route env eap u ca ce (s, w) = Some (Inr out, (s', w'))" and "eap_bytes out = Some b"
  shows "if 5 \<le> length eap \<and> unat (eap ! 4) = EAP_TYPE_TLS then
      \<exists>pkt. parse eap = Inr pkt \<and>
       (if action out = Accept \<or> action out = Reject
        then echo_id out = Some (eap_identifier pkt) \<and> (if 2 \<le> length b then unat (b ! 1) = eap_identifier pkt else True)
        else \<exists>p. parse b = Inr p \<and> eap_code p = eap_code_value REQUEST \<and>
          eap_identifier p = (eap_identifier pkt + 1) mod 256 \<and> eap_identifier p \<noteq> eap_identifier pkt \<and>
          echo_id out = Some (eap_identifier p))
    else echo_id out = None \<and>
      (\<exists>req r w1. eap_of_calls req = eap \<and> send_packet net req w = (Inr r, w1) \<and> eap_messages (normalised r) = [b])"
proof (cases "5 \<le> length eap \<and> unat (eap ! 4) = EAP_TYPE_TLS")
  case True
  then have run: "handle_supplicant_eap (send_eap net client) (monotonic env) eap u ca ce (s, w) = Some (Inr out, (s', w'))"
    using assms(3,4) by (simp add: route_def)
  then obtain pkt where pkt: "parse eap = Inr pkt"
    by (cases "parse eap") (auto simp: handle_supplicant_eap_def prog_simps)
  have "(eap_identifier pkt + 1) mod 256 \<noteq> eap_identifier pkt"
    using parse_ids [OF pkt] by (cases "eap_identifier pkt = 255") simp_all
  then show ?thesis
    using True pkt leg.handle_disciplined [OF assms(1,2) pkt run] assms(5)
    by (auto simp: disciplined_def terminal_to_def request_to_def split: sum.splits)
next
  case False
  then have "passthrough_non_tls env eap u ca ce (s, w) = Some (Inr out, (s', w'))"
    using assms(4) by (simp only: route_def if_False)
  then obtain req r w1 where relayed: "eap_of_calls req = eap" "send_packet net req w = (Inr r, w1)" "echo_id out = None"
    "first_message (eap_messages (normalised r)) = Some b"
    using passthrough_relays [OF assms(3)] assms(5) by metis
  moreover have "eap_messages (normalised r) = [b]"
    using relayed(4) normalised_messages [of r] by (auto simp: first_message_def)
  ultimately show ?thesis using False by (simp only: if_False) blast
qed

theorem identifier_discipline_witness:
  "\<exists>s'. route (lab_env None start_server) [2, 7, 0, 6, 13, 0] ''u'' None None (accepted_session, []) =
      Some (Inr (mk_outcome Accept (Some [3, 7, 0, 4]) (Some 7)), (s', [])) \<and>
    echo_id (mk_outcome Accept (Some [3, 7, 0, 4]) (Some 7)) = Some 7 \<and> unat ([3, 7, 0, 4 :: byte] ! 1) = 7"
proof -
  let ?env = "lab_env None start_server"
  obtain s' where "handle_supplicant_eap (start_server) lab_clock [2, 7, 0, 6, 13, 0] ''u'' None None
      (accepted_session, []) = Some (Inr (mk_outcome Accept (Some [3, 7, 0, 4]) (Some 7)), (s', []))"
    using accepted_run [of "start_server" lab_clock "''u''" None None "[]"] by blast
  then have run: "route ?env [2, 7, 0, 6, 13, 0] ''u'' None None (accepted_session, []) =
      Some (Inr (mk_outcome Accept (Some [3, 7, 0, 4]) (Some 7)), (s', []))"
    by (simp add: route_mediator [OF lab_ack_parsed])
  from identifier_discipline [OF accepted_sound _ _ run, of "constant_net (eap_reply 11 [1, 2, 0, 6, 13, 0x20])" lab_client "[3, 7, 0, 4]"] run lab_ack_parsed
  show ?thesis by (simp add: accepted_session_def EAP_TYPE_TLS_def start_server_def)
qed

section \<open>The receive loop goes on\<close>

lemma on_session_total: "(\<And>sw. m sw \<noteq> None) \<Longrightarrow> on_session k m tw \<noteq> None"
proof -
  assume m: "\<And>sw. m sw \<noteq> None"
  obtain t w where tw: "tw = (t, w)" by (cases tw)
  show "on_session k m tw \<noteq> None"
  proof (cases "sessions t k")
    case (Some s)
    obtain r s' w' where "m (s, w) = Some (r, (s', w'))" using m [of "(s, w)"] by auto
    then show ?thesis by (simp add: tw on_session_Some [OF Some])
  qed (simp add: tw on_session_def)
qed

lemma observe_total [simp]: "observe_request req (sw :: session \<times> 'a) \<noteq> None"
proof -
  have "capture_attrs req names sw \<noteq> None" for names and sw :: "session \<times> 'a"
  proof (induction names arbitrary: sw)
    case (Cons n ns)
    show ?case unfolding capture_attrs.simps by (intro total_intros Cons.IH) simp_all
  qed simp
  then show ?thesis unfolding observe_request_def by (intro total_intros) simp_all
qed

lemma add_calls_total [simp]: "add_calls env req calls cs tw \<noteq> None"
proof (induction cs arbitrary: calls tw)
  case (Cons c cs)
  have "add_call env req c calls tw \<noteq> None" unfolding add_call_def by (intro total_intros) simp_all
  then show ?case using Cons.IH by (simp only: add_calls.simps) (rule bindP_total)
qed simp

lemma mint_total [simp]: "mint_state env k tw \<noteq> None"
  unfolding mint_state_def Let_def case_prod_beta
  by (intro total_intros on_session_total) simp_all

lemma build_reply_total [simp]: "build_reply env req k out tw \<noteq> None"
  unfolding build_reply_def case_prod_beta
  by (intro total_intros on_session_total) simp_all

lemma finish_session_total [simp]: "finish_session env k tw \<noteq> None"
  unfolding finish_session_def case_prod_beta
  by (intro total_intros on_session_total) simp_all

lemma lookup_total [simp]: "lookup_session env st addr calling eap tw \<noteq> None"
  by (cases tw) (simp add: lookup_session_def Let_def split: option.split prod.split)

context upstream_leg
begin

lemma handle_datagram_returns:
  assumes "progressive send" and "upstream_send env = send"
  shows "handle_datagram env data addr tw \<noteq> None"
proof -
  have pass: "passthrough_non_tls env eap u ca ce sw \<noteq> None" for eap u ca ce sw
    unfolding passthrough_non_tls_def assms(2) Let_def by (intro total_intros) simp_all
  have route: "route env eap u ca ce sw \<noteq> None" for eap u ca ce sw
    unfolding route_def assms(2) by (intro if_total handle_returns [OF assms(1)] pass)
  have "serve_request env req parts addr tw \<noteq> None" for req parts tw
    unfolding serve_request_def case_prod_beta Let_def
    by (intro total_intros on_session_total) (simp_all add: route)
  then show ?thesis unfolding handle_datagram_def by (intro total_intros) simp_all
qed

end

lemma serve_stopped:
  assumes "\<And>d tw. handle_datagram env (fst d) (snd d) tw \<noteq> None"
  shows "serve env ds tw = None \<Longrightarrow> \<exists>pre d post tw1 tw2. ds = pre @ d # post \<and> serve env pre tw = Some tw1 \<and>
    handle_datagram env (fst d) (snd d) tw1 = Some (Inl KeyboardInterrupt, tw2)"
proof (induction ds arbitrary: tw)
  case (Cons d ds)
  obtain r tw1 where run: "handle_datagram env (fst d) (snd d) tw = Some (r, tw1)" using assms [of d tw] by auto
  show ?case
  proof (cases "r = Inl KeyboardInterrupt")
    case True
    then show ?thesis using run by (intro exI [of _ "[]"] exI [of _ d] exI [of _ ds] exI [of _ tw] exI [of _ tw1]) simp
  next
    case False
    then have "serve env ds tw1 = None" using Cons.prems run by simp
    then obtain pre d' post tw2 tw3 where "ds = pre @ d' # post" "serve env pre tw1 = Some tw2"
      "handle_datagram env (fst d') (snd d') tw2 = Some (Inl KeyboardInterrupt, tw3)"
      using Cons.IH [of tw1] by blast
    then show ?thesis
      using run False by (intro exI [of _ "d # pre"] exI [of _ d'] exI [of _ post] exI [of _ tw2] exI [of _ tw3]) simp
  qed
qed simp

text \<open>
  C22: the receive loop goes on: as long as the server's fragments carry data, no sequence of
  datagrams stops it. Each is handled to its end, and an \<open>Exception\<close> ends that datagram only. What
  stops it is the operator's interrupt while a datagram is handled, and nothing but the surroundings
  can raise that.
\<close>

theorem server_goes_on:
  assumes "progressive (send_eap net client)" and "upstream_send env = send_eap net client"
  shows "(\<exists>t' w'. serve env ds (t, w) = Some (t', w')) \<or>
    \<not> calm env \<and> (\<exists>pre d post tw tw'. ds = pre @ d # post \<and> serve env pre (t, w) = Some tw \<and>
      handle_datagram env (fst d) (snd d) tw = Some (Inl KeyboardInterrupt, tw'))"
  using serve_stopped [of env ds "(t, w)", OF leg.handle_datagram_returns [OF assms]] calm_datagram [of env]
  by (cases "serve env ds (t, w)") auto

lemma calm_serves:
  assumes "progressive (send_eap net client)" and "upstream_send env = send_eap net client" and "calm env"
  shows "\<exists>tw'. serve env ds tw = Some tw'"
  using serve_stopped [of env ds tw, OF leg.handle_datagram_returns [OF assms(1,2)]] calm_datagram [OF assms(3)]
  by (cases "serve env ds tw") auto

lemma start_progressive: "progressive (send_eap (constant_net (eap_reply 11 [1, 2, 0, 6, 13, 0x20])) client)"
proof -
  have "parse [1, 2, 0, 6, 13, 0x20] = Inr \<lparr>eap_code = 1, eap_identifier = 2, length_included = False, more_fragments = False,
         start = True, tls_message_length = None, tls_data = []\<rparr>"
    by code_simp
  then show ?thesis by (auto simp: progressive_def eap_reply_messages dest!: constant_net_reply)
qed

lemma lab_calm: "calm (lab_env st start_server)"
proof -
  have "calm_net (constant_net r)" for r :: pyrad_reply by (simp add: calm_net_def constant_net_def)
  then have "calm_leg start_server" unfolding start_server_def by (rule calm_send_eap)
  then show ?thesis by (simp add: calm_def)
qed

theorem server_goes_on_witness:
  "\<exists>t' w'. serve (lab_env None start_server) [([2, 1, 0, 5, 1], (''ap'', 1812)), ([], (''ap'', 1812))] (lab_table, []) = Some (t', w')"
  using server_goes_on [OF start_progressive, of "lab_env None start_server" lab_client] lab_calm
  by (simp add: start_server_def del: serve.simps)

end
