(* ===== verification/Downstream_Conversation.thy ===== *)
theory Downstream_Conversation
  imports Downstream_Guarantees
begin

text \<open>
  The access point's conversation over several datagrams, server and mediator together: the
  fragments of a record of the supplicant, each in an Access-Request that quotes the State of
  the last challenge.
\<close>

section \<open>Requests of a conversation\<close>

text \<open>A datagram that is admitted, carries a given EAP packet and quotes a given State.\<close>

definition quoting :: "'w server_env \<Rightarrow> bytes \<Rightarrow> bytes \<Rightarrow> bytes \<Rightarrow> bool" where
  "quoting env st d eap \<longleftrightarrow>
     (\<exists>req parts user calling called. auth_packet env d = Inr req \<and> admitted env req parts \<and> concat parts = eap \<and>
        get_str req ''User-Name'' = Inr user \<and> get_str req ''Calling-Station-Id'' = Inr calling \<and>
        get_str req ''Called-Station-Id'' = Inr called \<and> get_bytes req ''State'' = Inr (Some st) \<and>
        (\<forall>name. rq_any req name \<noteq> Some []))"

text \<open>Replies are encoded and sent without an exception.\<close>

definition lossless :: "'w server_env \<Rightarrow> bool" where
  "lossless env \<longleftrightarrow>
     (\<forall>req call. call_error env req call = None) \<and> (\<forall>req c calls. \<exists>octets. reply_packet env req c calls = Inr octets) \<and>
     (\<forall>octets addr w. fst (sendto env octets addr w) = Inr ())"

text \<open>The reply \<open>octets\<close> to a datagram is an Access-Challenge with the State and one EAP packet.\<close>

definition challenged :: "'w server_env \<Rightarrow> bytes \<Rightarrow> bytes \<Rightarrow> bytes \<Rightarrow> bytes \<Rightarrow> bool" where
  "challenged env st d eap octets \<longleftrightarrow>
     (\<exists>req. auth_packet env d = Inr req \<and>
        reply_packet env req AccessChallenge (SetItem ''State'' (AOctets st) # eap_calls (Some eap)) = Inr octets)"

text \<open>
  The reply to a fragment: an Access-Challenge with the State and an EAP-TLS ACK Request
  under the Identifier that follows the fragment's.
\<close>

definition ack_of :: "eap_tls_packet \<Rightarrow> bytes \<Rightarrow> bool" where
  "ack_of pkt ack \<longleftrightarrow>
     (\<exists>p. parse ack = Inr p \<and> is_ack p \<and> eap_code p = eap_code_value REQUEST \<and>
        eap_identifier p = (eap_identifier pkt + 1) mod 256)"

definition acknowledgement :: "'w server_env \<Rightarrow> bytes \<Rightarrow> bytes \<Rightarrow> eap_tls_packet \<Rightarrow> bytes \<Rightarrow> bool" where
  "acknowledgement env st d pkt octets \<longleftrightarrow> (\<exists>ack. challenged env st d ack octets \<and> ack_of pkt ack)"

definition deliver :: "'w server_env \<Rightarrow> bytes \<times> address \<Rightarrow> 'w \<Rightarrow> 'w" where
  "deliver env = (\<lambda>(octets, addr) w. snd (sendto env octets addr w))"

text \<open>A session in the middle of a reassembling conversation under the State \<open>st\<close>.\<close>

definition conversing :: "bytes \<Rightarrow> session \<Rightarrow> bool" where
  "conversing st s \<longleftrightarrow> downstream_state s = Some st \<and> key s = state_key st \<and> mode s \<noteq> ''passthrough'' \<and> \<not> terminal s"

lemma accumulated_simps [simp]: "accumulated None = []" "accumulated (Some b) = b"
  by (simp_all add: accumulated_def)

lemma store_twice [simp]: "store_session k s' (store_session k s t) = store_session k s' t"
  by (simp add: store_session_def)

text \<open>
  One datagram of a conversation, whatever the mediator does with it, as long as it answers
  with a packet and the conversation goes on. What the server itself notes in the session,
  before, is the authenticator and the attributes of the request (\<open>observed\<close>).
\<close>

definition observed :: "session \<Rightarrow> session \<Rightarrow> bool" where
  "observed s s1 \<longleftrightarrow> s1 = s\<lparr>last_ap_authenticator := last_ap_authenticator s1, ap_attrs := ap_attrs s1\<rparr>"

lemma observedE:
  assumes "observed s s1"
  obtains a b where "s1 = s\<lparr>last_ap_authenticator := a, ap_attrs := b\<rparr>"
  using assms unfolding observed_def by blast

lemma relayed_datagram:
  assumes lossless: "lossless env" and "quoting env st d eap" and s: "sessions t (state_key st) = Some s"
    and parsed: "parse eap = Inr pkt"
    and handled: "\<And>s1 u ca ce. observed s s1 \<Longrightarrow>
      \<exists>a b i s2 w2. handle_supplicant_eap (upstream_send env) (monotonic env) eap u ca ce (s1, w) =
          Some (Inr (mk_outcome a (Some b) i), (s2, w2)) \<and>
        (a = Ack \<or> a = Challenge) \<and> conversing st s2 \<and> Q b s2 w2"
  shows "\<exists>b s2 w2 octets. handle_datagram env d addr (t, w) =
      Some (Inr (), (store_session (state_key st) s2 t, deliver env (octets, addr) w2)) \<and>
    challenged env st d b octets \<and> conversing st s2 \<and> Q b s2 w2"
proof -
  let ?k = "state_key st"
  obtain req parts user calling called where
    req: "auth_packet env d = Inr req" "admitted env req parts" "concat parts = eap"
      "get_str req ''User-Name'' = Inr user" "get_str req ''Calling-Station-Id'' = Inr calling"
      "get_str req ''Called-Station-Id'' = Inr called" "get_bytes req ''State'' = Inr (Some st)"
      "\<And>name. rq_any req name \<noteq> Some []"
    using assms(2) unfolding quoting_def by blast
  have look: "lookup_session env (Some st) addr calling (concat parts) (t, w) = Some (Inr ?k, (t, w))"
    using s by (simp add: lookup_session_def lookup_key_def state_key_def)
  obtain a where obs: "observe_request req (s, w) =
      Some (Inr (), (s\<lparr>last_ap_authenticator := Some (rq_authenticator req), ap_attrs := a\<rparr>, w))"
    by (rule observe_ok [of req s w]) (use req(8) in simp_all)
  let ?s1 = "s\<lparr>last_ap_authenticator := Some (rq_authenticator req), ap_attrs := a\<rparr>"
  let ?u = "case user of None \<Rightarrow> [] | Some u \<Rightarrow> u"
  have "observed s ?s1" by (simp add: observed_def)
  from handled [OF this, of ?u calling called] obtain act b i s2 w2 where
    h: "handle_supplicant_eap (upstream_send env) (monotonic env) eap ?u calling called (?s1, w) =
      Some (Inr (mk_outcome act (Some b) i), (s2, w2))"
    and act: "act = Ack \<or> act = Challenge" and conv: "conversing st s2" and Q: "Q b s2 w2"
    by blast
  have routed: "route env (concat parts) ?u calling called (?s1, w) = Some (Inr (mk_outcome act (Some b) i), (s2, w2))"
    using h by (simp add: req(3) route_mediator [OF parsed])
  obtain octets where octets: "reply_packet env req AccessChallenge
      (SetItem ''State'' (AOctets st) # eap_calls (eap_bytes (mk_outcome act (Some b) i))) = Inr octets"
    using lossless unfolding lossless_def by blast
  have calls: "call_error env req call = None" for call using lossless by (simp add: lossless_def)
  have sent: "sendto env octets addr w2 = (Inr (), deliver env (octets, addr) w2)"
    using lossless unfolding lossless_def deliver_def by (simp add: prod_eq_iff del: split_paired_All)
  let ?t = "store_session ?k s2 t"
  have find: "sessions ?t ?k = Some s2" by simp
  have mint: "mint_state env ?k (?t, w2) = Some (Inr ?k, (?t, w2))"
    using mint_run [OF find, of env w2] conv by (simp add: conversing_def)
  have "handle_datagram env d addr (t, w) = Some (Inr (), (?t, deliver env (octets, addr) w2))"
    unfolding handle_admitted [OF req(1,2)]
    by (rule serve_challenge [OF req(4-7) look s obs routed _ calls mint find _ octets sent])
      (use conv act in \<open>simp_all add: conversing_def\<close>)
  moreover have "challenged env st d b octets"
    using req(1) octets unfolding challenged_def by auto
  ultimately show ?thesis using conv Q by blast
qed

text \<open>What a fragment of the supplicant changes in its session.\<close>

definition gathering :: "session \<Rightarrow> session \<Rightarrow> bool" where
  "gathering s s' \<longleftrightarrow>
     s' = s\<lparr>down_last_req_id := down_last_req_id s', up_reasm := up_reasm s', up := up s', down_next_id := down_next_id s',
           last_ap_authenticator := last_ap_authenticator s', ap_attrs := ap_attrs s'\<rparr>"

lemma gatheringE:
  assumes "gathering s s'"
  obtains i x u n a b where "s' = s\<lparr>down_last_req_id := i, up_reasm := x, up := u, down_next_id := n,
    last_ap_authenticator := a, ap_attrs := b\<rparr>"
  using assms unfolding gathering_def by blast

lemma gathering_refl [simp]: "gathering s s"
  by (simp add: gathering_def)

lemma gathering_trans:
  assumes "gathering s s1" and "gathering s1 s2"
  shows "gathering s s2"
proof -
  obtain i x u n a b where s1: "s1 = s\<lparr>down_last_req_id := i, up_reasm := x, up := u, down_next_id := n,
      last_ap_authenticator := a, ap_attrs := b\<rparr>"
    using assms(1) by (rule gatheringE)
  obtain i x u n a b where "s2 = s1\<lparr>down_last_req_id := i, up_reasm := x, up := u, down_next_id := n,
      last_ap_authenticator := a, ap_attrs := b\<rparr>"
    using assms(2) by (rule gatheringE)
  then show ?thesis by (simp add: gathering_def s1)
qed

lemma gathering_sel:
  assumes "gathering s s'"
  shows "upstream_round_trips s' = upstream_round_trips s" "down_reasm s' = down_reasm s" "down_outbox s' = down_outbox s"
    "upstream_last_eap_req_id s' = upstream_last_eap_req_id s" "upstream_fragment_size s' = upstream_fragment_size s"
    "downstream_fragment_size s' = downstream_fragment_size s" "conversing st s' = conversing st s"
proof -
  obtain i x u n a b where s': "s' = s\<lparr>down_last_req_id := i, up_reasm := x, up := u, down_next_id := n,
      last_ap_authenticator := a, ap_attrs := b\<rparr>"
    using assms by (rule gatheringE)
  show "upstream_round_trips s' = upstream_round_trips s" "down_reasm s' = down_reasm s" "down_outbox s' = down_outbox s"
    "upstream_last_eap_req_id s' = upstream_last_eap_req_id s" "upstream_fragment_size s' = upstream_fragment_size s"
    "downstream_fragment_size s' = downstream_fragment_size s" "conversing st s' = conversing st s"
    by (simp_all add: s' conversing_def terminal_def)
qed

lemma fragment_datagram:
  assumes lossless: "lossless env" and "quoting env st d eap" and s: "sessions t (state_key st) = Some s"
    and conv: "conversing st s" and "parse eap = Inr pkt" and "more_fragments pkt"
    and "admissible pkt (abs_reasm (up_reasm s)) (max_message_len (up_reasm s))"
  shows "\<exists>b s' octets. handle_datagram env d addr (t, w) =
      Some (Inr (), (store_session (state_key st) s' t, deliver env (octets, addr) w)) \<and>
    challenged env st d b octets \<and> ack_of pkt b \<and> gathering s s' \<and>
    max_message_len (up_reasm s') = max_message_len (up_reasm s) \<and> acks_generated (up s') = acks_generated (up s) + 1 \<and>
    abs_reasm (up_reasm s') = Some (accumulated (abs_reasm (up_reasm s)) @ tls_data pkt)"
proof -
  let ?Q = "\<lambda>b s' w'. w' = w \<and> ack_of pkt b \<and> gathering s s' \<and>
    max_message_len (up_reasm s') = max_message_len (up_reasm s) \<and> acks_generated (up s') = acks_generated (up s) + 1 \<and>
    abs_reasm (up_reasm s') = Some (accumulated (abs_reasm (up_reasm s)) @ tls_data pkt)"
  have "\<exists>a b i s2 w2. handle_supplicant_eap (upstream_send env) (monotonic env) eap u ca ce (s1, w) =
      Some (Inr (mk_outcome a (Some b) i), (s2, w2)) \<and> (a = Ack \<or> a = Challenge) \<and> conversing st s2 \<and> ?Q b s2 w2"
    if obs: "observed s s1" for s1 u ca ce
  proof -
    have s1: "gathering s s1" "up_reasm s1 = up_reasm s" "up s1 = up s" "mode s1 = mode s"
      using obs by (auto elim!: observedE simp: gathering_def)
    then have "mode s1 \<noteq> ''passthrough''" "admissible pkt (abs_reasm (up_reasm s1)) (max_message_len (up_reasm s1))"
      using conv assms(7) by (simp_all add: conversing_def)
    from fragment_ack_run [OF assms(5) this(1) assms(6) this(2), of "upstream_send env" "monotonic env" u ca ce w]
    obtain ack p s2 where h: "handle_supplicant_eap (upstream_send env) (monotonic env) eap u ca ce (s1, w) =
        Some (Inr (mk_outcome Ack (Some ack) (Some ((eap_identifier pkt + 1) mod 256))), (s2, w))"
      and ack: "parse ack = Inr p" "is_ack p" "eap_code p = eap_code_value REQUEST"
        "eap_identifier p = (eap_identifier pkt + 1) mod 256"
      and s2: "acks_generated (up s2) = acks_generated (up s1) + 1"
        "abs_reasm (up_reasm s2) = Some (accumulated (abs_reasm (up_reasm s1)) @ tls_data pkt)"
        "max_message_len (up_reasm s2) = max_message_len (up_reasm s1)"
      and frame: "\<exists>i r m n. s2 = s1\<lparr>down_last_req_id := i, up_reasm := r, up := m, down_next_id := n\<rparr>"
      by blast
    have "gathering s1 s2" using frame by (auto simp: gathering_def)
    then have gath: "gathering s s2" by (rule gathering_trans [OF s1(1)])
    have "ack_of pkt ack" using ack unfolding ack_of_def by blast
    then show ?thesis using h s2 gath gathering_sel(7) [OF gath] conv s1(2,3) by auto
  qed
  from relayed_datagram [OF assms(1-3,5), of w ?Q addr, OF this] show ?thesis by blast
qed

section \<open>A record in several datagrams\<close>

definition carrying :: "'w server_env \<Rightarrow> bytes \<Rightarrow> bytes \<times> address \<Rightarrow> eap_tls_packet \<Rightarrow> bool" where
  "carrying env st d pkt \<longleftrightarrow> (\<exists>eap. quoting env st (fst d) eap \<and> parse eap = Inr pkt) \<and> more_fragments pkt"

lemma fragments_run:
  assumes lossless: "lossless env" and "list_all2 (carrying env st) ds pkts"
    and "sessions t (state_key st) = Some s" and "conversing st s"
    and "int (length (accumulated (abs_reasm (up_reasm s))) + length (concat (map tls_data pkts))) \<le> max_message_len (up_reasm s)"
    and "abs_reasm (up_reasm s) = None \<longrightarrow> pkts \<noteq> [] \<longrightarrow> admissible (hd pkts) None (max_message_len (up_reasm s))"
  shows "\<exists>s' bs os. serve env ds (t, w) =
      Some (store_session (state_key st) s' t, fold (deliver env) (zip os (map snd ds)) w) \<and>
    list_all2 (\<lambda>(d, b) octets. challenged env st (fst d) b octets) (zip ds bs) os \<and> list_all2 ack_of pkts bs \<and>
    gathering s s' \<and> acks_generated (up s') = acks_generated (up s) + length ds \<and>
    max_message_len (up_reasm s') = max_message_len (up_reasm s) \<and>
    abs_reasm (up_reasm s') = (if pkts = [] then abs_reasm (up_reasm s)
      else Some (accumulated (abs_reasm (up_reasm s)) @ concat (map tls_data pkts)))"
  using assms(2-6)
proof (induction arbitrary: t s w rule: list_all2_induct)
  case Nil
  then have "store_session (state_key st) s t = t" by simp
  then show ?case using Nil by (intro exI [of _ s] exI [of _ "[]"]) simp
next
  case (Cons d ds pkt pkts)
  let ?acc = "accumulated (abs_reasm (up_reasm s))"
  obtain eap where eap: "quoting env st (fst d) eap" "parse eap = Inr pkt" "more_fragments pkt"
    using Cons.hyps(1) by (auto simp: carrying_def)
  have "admissible pkt (abs_reasm (up_reasm s)) (max_message_len (up_reasm s))"
    using Cons.prems(3,4) by (cases "abs_reasm (up_reasm s)") (auto simp: admissible_def accumulated_def)
  from fragment_datagram [OF lossless eap(1) Cons.prems(1,2) eap(2,3) this, of "snd d" w]
  obtain b s1 o1 where one: "handle_datagram env (fst d) (snd d) (t, w) =
      Some (Inr (), (store_session (state_key st) s1 t, deliver env (o1, snd d) w))"
    and ack: "challenged env st (fst d) b o1" "ack_of pkt b" and gath: "gathering s s1"
    and s1: "max_message_len (up_reasm s1) = max_message_len (up_reasm s)" "acks_generated (up s1) = acks_generated (up s) + 1"
      "abs_reasm (up_reasm s1) = Some (?acc @ tls_data pkt)"
    by blast
  have conv: "conversing st s1" using gathering_sel(7) [OF gath] Cons.prems(2) by simp
  have "\<exists>s' bs os. serve env ds (store_session (state_key st) s1 t, deliver env (o1, snd d) w) =
      Some (store_session (state_key st) s' (store_session (state_key st) s1 t), fold (deliver env) (zip os (map snd ds)) (deliver env (o1, snd d) w)) \<and>
    list_all2 (\<lambda>(d, b) octets. challenged env st (fst d) b octets) (zip ds bs) os \<and> list_all2 ack_of pkts bs \<and>
    gathering s1 s' \<and> acks_generated (up s') = acks_generated (up s1) + length ds \<and>
    max_message_len (up_reasm s') = max_message_len (up_reasm s1) \<and>
    abs_reasm (up_reasm s') = (if pkts = [] then abs_reasm (up_reasm s1)
      else Some (accumulated (abs_reasm (up_reasm s1)) @ concat (map tls_data pkts)))"
    by (rule Cons.IH) (use Cons.prems(3) s1 conv in simp_all)
  then obtain s' bs os where rest: "serve env ds (store_session (state_key st) s1 t, deliver env (o1, snd d) w) =
      Some (store_session (state_key st) s' t, fold (deliver env) (zip os (map snd ds)) (deliver env (o1, snd d) w))"
    "list_all2 (\<lambda>(d, b) octets. challenged env st (fst d) b octets) (zip ds bs) os" "list_all2 ack_of pkts bs"
    "gathering s1 s'" "acks_generated (up s') = acks_generated (up s1) + length ds"
    "max_message_len (up_reasm s') = max_message_len (up_reasm s1)"
    "abs_reasm (up_reasm s') = Some (?acc @ tls_data pkt @ concat (map tls_data pkts))"
    unfolding store_twice s1(3) by (auto split: if_splits)
  then show ?case
    using one ack s1(1,2) gathering_trans [OF gath rest(4)]
    by (intro exI [of _ s'] exI [of _ "b # bs"] exI [of _ "o1 # os"]) simp
qed

text \<open>
  A record of the supplicant on its way in, seen from the receive loop. The datagrams that
  bring its fragments but the last, each quoting the State of the last challenge, are each
  answered at once by an Access-Challenge with that State and an EAP-TLS ACK; no other session
  is touched, nothing is sent upstream, and the session has collected the octets in order.
\<close>

lemma fragments_absorbed:
  assumes "lossless env" and "list_all2 (carrying env st) ds pkts"
    and "sessions t (state_key st) = Some s" and "conversing st s" and "abs_reasm (up_reasm s) = None"
    and "int (length (concat (map tls_data pkts))) \<le> max_message_len (up_reasm s)"
    and "case pkts of [] \<Rightarrow> True | p # _ \<Rightarrow> (case declared_tml p of None \<Rightarrow> True | Some n \<Rightarrow> int n \<le> max_message_len (up_reasm s))"
  shows "\<exists>s' os. serve env ds (t, w) =
      Some (store_session (state_key st) s' t, fold (deliver env) (zip os (map snd ds)) w) \<and>
    list_all2 (\<lambda>(d, pkt). acknowledgement env st (fst d) pkt) (zip ds pkts) os \<and>
    upstream_round_trips s' = upstream_round_trips s \<and> acks_generated (up s') = acks_generated (up s) + length ds \<and>
    accumulated (abs_reasm (up_reasm s')) = concat (map tls_data pkts)"
proof -
  have "abs_reasm (up_reasm s) = None \<longrightarrow> pkts \<noteq> [] \<longrightarrow> admissible (hd pkts) None (max_message_len (up_reasm s))"
    using assms(6,7) by (cases pkts) (auto simp: admissible_def accumulated_def)
  then obtain s' bs os where run: "serve env ds (t, w) =
      Some (store_session (state_key st) s' t, fold (deliver env) (zip os (map snd ds)) w)"
    and acks: "list_all2 (\<lambda>(d, b) octets. challenged env st (fst d) b octets) (zip ds bs) os" "list_all2 ack_of pkts bs"
    and s': "gathering s s'" "acks_generated (up s') = acks_generated (up s) + length ds"
      "abs_reasm (up_reasm s') = (if pkts = [] then abs_reasm (up_reasm s)
        else Some (accumulated (abs_reasm (up_reasm s)) @ concat (map tls_data pkts)))"
    using fragments_run [OF assms(1-4), of w] assms(5,6) by auto
  have "list_all2 (\<lambda>(d, pkt). acknowledgement env st (fst d) pkt) (zip ds pkts) os"
    using acks list_all2_lengthD [OF assms(2)] unfolding acknowledgement_def
    by (fastforce simp: list_all2_conv_all_nth)
  then show ?thesis
    using run s' gathering_sel(1) [OF s'(1)] assms(5) by (intro exI [of _ s'] exI [of _ os]) auto
qed

text \<open>Two fragments, with one ACK each.\<close>

definition conversing_session :: session where
  "conversing_session = lab_session\<lparr>downstream_state := Some [7], key := state_key [7]\<rparr>"

text \<open>
  C39: nothing recognises a retransmission. When the access point sends the Access-Request of a
  fragment again, as a RADIUS client does when the answer is late, the fragment's octets are
  collected a second time, and the record that goes upstream in the end is not the one the
  supplicant sent.
\<close>

theorem retransmission_collected_twice:
  assumes "lossless env" and "carrying env st d pkt"
    and "sessions t (state_key st) = Some s" and "conversing st s" and "abs_reasm (up_reasm s) = None"
    and "admissible pkt None (max_message_len (up_reasm s))"
    and "2 * int (length (tls_data pkt)) \<le> max_message_len (up_reasm s)"
  shows "\<exists>s' w'. serve env [d, d] (t, w) = Some (store_session (state_key st) s' t, w') \<and>
    accumulated (abs_reasm (up_reasm s')) = tls_data pkt @ tls_data pkt"
proof -
  have "list_all2 (carrying env st) [d, d] [pkt, pkt]" using assms(2) by simp
  from fragments_run [OF assms(1) this assms(3,4), of w] assms(5-7)
  obtain s' bs os where "serve env [d, d] (t, w) =
      Some (store_session (state_key st) s' t, fold (deliver env) (zip os (map snd [d, d])) w)"
    "abs_reasm (up_reasm s') = Some (tls_data pkt @ tls_data pkt)"
    by (auto simp del: serve.simps)
  then show ?thesis
    by (intro exI [of _ s'] exI [of _ "fold (deliver env) (zip os (map snd [d, d])) w"]) (simp del: serve.simps)
qed

theorem retransmission_collected_twice_witness:
  "\<exists>s' w'. serve (lab_env (Some [7]) start_server) [([2, 7, 0, 7, 13, 0x40, 9], (''ap'', 1812)), ([2, 7, 0, 7, 13, 0x40, 9], (''ap'', 1812))]
      (store_session (state_key [7]) conversing_session lab_table, []) =
      Some (store_session (state_key [7]) s' (store_session (state_key [7]) conversing_session lab_table), w') \<and>
    accumulated (abs_reasm (up_reasm s')) = [9, 9]"
proof -
  let ?env = "lab_env (Some [7]) start_server"
  let ?d = "([2, 7, 0, 7, 13, 0x40, 9], (''ap'', 1812 :: nat))"
  let ?p = "\<lparr>eap_code = 2, eap_identifier = 7, length_included = False, more_fragments = True,
           start = False, tls_message_length = None, tls_data = [9]\<rparr>"
  have parsed: "parse [2, 7, 0, 7, 13, 0x40, 9] = Inr ?p" by code_simp
  have "quoting ?env [7] d d" for d by (simp add: quoting_def)
  then have carry: "carrying ?env [7] ?d ?p" using parsed by (auto simp: carrying_def)
  have lossless: "lossless ?env" by (simp add: lossless_def)
  have conv: "conversing [7] conversing_session" by (simp add: conversing_def conversing_session_def terminal_def)
  have find: "sessions (store_session (state_key [7]) conversing_session lab_table) (state_key [7]) = Some conversing_session" by simp
  have sel: "abs_reasm (up_reasm conversing_session) = None" "max_message_len (up_reasm conversing_session) = 262144"
    by (simp_all add: conversing_session_def)
  from retransmission_collected_twice [OF lossless carry find conv sel(1), of "[]"]
  show ?thesis by (simp add: sel admissible_def declared_tml_def del: serve.simps store_twice)
qed

end
