(* ===== verification/Downstream_Relay.thy ===== *)
theory Downstream_Relay
  imports Downstream_Conversation
begin

text \<open>
  The whole proxy at work on one exchange of TLS records: the datagrams of a record of the
  supplicant go in, the record reaches the server, the server's flight comes back and the
  supplicant's ACK datagrams draw it fragment by fragment. The receive loop, the session table,
  the mediator and the upstream client are composed here; the world records what the access
  point was sent and what the server was asked.
\<close>

section \<open>Surroundings\<close>

text \<open>
  The upstream client is the repository's, replies go out without an exception, and the first
  part of the world collects them.
\<close>

type_synonym sent = "(bytes \<times> address) list"

definition relaying :: "upstream_client \<Rightarrow> sent recording server_env \<Rightarrow> bool" where
  "relaying client env \<longleftrightarrow>
     upstream_send env = send_eap recording_net client \<and> lossless env \<and>
     (\<forall>octets addr v w. sendto env octets addr (v, w) = (Inr (), (v @ [(octets, addr)], w)))"

lemma deliver_relaying:
  "relaying client env \<Longrightarrow> deliver env (octets, addr) (v, w) = (v @ [(octets, addr)], w)"
  unfolding relaying_def deliver_def by simp (metis prod.collapse snd_conv)

lemma fold_deliver:
  "relaying client env \<Longrightarrow> fold (deliver env) xs (v, w) = (v @ xs, w)"
  by (induction xs arbitrary: v) (auto simp: deliver_relaying)

lemma serve_append:
  "serve env (xs @ ys) tw = (case serve env xs tw of None \<Rightarrow> None | Some tw' \<Rightarrow> serve env ys tw')"
  by (induction xs arbitrary: tw) (auto split: option.split prod.split)

section \<open>The datagram that completes a record\<close>

lemma record_datagram:
  assumes env: "relaying client env" and "quoting env st d eap" and "sessions t (state_key st) = Some s"
    and conv: "conversing st s" and pkt: "parse eap = Inr pkt" "\<not> is_ack pkt" "\<not> more_fragments pkt"
    and adm: "admissible pkt (abs_reasm (up_reasm s)) (max_message_len (up_reasm s))"
    and rec: "tls_record = accumulated (abs_reasm (up_reasm s)) @ tls_data pkt"
    and up: "fragment tls_record (upstream_fragment_size s) = Inr chunks" "upstream_fragment_size s \<le> 65000"
      "length tls_record < 256 ^ 4" "upstream_last_eap_req_id s = Some i" "i < 256"
    and replies: "length pre + 1 = length chunks" "\<forall>r \<in> set pre. proper_reply r"
    and flight: "server_flight (max_message_len (down_reasm s)) flight (r # fl) (p # qs)" "ready (down_reasm s)"
    and down: "fragment flight (downstream_fragment_size s) = Inr (c # cs)" "downstream_fragment_size s \<le> 65000"
      "length flight < 256 ^ 4"
    and srv: "int (length tls_record) \<le> max_message_len srv" "ready srv"
  shows "\<exists>b s2 w2 octets. handle_datagram env d addr (t, (v, seen, pre @ r # fl @ rest)) =
      Some (Inr (), (store_session (state_key st) s2 t, deliver env (octets, addr) w2)) \<and>
    challenged env st d b octets \<and> conversing st s2 \<and>
    (\<exists>reqs polls srv'. w2 = (v, seen @ reqs @ polls, rest) \<and>
       mapP receive (map eap_of_calls reqs) srv = Some (Inr (replicate (length pre) None @ [Some tls_record]), srv') \<and>
       list_all2 (\<lambda>q i. build_ack 2 i = Inr (eap_of_calls q)) polls (butlast (map eap_identifier (p # qs)))) \<and>
    frame_chunk 1 ((eap_identifier pkt + 1) mod 256) (length flight) (Suc (length cs)) 0 c = Inr b \<and>
    down_outbox s2 = List.enumerate 1 cs \<and> down_nchunks s2 = Some (Suc (length cs)) \<and> down_total s2 = Some (length flight) \<and>
    ready (up_reasm s2) \<and> max_message_len (up_reasm s2) = max_message_len (up_reasm s) \<and>
    ready (down_reasm s2) \<and> max_message_len (down_reasm s2) = max_message_len (down_reasm s) \<and>
    upstream_last_eap_req_id s2 = Some (eap_identifier (last (p # qs))) \<and>
    upstream_fragment_size s2 = upstream_fragment_size s \<and> downstream_fragment_size s2 = downstream_fragment_size s \<and>
    upstream_round_trips s2 = upstream_round_trips s + length chunks + length qs"
    (is "\<exists>b s2 w2 octets. _ \<and> _ \<and> _ \<and> ?Q b s2 w2")
proof (rule relayed_datagram [OF _ assms(2,3) pkt(1)])
  show "lossless env" using env by (simp add: relaying_def)
next
  fix s0 u ca ce
  let ?send = "upstream_send env" and ?clk = "monotonic env"
  let ?i = "(eap_identifier pkt + 1) mod 256"
  assume "observed s s0"
  then obtain a0 b0 where s0: "s0 = s\<lparr>last_ap_authenticator := a0, ap_attrs := b0\<rparr>" by (rule observedE)
  have send: "?send = send_eap recording_net client" using env by (simp add: relaying_def)
  have proper: "\<forall>x \<in> set (pre @ [r]). proper_reply x" and fl: "flight_reply r p" "eap_code p = 1"
    using replies(2) flight(1) by (auto simp: server_flight_def flight_reply_def)
  have h0: "mode s0 \<noteq> ''passthrough''" "admissible pkt (abs_reasm (up_reasm s0)) (max_message_len (up_reasm s0))"
    "tls_record = accumulated (abs_reasm (up_reasm s0)) @ tls_data pkt"
    "fragment tls_record (upstream_fragment_size s0) = Inr chunks" "upstream_fragment_size s0 \<le> 65000"
    "upstream_last_eap_req_id s0 = Some i" "length (pre @ [r]) = length chunks"
    using conv adm rec up replies(1) by (simp_all add: s0 conversing_def)
  obtain reqs s1 srv' x m j where
    run: "handle_supplicant_eap ?send ?clk eap u ca ce (s0, (v, seen, (pre @ [r]) @ (fl @ rest))) =
      handle_upstream_reply ?send ?clk (Some (normalised r)) u ca ce (s1, (v, seen @ reqs, fl @ rest))"
    and got: "mapP receive (map eap_of_calls reqs) srv = Some (Inr (replicate (length chunks - 1) None @ [Some tls_record]), srv')"
    and s1: "upstream_round_trips s1 = upstream_round_trips s0 + length chunks" "abs_reasm (up_reasm s1) = None"
      "max_message_len (up_reasm s1) = max_message_len (up_reasm s0)"
      "upstream_moved ((entered pkt s0)\<lparr>up_reasm := x, up := m\<rparr>) s1" "down_reasm s1 = down_reasm s0"
      "upstream_last_eap_req_id s1 = Some (next_id r j)"
    using last_fragment_forwarded [OF pkt(1) h0(1) pkt(2,3) h0(2-5) up(3) h0(6) up(5) h0(7) proper srv,
        of client ?clk u ca ce v seen "fl @ rest"] unfolding send by auto
  have d1: "server_flight (max_message_len (down_reasm s1)) flight (r # fl) (p # qs)" "ready (down_reasm s1)"
    "upstream_last_eap_req_id s1 = Some (eap_identifier p)"
    using flight s1(5,6) flight_next_id [OF fl] by (simp_all add: s0)
  obtain polls s2 where
    drained: "handle_upstream_reply ?send ?clk (Some (normalised r)) u ca ce (s1, (v, seen @ reqs, fl @ rest)) =
      deliver_record flight (s2, (v, (seen @ reqs) @ polls, rest))"
    and polls: "list_all2 (\<lambda>q i. build_ack 2 i = Inr (eap_of_calls q)) polls (butlast (map eap_identifier (p # qs)))"
    and s2: "upstream_moved s1 s2" "ready (down_reasm s2)" "max_message_len (down_reasm s2) = max_message_len (down_reasm s1)"
      "upstream_last_eap_req_id s2 = Some (eap_identifier (last (p # qs)))"
      "upstream_round_trips s2 = upstream_round_trips s1 + length qs"
    using flight_gathered [OF d1, of client ?clk u ca ce v "seen @ reqs" rest] unfolding send by blast
  note kept = upstream_moved_sel [OF upstream_moved_trans [OF s1(4) s2(1)]]
  have f2: "downstream_fragment_size s2 = downstream_fragment_size s" "down_next_id s2 = eap_identifier pkt"
    "mode s2 = mode s" "key s2 = key s" "downstream_state s2 = downstream_state s" "result s2 = result s"
    "upstream_fragment_size s2 = upstream_fragment_size s"
    using kept by (simp_all add: s0 entered_def)
  have up2: "up_reasm s2 = up_reasm s1" using upstream_moved_sel(5) [OF s2(1)] .
  obtain b where b: "frame_chunk 1 ?i (length flight) (Suc (length cs)) 0 c = Inr b"
    and first: "deliver_record flight (s2, (v, (seen @ reqs) @ polls, rest)) =
      Some (Inr (mk_outcome Challenge (Some b) (Some ?i)), (delivering flight cs ?i s2, (v, (seen @ reqs) @ polls, rest)))"
    using deliver_run [of flight s2 c cs "(v, (seen @ reqs) @ polls, rest)"] down by (auto simp: f2)
  have "handle_supplicant_eap ?send ?clk eap u ca ce (s0, (v, seen, pre @ r # fl @ rest)) =
      Some (Inr (mk_outcome Challenge (Some b) (Some ?i)), (delivering flight cs ?i s2, (v, seen @ reqs @ polls, rest)))"
    using run drained first by simp
  moreover have "conversing st (delivering flight cs ?i s2)"
    using conv by (simp add: conversing_def terminal_def f2)
  moreover have "length chunks - 1 = length pre" using replies(1) by simp
  then have "\<exists>reqs' polls' srv'. (v, seen @ reqs @ polls, rest) = (v, seen @ reqs' @ polls', rest) \<and>
      mapP receive (map eap_of_calls reqs') srv = Some (Inr (replicate (length pre) None @ [Some tls_record]), srv') \<and>
      list_all2 (\<lambda>q i. build_ack 2 i = Inr (eap_of_calls q)) polls' (butlast (map eap_identifier (p # qs)))"
    using got polls by (intro exI [of _ reqs] exI [of _ polls] exI [of _ srv']) simp
  then have "?Q b (delivering flight cs ?i s2) (v, seen @ reqs @ polls, rest)"
    using b s1 s2 by (simp add: f2 up2 ready_abs s0)
  ultimately show "\<exists>a b i s2 w2. handle_supplicant_eap ?send ?clk eap u ca ce (s0, (v, seen, pre @ r # fl @ rest)) =
      Some (Inr (mk_outcome a (Some b) i), (s2, w2)) \<and> (a = Ack \<or> a = Challenge) \<and> conversing st s2 \<and> ?Q b s2 w2"
    by blast
qed

section \<open>The ACKs that draw the flight\<close>

definition acking :: "'w server_env \<Rightarrow> bytes \<Rightarrow> bytes \<times> address \<Rightarrow> nat \<Rightarrow> bool" where
  "acking env st d i \<longleftrightarrow> (\<exists>ack. build_ack (eap_code_value RESPONSE) i = Inr ack \<and> quoting env st (fst d) ack)"

text \<open>What such an ACK changes in the session.\<close>

definition stepping :: "session \<Rightarrow> session \<Rightarrow> bool" where
  "stepping s s' \<longleftrightarrow>
     s' = s\<lparr>up := up s', down := down s', down_outbox := down_outbox s', down_next_id := down_next_id s',
           down_last_req_id := down_last_req_id s', last_ap_authenticator := last_ap_authenticator s', ap_attrs := ap_attrs s'\<rparr>"

lemma steppingE:
  assumes "stepping s s'"
  obtains a b c d e f g where "s' = s\<lparr>up := a, down := b, down_outbox := c, down_next_id := d,
    down_last_req_id := e, last_ap_authenticator := f, ap_attrs := g\<rparr>"
  using assms unfolding stepping_def by blast

lemma stepping_refl [simp]: "stepping s s"
  by (simp add: stepping_def)

lemma stepping_trans:
  assumes "stepping s s1" and "stepping s1 s2"
  shows "stepping s s2"
proof -
  obtain a b c d e f g where s1: "s1 = s\<lparr>up := a, down := b, down_outbox := c, down_next_id := d,
      down_last_req_id := e, last_ap_authenticator := f, ap_attrs := g\<rparr>"
    using assms(1) by (rule steppingE)
  obtain a b c d e f g where "s2 = s1\<lparr>up := a, down := b, down_outbox := c, down_next_id := d,
      down_last_req_id := e, last_ap_authenticator := f, ap_attrs := g\<rparr>"
    using assms(2) by (rule steppingE)
  then show ?thesis by (simp add: stepping_def s1)
qed

lemma stepping_sel:
  assumes "stepping s s'"
  shows "upstream_round_trips s' = upstream_round_trips s" "up_reasm s' = up_reasm s" "down_reasm s' = down_reasm s"
    "upstream_last_eap_req_id s' = upstream_last_eap_req_id s" "upstream_fragment_size s' = upstream_fragment_size s"
    "downstream_fragment_size s' = downstream_fragment_size s" "conversing st s' = conversing st s"
    "down_nchunks s' = down_nchunks s" "down_total s' = down_total s" "mode s' = mode s"
proof -
  obtain a b c d e f g where s': "s' = s\<lparr>up := a, down := b, down_outbox := c, down_next_id := d,
      down_last_req_id := e, last_ap_authenticator := f, ap_attrs := g\<rparr>"
    using assms by (rule steppingE)
  show "upstream_round_trips s' = upstream_round_trips s" "up_reasm s' = up_reasm s" "down_reasm s' = down_reasm s"
    "upstream_last_eap_req_id s' = upstream_last_eap_req_id s" "upstream_fragment_size s' = upstream_fragment_size s"
    "downstream_fragment_size s' = downstream_fragment_size s" "conversing st s' = conversing st s"
    "down_nchunks s' = down_nchunks s" "down_total s' = down_total s" "mode s' = mode s"
    by (simp_all add: s' conversing_def terminal_def)
qed

lemma ack_datagram:
  assumes lossless: "lossless env" and "acking env st d i" and s: "sessions t (state_key st) = Some s"
    and conv: "conversing st s" and box: "down_outbox s = List.enumerate k (c # cs)"
    "down_nchunks s = Some (k + length (c # cs))" "down_total s = Some n"
    and size: "i < 256" "length c \<le> 65000" "n < 256 ^ 4"
  shows "\<exists>b s2 octets. handle_datagram env (fst d) (snd d) (t, w) =
      Some (Inr (), (store_session (state_key st) s2 t, deliver env (octets, snd d) w)) \<and>
    challenged env st (fst d) b octets \<and> frame_chunk 1 ((i + 1) mod 256) n (k + length (c # cs)) k c = Inr b \<and>
    stepping s s2 \<and> down_outbox s2 = List.enumerate (Suc k) cs"
proof -
  obtain ack where ack: "build_ack 2 i = Inr ack" "quoting env st (fst d) ack" using assms(2) by (auto simp: acking_def)
  obtain pkt where pkt: "parse ack = Inr pkt" using parse_build_ack [of 2 i] ack(1) size(1) by auto
  let ?Q = "\<lambda>b s2 w2. w2 = w \<and> frame_chunk 1 ((i + 1) mod 256) n (k + length (c # cs)) k c = Inr b \<and>
    stepping s s2 \<and> down_outbox s2 = List.enumerate (Suc k) cs"
  have "\<exists>a b j s2 w2. handle_supplicant_eap (upstream_send env) (monotonic env) ack u ca ce (s1, w) =
      Some (Inr (mk_outcome a (Some b) j), (s2, w2)) \<and> (a = Ack \<or> a = Challenge) \<and> conversing st s2 \<and> ?Q b s2 w2"
    if obs: "observed s s1" for s1 u ca ce
  proof -
    obtain x y where s1: "s1 = s\<lparr>last_ap_authenticator := x, ap_attrs := y\<rparr>" using obs by (rule observedE)
    have h: "mode s1 \<noteq> ''passthrough''" "down_outbox s1 = List.enumerate k (c # cs)"
      "down_nchunks s1 = Some (k + length (c # cs))" "down_total s1 = Some n"
      using conv box by (simp_all add: s1 conversing_def)
    from ack_run [OF h size ack(1), of "upstream_send env" "monotonic env" u ca ce w]
    obtain p b where b: "frame_chunk 1 ((i + 1) mod 256) n (k + length (c # cs)) k c = Inr b"
      and run: "handle_supplicant_eap (upstream_send env) (monotonic env) ack u ca ce (s1, w) =
        Some (Inr (mk_outcome Challenge (Some b) (Some ((i + 1) mod 256))),
          (sent_fragment ((i + 1) mod 256) (List.enumerate (Suc k) cs) (k + length (c # cs)) (entered p s1), w))"
      by blast
    let ?s2 = "sent_fragment ((i + 1) mod 256) (List.enumerate (Suc k) cs) (k + length (c # cs)) (entered p s1)"
    have step: "stepping s ?s2" "down_outbox ?s2 = List.enumerate (Suc k) cs"
      by (simp_all add: stepping_def s1 sent_fragment_def entered_def)
    show ?thesis
      using run b step stepping_sel(7) [OF step(1), of st] conv by blast
  qed
  from relayed_datagram [OF lossless ack(2) s pkt, of w ?Q "snd d", OF this] show ?thesis by blast
qed

lemma acks_run:
  assumes lossless: "lossless env" and "list_all2 (acking env st) ds (successive i (length cs))"
    and "sessions t (state_key st) = Some s" and "conversing st s" and "down_outbox s = List.enumerate k cs"
    and "down_nchunks s = Some (k + length cs)" and "down_total s = Some n" and "i < 256"
    and "\<forall>c \<in> set cs. length c \<le> 65000" and "n < 256 ^ 4"
  shows "\<exists>s' bs os. serve env ds (t, w) =
      Some (store_session (state_key st) s' t, fold (deliver env) (zip os (map snd ds)) w) \<and>
    list_all2 (\<lambda>(d, b) octets. challenged env st (fst d) b octets) (zip ds bs) os \<and> length bs = length cs \<and>
    (\<forall>j < length cs. frame_chunk 1 (successive ((i + 1) mod 256) (length cs) ! j) n (k + length cs) (k + j) (cs ! j)
       = Inr (bs ! j)) \<and>
    stepping s s' \<and> down_outbox s' = []"
  using assms(2-10)
proof (induction cs arbitrary: ds t s w k i)
  case Nil
  then have "store_session (state_key st) s t = t" by simp
  then show ?case using Nil by (intro exI [of _ s] exI [of _ "[]"]) simp
next
  case (Cons c cs)
  obtain d ds' where ds: "ds = d # ds'" "acking env st d i" "list_all2 (acking env st) ds' (successive ((i + 1) mod 256) (length cs))"
    using Cons.prems(1) by (cases ds) auto
  have small: "length c \<le> 65000" using Cons.prems(8) by simp
  from ack_datagram [OF lossless ds(2) Cons.prems(2-7) small Cons.prems(9), of w]
  obtain b s1 o1 where one: "handle_datagram env (fst d) (snd d) (t, w) =
      Some (Inr (), (store_session (state_key st) s1 t, deliver env (o1, snd d) w))"
    and ch: "challenged env st (fst d) b o1"
    and b: "frame_chunk 1 ((i + 1) mod 256) n (k + length (c # cs)) k c = Inr b"
    and step: "stepping s s1" and box: "down_outbox s1 = List.enumerate (Suc k) cs"
    by blast
  note kept = stepping_sel [OF step]
  have "\<exists>s' bs os. serve env ds' (store_session (state_key st) s1 t, deliver env (o1, snd d) w) =
      Some (store_session (state_key st) s' (store_session (state_key st) s1 t),
        fold (deliver env) (zip os (map snd ds')) (deliver env (o1, snd d) w)) \<and>
    list_all2 (\<lambda>(d, b) octets. challenged env st (fst d) b octets) (zip ds' bs) os \<and> length bs = length cs \<and>
    (\<forall>j < length cs. frame_chunk 1 (successive (((i + 1) mod 256 + 1) mod 256) (length cs) ! j) n (Suc k + length cs) (Suc k + j) (cs ! j)
       = Inr (bs ! j)) \<and>
    stepping s1 s' \<and> down_outbox s' = []"
    by (rule Cons.IH) (use Cons.prems ds(3) kept box in simp_all)
  then obtain s' bs os where rest: "serve env ds' (store_session (state_key st) s1 t, deliver env (o1, snd d) w) =
      Some (store_session (state_key st) s' t, fold (deliver env) (zip os (map snd ds')) (deliver env (o1, snd d) w))"
    "list_all2 (\<lambda>(d, b) octets. challenged env st (fst d) b octets) (zip ds' bs) os" "length bs = length cs"
    "\<forall>j < length cs. frame_chunk 1 (successive (((i + 1) mod 256 + 1) mod 256) (length cs) ! j) n (Suc k + length cs) (Suc k + j) (cs ! j)
       = Inr (bs ! j)" "stepping s1 s'" "down_outbox s' = []"
    unfolding store_twice by blast
  have "\<forall>j < length (c # cs). frame_chunk 1 (successive ((i + 1) mod 256) (length (c # cs)) ! j) n (k + length (c # cs)) (k + j) ((c # cs) ! j)
      = Inr ((b # bs) ! j)"
    using rest(4) b by (simp add: All_less_Suc2)
  then show ?case
    using one ch rest(1-3,6) stepping_trans [OF step rest(5)]
    by (intro exI [of _ s'] exI [of _ "b # bs"] exI [of _ "o1 # os"]) (simp add: ds(1))
qed

section \<open>An exchange of records\<close>

text \<open>The datagrams that bring the fragments of one record of the supplicant, the last included.\<close>

definition bringing :: "'w server_env \<Rightarrow> bytes \<Rightarrow> bytes \<times> address \<Rightarrow> eap_tls_packet \<Rightarrow> bool" where
  "bringing env st d pkt \<longleftrightarrow> (\<exists>eap. quoting env st (fst d) eap \<and> parse eap = Inr pkt)"

definition uploads ::
  "'w server_env \<Rightarrow> bytes \<Rightarrow> int \<Rightarrow> bytes \<Rightarrow> (bytes \<times> address) list \<Rightarrow> eap_tls_packet list \<Rightarrow> bool" where
  "uploads env st limit tls_record ds pkts \<longleftrightarrow>
     list_all2 (bringing env st) ds pkts \<and> data_fragments pkts \<and> concat (map tls_data pkts) = tls_record \<and>
     int (length tls_record) \<le> limit \<and> (case declared_tml (hd pkts) of None \<Rightarrow> True | Some n \<Rightarrow> int n \<le> limit)"

text \<open>A conversation between two records: nothing pending in either direction.\<close>

definition resting :: "bytes \<Rightarrow> nat \<Rightarrow> session \<Rightarrow> bool" where
  "resting st i s \<longleftrightarrow>
     conversing st s \<and> ready (up_reasm s) \<and> ready (down_reasm s) \<and> upstream_last_eap_req_id s = Some i \<and> i < 256 \<and>
     upstream_fragment_size s \<le> 65000 \<and> downstream_fragment_size s \<le> 65000"

lemma data_fragments_split:
  assumes "data_fragments pkts"
  obtains init pkt where "pkts = init @ [pkt]" "\<not> is_ack pkt" "\<not> more_fragments pkt" "\<forall>p \<in> set init. more_fragments p"
proof -
  have ne: "pkts \<noteq> []" and all: "\<And>k. k < length pkts \<Longrightarrow> \<not> is_ack (pkts ! k) \<and> more_fragments (pkts ! k) = (k + 1 < length pkts)"
    using assms by (auto simp: data_fragments_def)
  have "\<forall>p \<in> set (butlast pkts). more_fragments p"
    using all by (auto simp: in_set_conv_nth nth_butlast)
  moreover have "\<not> is_ack (last pkts)" "\<not> more_fragments (last pkts)"
    using all [of "length pkts - 1"] ne by (auto simp: last_conv_nth)
  ultimately show ?thesis using that [of "butlast pkts" "last pkts"] ne by simp
qed

text \<open>
  The record part of an exchange: the fragments are absorbed, the last one sends the record to
  the server and brings the first piece of the flight.
\<close>

lemma record_run:
  assumes env: "relaying client env" and find: "sessions t (state_key st) = Some s" and rest: "resting st i s"
    and upl: "uploads env st (max_message_len (up_reasm s)) tls_record ds pkts"
    and flight: "server_flight (max_message_len (down_reasm s)) flight (r # fl) (p # qs)"
    and frag: "fragment tls_record (upstream_fragment_size s) = Inr chunks"
      "fragment flight (downstream_fragment_size s) = Inr (c # cs)"
    and replies: "length pre + 1 = length chunks" "\<forall>r \<in> set pre. proper_reply r"
    and len: "length tls_record < 256 ^ 4" "length flight < 256 ^ 4"
    and srv: "int (length tls_record) \<le> max_message_len srv" "ready srv"
  shows "\<exists>s2 acked b os reqs polls srv'. serve env ds (t, (v, seen, pre @ r # fl @ rst)) =
      Some (store_session (state_key st) s2 t, (v @ zip os (map snd ds), seen @ reqs @ polls, rst)) \<and>
    list_all2 (\<lambda>(d, b) octets. challenged env st (fst d) b octets) (zip ds (acked @ [b])) os \<and>
    list_all2 ack_of (butlast pkts) acked \<and>
    mapP receive (map eap_of_calls reqs) srv = Some (Inr (replicate (length pre) None @ [Some tls_record]), srv') \<and>
    list_all2 (\<lambda>q i. build_ack 2 i = Inr (eap_of_calls q)) polls (butlast (map eap_identifier (p # qs))) \<and>
    frame_chunk 1 ((eap_identifier (last pkts) + 1) mod 256) (length flight) (Suc (length cs)) 0 c = Inr b \<and>
    resting st (eap_identifier (last (p # qs))) s2 \<and> down_outbox s2 = List.enumerate 1 cs \<and>
    down_nchunks s2 = Some (Suc (length cs)) \<and> down_total s2 = Some (length flight) \<and>
    max_message_len (up_reasm s2) = max_message_len (up_reasm s) \<and>
    max_message_len (down_reasm s2) = max_message_len (down_reasm s) \<and>
    upstream_fragment_size s2 = upstream_fragment_size s \<and> downstream_fragment_size s2 = downstream_fragment_size s \<and>
    upstream_round_trips s2 = upstream_round_trips s + length chunks + length qs"
proof -
  have conv: "conversing st s" "abs_reasm (up_reasm s) = None" "ready (down_reasm s)"
    "upstream_last_eap_req_id s = Some i" "i < 256" "upstream_fragment_size s \<le> 65000" "downstream_fragment_size s \<le> 65000"
    using rest by (simp_all add: resting_def ready_abs)
  obtain init pkt where split: "pkts = init @ [pkt]" and pkt: "\<not> is_ack pkt" "\<not> more_fragments pkt"
    and more: "\<forall>p \<in> set init. more_fragments p"
    using upl by (auto simp: uploads_def elim: data_fragments_split)
  obtain ds0 d where ds: "ds = ds0 @ [d]" "list_all2 (bringing env st) ds0 init" "bringing env st d pkt"
    using upl by (auto simp: uploads_def split list_all2_append2 list_all2_Cons2)
  have carry: "list_all2 (carrying env st) ds0 init"
    using ds(2) more by (auto simp: list_all2_conv_all_nth carrying_def bringing_def)
  have cat: "concat (map tls_data init) @ tls_data pkt = tls_record" and fits: "int (length tls_record) \<le> max_message_len (up_reasm s)"
    and decl: "case declared_tml (hd pkts) of None \<Rightarrow> True | Some n \<Rightarrow> int n \<le> max_message_len (up_reasm s)"
    using upl by (simp_all add: uploads_def split)
  have adm0: "abs_reasm (up_reasm s) = None \<longrightarrow> init \<noteq> [] \<longrightarrow> admissible (hd init) None (max_message_len (up_reasm s))"
    using cat fits decl by (cases init) (auto simp: admissible_def split)
  have room: "int (length (accumulated (abs_reasm (up_reasm s))) + length (concat (map tls_data init))) \<le> max_message_len (up_reasm s)"
    using cat fits by (auto simp: conv(2))
  have lossless: "lossless env" using env by (simp add: relaying_def)
  obtain s1 acked os0 where
    run0: "serve env ds0 (t, (v, seen, pre @ r # fl @ rst)) =
      Some (store_session (state_key st) s1 t, fold (deliver env) (zip os0 (map snd ds0)) (v, seen, pre @ r # fl @ rst))"
    and ch0: "list_all2 (\<lambda>(d, b) octets. challenged env st (fst d) b octets) (zip ds0 acked) os0"
    and acks0: "list_all2 ack_of init acked" and gath: "gathering s s1"
    and max1: "max_message_len (up_reasm s1) = max_message_len (up_reasm s)"
    and "abs_reasm (up_reasm s1) = (if init = [] then abs_reasm (up_reasm s)
      else Some (accumulated (abs_reasm (up_reasm s)) @ concat (map tls_data init)))"
    using fragments_run [OF lossless carry find conv(1) room adm0, of "(v, seen, pre @ r # fl @ rst)"] by blast
  then have abs1: "abs_reasm (up_reasm s1) = (if init = [] then None else Some (concat (map tls_data init)))"
    by (simp add: conv(2))
  note kept = gathering_sel [OF gath]
  obtain eap where eap: "quoting env st (fst d) eap" "parse eap = Inr pkt" using ds(3) by (auto simp: bringing_def)
  have adm: "admissible pkt (abs_reasm (up_reasm s1)) (max_message_len (up_reasm s1))"
    using cat fits decl by (auto simp: abs1 max1 admissible_def split)
  have rec: "tls_record = accumulated (abs_reasm (up_reasm s1)) @ tls_data pkt" using cat by (auto simp: abs1)
  let ?t1 = "store_session (state_key st) s1 t" and ?v1 = "v @ zip os0 (map snd ds0)"
  have h1: "sessions ?t1 (state_key st) = Some s1" "conversing st s1" "fragment tls_record (upstream_fragment_size s1) = Inr chunks"
    "upstream_fragment_size s1 \<le> 65000" "upstream_last_eap_req_id s1 = Some i"
    "server_flight (max_message_len (down_reasm s1)) flight (r # fl) (p # qs)" "ready (down_reasm s1)"
    "fragment flight (downstream_fragment_size s1) = Inr (c # cs)" "downstream_fragment_size s1 \<le> 65000"
    using conv frag flight by (simp_all add: kept)
  obtain b s2 w2 o2 reqs polls srv' where
    one: "handle_datagram env (fst d) (snd d) (?t1, (?v1, seen, pre @ r # fl @ rst)) =
      Some (Inr (), (store_session (state_key st) s2 ?t1, deliver env (o2, snd d) w2))"
    and ch: "challenged env st (fst d) b o2" and conv2: "conversing st s2" and w2: "w2 = (?v1, seen @ reqs @ polls, rst)"
    and got: "mapP receive (map eap_of_calls reqs) srv = Some (Inr (replicate (length pre) None @ [Some tls_record]), srv')"
      "list_all2 (\<lambda>q i. build_ack 2 i = Inr (eap_of_calls q)) polls (butlast (map eap_identifier (p # qs)))"
      "frame_chunk 1 ((eap_identifier pkt + 1) mod 256) (length flight) (Suc (length cs)) 0 c = Inr b"
    and s2: "down_outbox s2 = List.enumerate 1 cs" "down_nchunks s2 = Some (Suc (length cs))" "down_total s2 = Some (length flight)"
      "ready (up_reasm s2)" "max_message_len (up_reasm s2) = max_message_len (up_reasm s1)" "ready (down_reasm s2)"
      "max_message_len (down_reasm s2) = max_message_len (down_reasm s1)"
      "upstream_last_eap_req_id s2 = Some (eap_identifier (last (p # qs)))"
      "upstream_fragment_size s2 = upstream_fragment_size s1" "downstream_fragment_size s2 = downstream_fragment_size s1"
      "upstream_round_trips s2 = upstream_round_trips s1 + length chunks + length qs"
    using record_datagram [OF env eap(1) h1(1,2) eap(2) pkt adm rec h1(3,4) len(1) h1(5) conv(5) replies h1(6-9) len(2) srv,
        of "snd d" ?v1 seen rst] by blast
  have "flight_reply (last (r # fl)) (last (p # qs))"
    using flight unfolding server_flight_def by (metis list_all2_lengthD list_all2_nthD last_conv_nth list.distinct(1) length_greater_0_conv diff_less zero_less_one)
  then have "eap_identifier (last (p # qs)) < 256" using parse_ids by (auto simp: flight_reply_def)
  then have resting2: "resting st (eap_identifier (last (p # qs))) s2"
    using s2 conv2 conv(6,7) by (simp add: resting_def kept)
  have len0: "length acked = length ds0" "length os0 = length ds0"
    using list_all2_lengthD [OF acks0] list_all2_lengthD [OF ds(2)] list_all2_lengthD [OF ch0] by simp_all
  have "serve env ds (t, (v, seen, pre @ r # fl @ rst)) =
      Some (store_session (state_key st) s2 t, (v @ zip (os0 @ [o2]) (map snd ds), seen @ reqs @ polls, rst))"
    using run0 one by (simp add: ds(1) serve_append fold_deliver [OF env] deliver_relaying [OF env] w2 len0)
  moreover have "list_all2 (\<lambda>(d, b) octets. challenged env st (fst d) b octets) (zip ds (acked @ [b])) (os0 @ [o2])"
    using ch0 ch len0 by (simp add: ds(1) list_all2_appendI)
  moreover have "list_all2 ack_of (butlast pkts) acked" "eap_identifier (last pkts) = eap_identifier pkt"
    using acks0 by (simp_all add: split)
  ultimately show ?thesis
    using got s2(1-3,5,7,9-11) resting2 max1 kept(1,2,5,6)
    by - (rule exI [of _ s2], rule exI [of _ acked], rule exI [of _ b], rule exI [of _ "os0 @ [o2]"], rule exI [of _ reqs],
      rule exI [of _ polls], rule exI [of _ srv'], intro conjI; simp)
qed

text \<open>The whole exchange, with what it leaves unchanged in the session.\<close>

lemma exchange_round_run:
  assumes "relaying client env" and "sessions t (state_key st) = Some s" and "resting st i s"
    and "uploads env st (max_message_len (up_reasm s)) tls_record ds pkts"
    and "server_flight (max_message_len (down_reasm s)) flight (r # fl) answers"
    and "fragment tls_record (upstream_fragment_size s) = Inr chunks"
    and "fragment flight (downstream_fragment_size s) = Inr pieces"
    and "length pre + 1 = length chunks" and "\<forall>r \<in> set pre. proper_reply r"
    and "list_all2 (acking env st) acks (successive ((eap_identifier (last pkts) + 1) mod 256) (length pieces - 1))"
    and "length tls_record < 256 ^ 4" and "length flight < 256 ^ 4"
    and "int (length tls_record) \<le> max_message_len srv" and "ready srv"
    and "int (length flight) \<le> max_message_len peer" and "ready peer"
  shows "\<exists>s' acked drawn os reqs polls srv' peer'.
    serve env (ds @ acks) (t, (v, seen, pre @ r # fl @ rest)) =
      Some (store_session (state_key st) s' t, (v @ zip os (map snd (ds @ acks)), seen @ reqs @ polls, rest)) \<and>
    list_all2 (\<lambda>(d, b) octets. challenged env st (fst d) b octets) (zip (ds @ acks) (acked @ drawn)) os \<and>
    list_all2 ack_of (butlast pkts) acked \<and>
    mapP receive (map eap_of_calls reqs) srv = Some (Inr (replicate (length pre) None @ [Some tls_record]), srv') \<and>
    list_all2 (\<lambda>q i. build_ack 2 i = Inr (eap_of_calls q)) polls (butlast (map eap_identifier answers)) \<and>
    mapP receive drawn peer = Some (Inr (replicate (length acks) None @ [Some flight]), peer') \<and>
    upstream_round_trips s' = upstream_round_trips s + length chunks + length fl \<and>
    resting st (eap_identifier (last answers)) s' \<and> down_outbox s' = [] \<and>
    max_message_len (up_reasm s') = max_message_len (up_reasm s) \<and>
    max_message_len (down_reasm s') = max_message_len (down_reasm s) \<and>
    upstream_fragment_size s' = upstream_fragment_size s \<and> downstream_fragment_size s' = downstream_fragment_size s"
proof -
  obtain p qs where ans: "answers = p # qs" using assms(5) by (cases answers) (auto simp: server_flight_def)
  obtain c cs where pieces: "pieces = c # cs" using fragment_nonempty [OF assms(7)] by (cases pieces) auto
  let ?i = "(eap_identifier (last pkts) + 1) mod 256"
  have small: "\<forall>x \<in> set cs. length x \<le> 65000"
    using fragment_chunk_le [OF assms(7)] assms(3) by (fastforce simp: pieces resting_def)
  obtain s2 acked b os reqs polls srv' where
    first: "serve env ds (t, (v, seen, pre @ r # fl @ rest)) =
      Some (store_session (state_key st) s2 t, (v @ zip os (map snd ds), seen @ reqs @ polls, rest))"
    and ch: "list_all2 (\<lambda>(d, b) octets. challenged env st (fst d) b octets) (zip ds (acked @ [b])) os"
    and acked: "list_all2 ack_of (butlast pkts) acked"
    and got: "mapP receive (map eap_of_calls reqs) srv = Some (Inr (replicate (length pre) None @ [Some tls_record]), srv')"
      "list_all2 (\<lambda>q i. build_ack 2 i = Inr (eap_of_calls q)) polls (butlast (map eap_identifier (p # qs)))"
    and b: "frame_chunk 1 ?i (length flight) (Suc (length cs)) 0 c = Inr b"
    and s2: "resting st (eap_identifier (last (p # qs))) s2" "down_outbox s2 = List.enumerate 1 cs"
      "down_nchunks s2 = Some (Suc (length cs))" "down_total s2 = Some (length flight)"
      "max_message_len (up_reasm s2) = max_message_len (up_reasm s)" "max_message_len (down_reasm s2) = max_message_len (down_reasm s)"
      "upstream_fragment_size s2 = upstream_fragment_size s" "downstream_fragment_size s2 = downstream_fragment_size s"
      "upstream_round_trips s2 = upstream_round_trips s + length chunks + length qs"
    using record_run [OF assms(1-4) assms(5) [unfolded ans] assms(6) assms(7) [unfolded pieces] assms(8,9,11-14), of v seen rest]
    by blast
  have h: "lossless env" "list_all2 (acking env st) acks (successive ?i (length cs))"
    "sessions (store_session (state_key st) s2 t) (state_key st) = Some s2" "conversing st s2"
    "down_nchunks s2 = Some (1 + length cs)" "?i < 256"
    using assms(1,10) s2(1,3) by (simp_all add: relaying_def resting_def pieces)
  from acks_run [OF h(1-4) s2(2) h(5) s2(4) h(6) small assms(12), of "(v @ zip os (map snd ds), seen @ reqs @ polls, rest)"]
  obtain s' bs os' where
    second: "serve env acks (store_session (state_key st) s2 t, (v @ zip os (map snd ds), seen @ reqs @ polls, rest)) =
      Some (store_session (state_key st) s' t, fold (deliver env) (zip os' (map snd acks)) (v @ zip os (map snd ds), seen @ reqs @ polls, rest))"
    and ch': "list_all2 (\<lambda>(d, b) octets. challenged env st (fst d) b octets) (zip acks bs) os'"
    and frames: "length bs = length cs" "\<forall>j < length cs. frame_chunk 1 (successive ((?i + 1) mod 256) (length cs) ! j)
      (length flight) (1 + length cs) (1 + j) (cs ! j) = Inr (bs ! j)"
    and s': "stepping s2 s'" "down_outbox s' = []"
    unfolding store_twice by blast
  note kept = stepping_sel [OF s'(1)]
  have "length ds = length pkts" "pkts \<noteq> []" "length qs = length fl"
    using assms(4,5) by (auto simp: ans server_flight_def uploads_def data_fragments_def dest!: list_all2_lengthD)
  moreover from this have "length acked + 1 = length pkts"
    using list_all2_lengthD [OF acked] by (cases pkts rule: rev_cases) simp_all
  ultimately have lens: "length acks = length cs" "length qs = length fl" "length os = length ds" "length (acked @ [b]) = length ds"
    using list_all2_lengthD [OF h(2)] list_all2_lengthD [OF ch] by simp_all
  have "\<forall>k < length (c # cs). frame_chunk 1 (successive ?i (length (c # cs)) ! k) (length flight) (length (c # cs)) k ((c # cs) ! k)
      = Inr ((b # bs) ! k)"
    using b frames(2) by (simp add: All_less_Suc2)
  then obtain peer' where peer: "mapP receive (b # bs) peer = Some (Inr (replicate (length acks) None @ [Some flight]), peer')"
    using reassemble_framed [OF assms(7) [unfolded pieces], of "successive ?i (length (c # cs))" "b # bs" 1 peer] frames(1) assms(15,16) lens(1)
    by auto
  have "serve env (ds @ acks) (t, (v, seen, pre @ r # fl @ rest)) =
      Some (store_session (state_key st) s' t, (v @ zip (os @ os') (map snd (ds @ acks)), seen @ reqs @ polls, rest))"
    using first second by (simp add: serve_append fold_deliver [OF assms(1)] lens(3))
  moreover have "list_all2 (\<lambda>(d, b) octets. challenged env st (fst d) b octets) (zip (ds @ acks) (acked @ b # bs)) (os @ os')"
    using list_all2_appendI [OF ch ch'] zip_append [of ds "acked @ [b]" acks bs] lens(4) by simp
  moreover have "resting st (eap_identifier (last (p # qs))) s'" using s2(1) by (simp add: resting_def kept)
  ultimately show ?thesis
    using acked got peer s'(2) s2(5-9) kept(1-3,5,6) lens(2)
    by - (rule exI [of _ s'], rule exI [of _ acked], rule exI [of _ "b # bs"], rule exI [of _ "os @ os'"], rule exI [of _ reqs],
      rule exI [of _ polls], rule exI [of _ srv'], rule exI [of _ peer'], intro conjI; simp add: ans)
qed

text \<open>
  C2: what the proxy is for. The access point forwards a record of the supplicant in any
  framing, one fragment to an Access-Request, and then acknowledges what it gets; the server
  answers the proxy's requests and sends a flight, again in any framing. Then the receive loop
  answers every datagram, each time with an Access-Challenge under the conversation's State:
  with an EAP-TLS ACK for the fragments but the last, then with the flight's pieces. The
  server gets the record whole, in as many requests as it has chunks of the upstream size,
  and an ACK for each fragment of its flight but the last; the supplicant, with one ACK per
  piece, gets the flight whole. Upstream, the exchange costs one round trip for each chunk of
  the record and each further fragment of the flight, whatever sizes the access point's link
  imposes. The session is at rest again, ready for the next exchange, and no other session is
  touched.
\<close>

theorem exchange_relayed:
  assumes "relaying client env" and "sessions t (state_key st) = Some s" and "resting st i s"
    and "uploads env st (max_message_len (up_reasm s)) tls_record ds pkts"
    and "server_flight (max_message_len (down_reasm s)) flight (r # fl) answers"
    and "fragment tls_record (upstream_fragment_size s) = Inr chunks"
    and "fragment flight (downstream_fragment_size s) = Inr pieces"
    and "length pre + 1 = length chunks" and "\<forall>r \<in> set pre. proper_reply r"
    and "list_all2 (acking env st) acks (successive ((eap_identifier (last pkts) + 1) mod 256) (length pieces - 1))"
    and "length tls_record < 256 ^ 4" and "length flight < 256 ^ 4"
    and "int (length tls_record) \<le> max_message_len srv" and "ready srv"
    and "int (length flight) \<le> max_message_len peer" and "ready peer"
  shows "\<exists>s' acked drawn os reqs polls srv' peer'.
    serve env (ds @ acks) (t, (v, seen, pre @ r # fl @ rest)) =
      Some (store_session (state_key st) s' t, (v @ zip os (map snd (ds @ acks)), seen @ reqs @ polls, rest)) \<and>
    list_all2 (\<lambda>(d, b) octets. challenged env st (fst d) b octets) (zip (ds @ acks) (acked @ drawn)) os \<and>
    list_all2 ack_of (butlast pkts) acked \<and>
    mapP receive (map eap_of_calls reqs) srv = Some (Inr (replicate (length pre) None @ [Some tls_record]), srv') \<and>
    list_all2 (\<lambda>q i. build_ack 2 i = Inr (eap_of_calls q)) polls (butlast (map eap_identifier answers)) \<and>
    mapP receive drawn peer = Some (Inr (replicate (length acks) None @ [Some flight]), peer') \<and>
    upstream_round_trips s' = upstream_round_trips s + length chunks + length fl \<and>
    resting st (eap_identifier (last answers)) s' \<and> down_outbox s' = []"
  using exchange_round_run [OF assms, of v seen rest] by blast

text \<open>
  Two fragments of the record \<open>[9, 4]\<close>, forwarded in two chunks of one octet; the server answers
  with the flight \<open>[10, 20]\<close> in one fragment, and the supplicant draws its two pieces.
\<close>

definition relay_env :: "sent recording server_env" where
  "relay_env =
     \<lparr>auth_packet = (\<lambda>d. Inr (lab_request (Some [7]) d)), verifier = Some (\<lambda>_. Inr True), call_error = (\<lambda>_ _. None),
      reply_packet = (\<lambda>_ c calls. Inr (word_of_nat c # eap_of_calls calls)),
      token_bytes = (\<lambda>n w. (replicate n 7, w)), monotonic = lab_clock,
      sendto = (\<lambda>octets addr w. (Inr (), (fst w @ [(octets, addr)], snd w))),
      upstream_send = send_eap recording_net lab_client, report = (\<lambda>_ w. (Inr (), w))\<rparr>"

definition relay_session :: session where
  "relay_session = conversing_session\<lparr>upstream_fragment_size := 1, downstream_fragment_size := 1, upstream_last_eap_req_id := Some 4\<rparr>"

lemma relay_env_ready: "relaying lab_client relay_env" "monotonic relay_env = lab_clock" "quoting relay_env [7] d d"
  by (auto simp: relaying_def relay_env_def lossless_def quoting_def admitted_def lab_request_def AccessRequest_def
      get_str_def get_bytes_def)

lemma relay_session_sel:
  "resting [7] 4 relay_session" "max_message_len (up_reasm relay_session) = 262144"
  "max_message_len (down_reasm relay_session) = 262144" "upstream_fragment_size relay_session = 1"
  "downstream_fragment_size relay_session = 1" "upstream_round_trips relay_session = 0"
  by (simp_all add: relay_session_def conversing_session_def resting_def conversing_def terminal_def ready_abs)

theorem exchange_relayed_witness:
  "\<exists>s' drawn os reqs srv' peer'.
    serve relay_env [([2, 6, 0, 7, 13, 0x40, 9], (''ap'', 1812)), ([2, 7, 0, 7, 13, 0, 4], (''ap'', 1812)), ([2, 8, 0, 6, 13, 0], (''ap'', 1812))]
      (store_session (state_key [7]) relay_session lab_table, ([], [], [eap_reply 11 [1, 5, 0, 6, 13, 0], eap_reply 11 [1, 6, 0, 8, 13, 0, 10, 20]])) =
      Some (store_session (state_key [7]) s' lab_table, (zip os [(''ap'', 1812), (''ap'', 1812), (''ap'', 1812)], reqs, [])) \<and>
    mapP receive (map eap_of_calls reqs) (new_reassembler 4096) = Some (Inr [None, Some [9, 4]], srv') \<and>
    mapP receive drawn (new_reassembler 4096) = Some (Inr [None, Some [10, 20]], peer') \<and>
    upstream_round_trips s' = 2"
proof -
  let ?s = relay_session
  let ?t = "store_session (state_key [7]) ?s lab_table"
  let ?ds = "[([2, 6, 0, 7, 13, 0x40, 9], (''ap'', 1812)), ([2, 7, 0, 7, 13, 0, 4], (''ap'', 1812 :: nat))]"
  let ?p = "\<lambda>i m b. \<lparr>eap_code = 2, eap_identifier = i, length_included = False, more_fragments = m,
           start = False, tls_message_length = None, tls_data = [b]\<rparr>"
  let ?a = "\<lparr>eap_code = 1, eap_identifier = 6, length_included = False, more_fragments = False,
           start = False, tls_message_length = None, tls_data = [10, 20]\<rparr>"
  have parsed: "parse [2, 6, 0, 7, 13, 0x40, 9] = Inr (?p 6 True 9)" "parse [2, 7, 0, 7, 13, 0, 4] = Inr (?p 7 False 4)"
    "parse [1, 6, 0, 8, 13, 0, 10, 20] = Inr ?a"
    by code_simp+
  have ack: "build_ack 2 8 = Inr [2, 8, 0, 6, 13, 0]"
    by (simp add: build_ack_Inr buildable_def wire_layout_def wire_length_def length_field_def be_bytes_2 build_flags_def eap_const_defs)
  have find: "sessions ?t (state_key [7]) = Some ?s" by simp
  have uploads: "uploads relay_env [7] (max_message_len (up_reasm ?s)) [9, 4] ?ds [?p 6 True 9, ?p 7 False 4]"
    using parsed relay_env_ready(3)
    by (auto simp: uploads_def bringing_def data_fragments_Cons is_ack_def declared_tml_def relay_session_sel)
  have flight: "server_flight (max_message_len (down_reasm ?s)) [10, 20] (eap_reply 11 [1, 6, 0, 8, 13, 0, 10, 20] # []) [?a]"
    using flight_eap_reply [OF _ parsed(3)]
    by (simp add: server_flight_def data_fragments_Cons is_ack_def declared_tml_def relay_session_sel)
  have chunks: "fragment [9, 4] (upstream_fragment_size ?s) = Inr [[9], [4 :: byte]]"
    "fragment [10, 20] (downstream_fragment_size ?s) = Inr [[10], [20 :: byte]]"
    by (simp_all add: relay_session_sel fragment_Inr chop.simps)
  have proper: "\<forall>r \<in> set [eap_reply 11 [1, 5, 0, 6, 13, 0]]. proper_reply r"
    by (simp add: proper_reply_def eap_reply_def AccessAccept_def)
  have acking: "list_all2 (acking relay_env [7]) [([2, 8, 0, 6, 13, 0], (''ap'', 1812))]
      (successive ((eap_identifier (last [?p 6 True 9, ?p 7 False 4]) + 1) mod 256) (length [[10], [20 :: byte]] - 1))"
    using ack relay_env_ready(3) by (simp add: acking_def)
  have room: "int (length [9, 4 :: byte]) \<le> max_message_len (new_reassembler 4096)" "ready (new_reassembler 4096)"
    "int (length [10, 20 :: byte]) \<le> max_message_len (new_reassembler 4096)"
    by (simp_all add: new_reassembler_def ready_def)
  show ?thesis
    using exchange_relayed [OF relay_env_ready(1) find relay_session_sel(1) uploads flight chunks _ proper acking _ _ room(1,2) room(3,2),
        of "[]" "[]" "[]"] by (simp add: relay_session_sel numeral_2_eq_2 del: serve.simps) blast
qed

end
