(* ===== verification/Downstream_Acceptance.thy ===== *)
theory Downstream_Acceptance
  imports Downstream_Relay
begin

text \<open>
  The end of a successful authentication, over the whole proxy: the supplicant's last ACK makes
  the mediator poll the server, the Access-Accept comes back, its keys and the EAP-Success go
  to the access point, the session is reported and leaves the table.
\<close>

section \<open>The poll that is answered by an Access-Accept\<close>

lemma restamp_octet_run:
  assumes "2 \<le> length m" and "down_last_req_id s = Some j" and "j < 256"
  shows "restamp_terminal s (Some m) = Inr (Some (take 1 m @ [word_of_nat j] @ drop 2 m))"
  using assms by (auto simp: restamp_terminal_def py_bytes_def)

lemma poll_accepted:
  assumes "mode s \<noteq> ''passthrough''" and "down_outbox s = []" and "\<not> terminal s"
    and "upstream_last_eap_req_id s = Some i" and "i < 256" and "build_ack 2 j = Inr ack" and "j < 256"
    and r: "proper_reply r" "pr_code r = AccessAccept" "eap_messages (normalised r) = [m]" "2 \<le> length m"
    and auth: "last_ap_authenticator s = Some a"
    and clk: "\<And>w. snd (clk w) = w"
  shows "\<exists>s' q. handle_supplicant_eap (send_eap recording_net client) clk ack u ca ce (s, (v, seen, r # rest)) =
      Some (Inr (mk_outcome Accept (Some (take 1 m @ [word_of_nat j] @ drop 2 m)) (Some j)), (s', (v, seen @ [q], rest))) \<and>
    build_ack 2 i = Inr (eap_of_calls q) \<and> hd q = SetAuthenticator a \<and> key s' = key s \<and> result s' = Some ''accept'' \<and>
    ms_mppe_send_key s' = key_of r ''MS-MPPE-Send-Key'' (ms_mppe_send_key s) \<and>
    ms_mppe_recv_key s' = key_of r ''MS-MPPE-Recv-Key'' (ms_mppe_recv_key s) \<and>
    upstream_round_trips s' = upstream_round_trips s + 1"
proof -
  obtain p where p: "parse ack = Inr p" "is_ack p" "eap_identifier p = j"
    using parse_build_ack [of 2 j] assms(6,7) by auto
  obtain poll where poll: "build_ack 2 i = Inr poll" using parse_build_ack [of 2 i] assms(5) by auto
  let ?s1 = "entered p s"
  let ?q = "build_request client ?s1 poll u (radius_state ?s1) ca ce"
  let ?w = "(v, seen @ [?q], rest)"
  let ?s2 = "finish ''accept'' (fst (clk ?w)) (exchanged r ?s1)"
  let ?s3 = "?s2\<lparr>pending_success := Some m\<rparr>"
  have acc: "accept (normalised r)" "\<not> reject (normalised r)"
    using r(2) by (simp_all add: normalised_def radius_code_defs)
  have id: "upstream_last_eap_req_id ?s1 = Some i" and auth1: "last_ap_authenticator ?s1 = Some a"
    using assms(4) auth by (simp_all add: entered_def)
  have last: "down_last_req_id ?s3 = Some j" using p(3) by (simp add: finish_def)
  have fin: "finish_now clk ''accept'' (exchanged r ?s1, ?w) = Some (Inr (), (?s2, ?w))"
    using clk [of ?w] by (cases "clk ?w") (simp add: finish_now_def ioP_apply bindP_def modS_apply)
  have "handle_supplicant_eap (send_eap recording_net client) clk ack u ca ce (s, (v, seen, r # rest)) =
      handle_upstream_reply (send_eap recording_net client) clk (Some (normalised r)) u ca ce (exchanged r ?s1, ?w)"
    using assms(2,3) poll r(1)
    by (auto simp: handle_reassemble [OF p(1) assms(1)] p(2) supplicant_ack_def prog_simps terminal_def
        response_id_run [OF id] bindP_exchange_recorded)
  also have "\<dots> = Some (Inr (mk_outcome Accept (Some (take 1 m @ [word_of_nat j] @ drop 2 m)) (Some j)), (?s3, ?w))"
    using fin restamp_octet_run [OF r(4) last assms(7)] last acc
    by (simp add: handle_upstream_reply_def stash_terminal_def thenP_def bindP_Some_Inr prog_assoc prog_simps first_message_def r(3)
        terminal_outcome_def)
  finally have run: "handle_supplicant_eap (send_eap recording_net client) clk ack u ca ce (s, (v, seen, r # rest)) =
      Some (Inr (mk_outcome Accept (Some (take 1 m @ [word_of_nat j] @ drop 2 m)) (Some j)), (?s3, ?w))" .
  moreover have "hd ?q = SetAuthenticator a" using auth1 by (simp add: build_request_def Let_def)
  moreover have "key ?s3 = key s" "result ?s3 = Some ''accept''"
    "ms_mppe_send_key ?s3 = key_of r ''MS-MPPE-Send-Key'' (ms_mppe_send_key s)"
    "ms_mppe_recv_key ?s3 = key_of r ''MS-MPPE-Recv-Key'' (ms_mppe_recv_key s)"
    "upstream_round_trips ?s3 = upstream_round_trips s + 1"
    using r(2) by (simp_all add: finish_def exchanged_def after_exchange_def entered_def Let_def)
  ultimately show ?thesis using poll by (intro exI [of _ ?s3] exI [of _ ?q]) simp
qed

section \<open>The datagram that ends the conversation\<close>

lemma accept_reply:
  assumes "action out = Accept" and "\<And>call. call_error env req call = None" and "sessions t k = Some s"
  shows "build_reply env req k out (t, w) =
    Some (Inr (AccessAccept, set_if_octets ''MS-MPPE-Send-Key'' (ms_mppe_send_key s) @
      set_if_octets ''MS-MPPE-Recv-Key'' (ms_mppe_recv_key s) @ eap_calls (eap_bytes out), k), (t, w))"
  using assms by (simp add: build_reply_def add_calls_ok prog_simps prog_assoc bindP_Some_Inr on_session_getS)

lemma closed_finish_session:
  assumes "sessions t k = Some s" and "terminal s" and "key s = k" and "report env (session_summary s) w = (Inr (), w')"
  shows "finish_session env k (t, w) = Some (Inr (), (drop_session k t, w'))"
  using assms
  by (auto simp: finish_session_def on_session_getS bindP_Some_Inr terminal_def thenP_def ioP_apply modS_apply)

lemma serve_final:
  assumes "get_str req ''User-Name'' = Inr user" and "get_str req ''Calling-Station-Id'' = Inr calling"
    and "get_str req ''Called-Station-Id'' = Inr called" and "get_bytes req ''State'' = Inr st"
    and "lookup_session env st addr calling (concat parts) (t, w) = Some (Inr k, (t1, w1))" and s: "sessions t1 k = Some s"
    and "observe_request req (s, w1) = Some (Inr (), (s1, w1))"
    and "route env (concat parts) (case user of None \<Rightarrow> [] | Some u \<Rightarrow> u) calling called (s1, w1) = Some (Inr out, (s2, w2))"
    and out: "action out = Accept" "\<And>call. call_error env req call = None"
    and "reply_packet env req AccessAccept (set_if_octets ''MS-MPPE-Send-Key'' (ms_mppe_send_key s2) @
      set_if_octets ''MS-MPPE-Recv-Key'' (ms_mppe_recv_key s2) @ eap_calls (eap_bytes out)) = Inr octets"
    and "sendto env octets addr w2 = (Inr (), w3)" and "terminal s2" and "key s2 = k"
    and "report env (session_summary s2) w3 = (Inr (), w4)"
  shows "serve_request env req parts addr (t, w) = Some (Inr (), (drop_session k (store_session k s2 t1), w4))"
proof -
  have handled: "on_session k (thenP (observe_request req)
      (route env (concat parts) (case user of None \<Rightarrow> [] | Some u \<Rightarrow> u) calling called)) (t1, w1) =
      Some (Inr out, (store_session k s2 t1, w2))"
    using assms(7,8) by (simp add: on_session_Some [OF s] thenP_def bindP_Some_Inr)
  have find: "sessions (store_session k s2 t1) k = Some s2" by simp
  have sent: "thenP (ioP (sendto env octets addr)) (finish_session env k) (store_session k s2 t1, w2) =
      Some (Inr (), (drop_session k (store_session k s2 t1), w4))"
    using assms(12) closed_finish_session [OF find assms(13-15)] by (simp add: thenP_def bindP_Some_Inr ioP_apply)
  show ?thesis
    unfolding serve_request_def Let_def
    using assms(1-5,11) by (simp add: prog_simps bindP_Some_Inr handled accept_reply [OF out find] sent)
qed

text \<open>The end of the conversation, with the round trips that its record states.\<close>

lemma acceptance_run:
  assumes "relaying client env" and "\<And>w. snd (monotonic env w) = w" and "\<And>smry w. fst (report env smry w) = Inr ()"
    and "sessions t (state_key st) = Some s" and "resting st i s" and "down_outbox s = []"
    and "acking env st d j" and "j < 256"
    and "proper_reply r" and "pr_code r = AccessAccept" and "eap_messages (normalised r) = [m]" and "2 \<le> length m"
  shows "\<exists>req q smry octets t'. auth_packet env (fst d) = Inr req \<and>
    handle_datagram env (fst d) (snd d) (t, (v, seen, r # rest)) =
      Some (Inr (), (t', snd (report env smry (v @ [(octets, snd d)], seen @ [q], rest)))) \<and>
    build_ack 2 i = Inr (eap_of_calls q) \<and> hd q = SetAuthenticator (rq_authenticator req) \<and>
    reply_packet env req AccessAccept
      (set_if_octets ''MS-MPPE-Send-Key'' (key_of r ''MS-MPPE-Send-Key'' (ms_mppe_send_key s)) @
       set_if_octets ''MS-MPPE-Recv-Key'' (key_of r ''MS-MPPE-Recv-Key'' (ms_mppe_recv_key s)) @
       eap_calls (Some (take 1 m @ [word_of_nat j] @ drop 2 m))) = Inr octets \<and>
    sum_result smry = Some ''accept'' \<and>
    sum_upstream_round_trips smry = upstream_round_trips s + 1 \<and> sessions t' = (sessions t)(state_key st := None)"
proof -
  let ?k = "state_key st"
  have send: "upstream_send env = send_eap recording_net client" and calls: "\<And>req call. call_error env req call = None"
    and encode: "\<And>req c calls. \<exists>octets. reply_packet env req c calls = Inr octets"
    and out: "\<And>octets addr v w. sendto env octets addr (v, w) = (Inr (), (v @ [(octets, addr)], w))"
    using assms(1) unfolding relaying_def lossless_def by auto
  have s: "conversing st s" "upstream_last_eap_req_id s = Some i" "i < 256" using assms(5) by (simp_all add: resting_def)
  obtain ack where ack: "build_ack 2 j = Inr ack" "quoting env st (fst d) ack" using assms(7) by (auto simp: acking_def)
  obtain pkt where parsed: "parse ack = Inr pkt" using parse_build_ack [of 2 j] ack(1) assms(8) by auto
  obtain req parts user calling called where
    req: "auth_packet env (fst d) = Inr req" "admitted env req parts" "concat parts = ack"
      "get_str req ''User-Name'' = Inr user" "get_str req ''Calling-Station-Id'' = Inr calling"
      "get_str req ''Called-Station-Id'' = Inr called" "get_bytes req ''State'' = Inr (Some st)"
      "\<And>name. rq_any req name \<noteq> Some []"
    using ack(2) unfolding quoting_def by blast
  let ?w = "(v, seen, r # rest)"
  have look: "lookup_session env (Some st) (snd d) calling (concat parts) (t, ?w) = Some (Inr ?k, (t, ?w))"
    using assms(4) by (simp add: lookup_session_def lookup_key_def state_key_def)
  obtain a where obs: "observe_request req (s, ?w) =
      Some (Inr (), (s\<lparr>last_ap_authenticator := Some (rq_authenticator req), ap_attrs := a\<rparr>, ?w))"
    by (rule observe_ok [of req s ?w]) (use req(8) in simp_all)
  let ?s1 = "s\<lparr>last_ap_authenticator := Some (rq_authenticator req), ap_attrs := a\<rparr>"
  let ?u = "case user of None \<Rightarrow> [] | Some u \<Rightarrow> u" and ?e = "take 1 m @ [word_of_nat j] @ drop 2 m"
  have h: "mode ?s1 \<noteq> ''passthrough''" "down_outbox ?s1 = []" "\<not> terminal ?s1" "upstream_last_eap_req_id ?s1 = Some i"
    "last_ap_authenticator ?s1 = Some (rq_authenticator req)"
    using s assms(6) by (simp_all add: conversing_def terminal_def)
  obtain s' q where
    run: "handle_supplicant_eap (send_eap recording_net client) (monotonic env) ack ?u calling called (?s1, ?w) =
      Some (Inr (mk_outcome Accept (Some ?e) (Some j)), (s', (v, seen @ [q], rest)))"
    and q: "build_ack 2 i = Inr (eap_of_calls q)" "hd q = SetAuthenticator (rq_authenticator req)"
    and s': "key s' = key ?s1" "result s' = Some ''accept''"
      "ms_mppe_send_key s' = key_of r ''MS-MPPE-Send-Key'' (ms_mppe_send_key ?s1)"
      "ms_mppe_recv_key s' = key_of r ''MS-MPPE-Recv-Key'' (ms_mppe_recv_key ?s1)"
      "upstream_round_trips s' = upstream_round_trips ?s1 + 1"
    using poll_accepted [OF h(1-4) s(3) ack(1) assms(8-12) h(5) assms(2), of client ?u calling called v seen rest] by blast
  have routed: "route env (concat parts) ?u calling called (?s1, ?w) =
      Some (Inr (mk_outcome Accept (Some ?e) (Some j)), (s', (v, seen @ [q], rest)))"
    using run by (simp add: req(3) route_mediator [OF parsed] send)
  obtain octets where octets: "reply_packet env req AccessAccept (set_if_octets ''MS-MPPE-Send-Key'' (ms_mppe_send_key s') @
      set_if_octets ''MS-MPPE-Recv-Key'' (ms_mppe_recv_key s') @ eap_calls (eap_bytes (mk_outcome Accept (Some ?e) (Some j)))) = Inr octets"
    using encode by blast
  let ?w3 = "(v @ [(octets, snd d)], seen @ [q], rest)"
  have reported: "report env (session_summary s') ?w3 = (Inr (), snd (report env (session_summary s') ?w3))"
    using assms(3) by (simp add: prod_eq_iff)
  have fin: "terminal s'" "key s' = ?k" using s(1) s'(1,2) by (simp_all add: terminal_def conversing_def)
  have "handle_datagram env (fst d) (snd d) (t, ?w) =
      Some (Inr (), (drop_session ?k (store_session ?k s' t), snd (report env (session_summary s') ?w3)))"
    unfolding handle_admitted [OF req(1,2)]
    by (rule serve_final [OF req(4-7) look assms(4) obs routed _ calls octets out fin reported]) simp
  moreover have "sessions (drop_session ?k (store_session ?k s' t)) = (sessions t)(?k := None)"
    by (simp add: drop_session_def)
  moreover have "sum_result (session_summary s') = Some ''accept''"
    "sum_upstream_round_trips (session_summary s') = upstream_round_trips s + 1"
    by (simp_all add: session_summary_def s'(2,5))
  ultimately show ?thesis
    using req(1) q octets unfolding s'(3,4)
    by - (rule exI [of _ req], rule exI [of _ q], rule exI [of _ "session_summary s'"], rule exI [of _ octets],
      rule exI [of _ "drop_session ?k (store_session ?k s' t)"], intro conjI; simp)
qed

text \<open>
  C3: the end of an authentication. When the flight is drawn, the supplicant's ACK makes the
  proxy ask the server, by an ACK under the Identifier of the server's last request and starting
  from the Request Authenticator of this very datagram. On its Access-Accept the access point gets,
  in one Access-Accept, the two keys exactly as the server sent them, and the EAP-Success under
  the Identifier the supplicant expects. Then the session is reported as accepted and is gone
  from the table; every other session is as before.
\<close>

theorem acceptance_delivered:
  assumes "relaying client env" and "\<And>w. snd (monotonic env w) = w" and "\<And>smry w. fst (report env smry w) = Inr ()"
    and "sessions t (state_key st) = Some s" and "resting st i s" and "down_outbox s = []"
    and "acking env st d j" and "j < 256"
    and "proper_reply r" and "pr_code r = AccessAccept" and "eap_messages (normalised r) = [m]" and "2 \<le> length m"
  shows "\<exists>req q smry octets t'. auth_packet env (fst d) = Inr req \<and>
    handle_datagram env (fst d) (snd d) (t, (v, seen, r # rest)) =
      Some (Inr (), (t', snd (report env smry (v @ [(octets, snd d)], seen @ [q], rest)))) \<and>
    build_ack 2 i = Inr (eap_of_calls q) \<and> hd q = SetAuthenticator (rq_authenticator req) \<and>
    reply_packet env req AccessAccept
      (set_if_octets ''MS-MPPE-Send-Key'' (key_of r ''MS-MPPE-Send-Key'' (ms_mppe_send_key s)) @
       set_if_octets ''MS-MPPE-Recv-Key'' (key_of r ''MS-MPPE-Recv-Key'' (ms_mppe_recv_key s)) @
       eap_calls (Some (take 1 m @ [word_of_nat j] @ drop 2 m))) = Inr octets \<and>
    sum_result smry = Some ''accept'' \<and>
    sum_upstream_round_trips smry = upstream_round_trips s + 1 \<and> sessions t' = (sessions t)(state_key st := None)"
  by (rule acceptance_run [OF assms])

theorem acceptance_delivered_witness:
  "\<exists>q (smry :: summary) t'. handle_datagram relay_env [2, 8, 0, 6, 13, 0] (''ap'', 1812)
      (store_session (state_key [7]) relay_session lab_table, ([], [], [eap_reply 2 [3, 5, 0, 4]])) =
      Some (Inr (), (t', ([([2, 3, 8, 0, 4], (''ap'', 1812))], [q], []))) \<and>
    build_ack 2 4 = Inr (eap_of_calls q) \<and> hd q = SetAuthenticator (replicate 16 0) \<and>
    sum_result smry = Some ''accept'' \<and> sum_upstream_round_trips smry = 1 \<and> sessions t' = Map.empty"
proof -
  let ?t = "store_session (state_key [7]) relay_session lab_table" and ?r = "eap_reply 2 [3, 5, 0, 4]"
  have ack: "build_ack 2 8 = Inr [2, 8, 0, 6, 13, 0]"
    by (simp add: build_ack_Inr buildable_def wire_layout_def wire_length_def length_field_def be_bytes_2 build_flags_def eap_const_defs)
  have clock: "snd (monotonic relay_env w) = w" for w by (simp add: relay_env_ready(2) lab_clock_def)
  have rep: "report relay_env smry w = (Inr (), w)" for smry w by (simp add: relay_env_def)
  have packet: "reply_packet relay_env req c calls = Inr (word_of_nat c # eap_of_calls calls)"
    "auth_packet relay_env b = Inr (lab_request (Some [7]) b)" for req c calls b
    by (simp_all add: relay_env_def)
  have find: "sessions ?t (state_key [7]) = Some relay_session" by simp
  have acking: "acking relay_env [7] ([2, 8, 0, 6, 13, 0], (''ap'', 1812)) 8" using ack relay_env_ready(3) by (simp add: acking_def)
  have box: "down_outbox relay_session = []" and none: "ms_mppe_send_key relay_session = None" "ms_mppe_recv_key relay_session = None"
    by (simp_all add: relay_session_def conversing_session_def lab_session_def new_session_def)
  have r: "proper_reply ?r" "pr_code ?r = AccessAccept" "eap_messages (normalised ?r) = [[3, 5, 0, 4]]" "2 \<le> length [3, 5, 0, 4 :: byte]"
    by (simp_all add: proper_reply_def eap_reply_def AccessAccept_def normalised_def concat_eap_messages_def)
  have keys: "key_of ?r ''MS-MPPE-Send-Key'' None = None" "key_of ?r ''MS-MPPE-Recv-Key'' None = None"
    by (simp_all add: eap_reply_def key_of_def)
  have empty: "(sessions lab_table)(state_key [7] := None) = Map.empty"
    by (auto simp: lab_table_def new_session_table_def)
  show ?thesis
    using acceptance_delivered [OF relay_env_ready(1) clock _ find relay_session_sel(1) box acking _ r(1-4), of "[]" "[]" "[]"]
    by (simp add: rep packet none keys empty set_if_octets_def AccessAccept_def lab_request_def relay_session_sel)
qed

end
