(* ===== verification/Downstream_Authentication.thy ===== *)
theory Downstream_Authentication
  imports Downstream_Acceptance
begin

text \<open>
  A whole authentication through the receive loop: the datagram that opens it, any number of
  exchanges of TLS records, and the ACK that fetches the Access-Accept. The parts are the runs of
  \<open>Downstream_Relay\<close> and \<open>Downstream_Acceptance\<close>; here they are joined over the session that lies
  between them.
\<close>

section \<open>The opening\<close>

text \<open>
  A datagram that is admitted, quotes no State, and carries an EAP packet that is not EAP-TLS,
  such as the EAP-Response/Identity; its session would be stored under \<open>k\<close>.
\<close>

definition greeting :: "'w server_env \<Rightarrow> bytes \<times> address \<Rightarrow> bytes \<Rightarrow> string \<Rightarrow> bool" where
  "greeting env d eap k \<longleftrightarrow>
     (\<exists>req parts user calling called. auth_packet env (fst d) = Inr req \<and> admitted env req parts \<and> concat parts = eap \<and>
        get_str req ''User-Name'' = Inr user \<and> get_str req ''Calling-Station-Id'' = Inr calling \<and>
        get_str req ''Called-Station-Id'' = Inr called \<and> get_bytes req ''State'' = Inr None \<and>
        (\<forall>name. rq_any req name \<noteq> Some []) \<and> lookup_key None (snd d) calling eap = k) \<and>
     \<not> (5 \<le> length eap \<and> unat (eap ! 4) = EAP_TYPE_TLS)"

lemma greeting_routed:
  assumes "upstream_send env = send_eap recording_net client" and "\<not> (5 \<le> length eap \<and> unat (eap ! 4) = EAP_TYPE_TLS)"
    and "flight_reply r p" and "eap_messages (normalised r) = [m]"
  shows "route env eap u ca ce (s, (v, seen, r # rest)) =
    Some (Inr (mk_outcome Challenge (Some m) None),
      (exchanged r s, (v, seen @ [build_request client s eap u (radius_state s) ca ce], rest)))"
proof -
  have "\<not> accept (normalised r)" "\<not> reject (normalised r)"
    using assms(3) by (simp_all add: flight_reply_def normalised_def radius_code_defs)
  moreover have "proper_reply r" using assms(3) by (simp add: flight_reply_def)
  ultimately show ?thesis
    unfolding route_def if_not_P [OF assms(2)]
    by (simp add: passthrough_non_tls_def assms(1) bindP_exchange_recorded first_message_def assms(4) Let_def returnP_apply)
qed

lemma greeting_run:
  assumes env: "relaying client env" and clk: "\<And>w. snd (monotonic env w) = w" and tok: "\<And>w. token_bytes env 16 w = (st, w)"
    and "greeting env d eap k" and new: "sessions t k = None" and cfg: "table_config_ok t" and "table_mode t \<noteq> ''passthrough''"
    and r: "flight_reply r p" "eap_code p = 1" "eap_messages (normalised r) = [m]"
  shows "\<exists>octets q t' s. handle_datagram env (fst d) (snd d) (t, (v, seen, r # rest)) =
      Some (Inr (), (t', (v @ [(octets, snd d)], seen @ [q], rest))) \<and>
    challenged env st (fst d) m octets \<and> eap_of_calls q = eap \<and>
    sessions t' = (sessions t)(k := None, state_key st \<mapsto> s) \<and>
    resting st (eap_identifier p) s \<and> down_outbox s = [] \<and>
    upstream_fragment_size s = table_upstream_fragment_size t \<and> downstream_fragment_size s = table_downstream_fragment_size t \<and>
    max_message_len (up_reasm s) = table_max_message_len t \<and> max_message_len (down_reasm s) = table_max_message_len t \<and>
    upstream_round_trips s = 1"
proof -
  have send: "upstream_send env = send_eap recording_net client" and calls: "\<And>req call. call_error env req call = None"
    and encode: "\<And>req c calls. \<exists>octets. reply_packet env req c calls = Inr octets"
    and out: "\<And>octets addr v w. sendto env octets addr (v, w) = (Inr (), (v @ [(octets, addr)], w))"
    using env unfolding relaying_def lossless_def by auto
  obtain req parts user calling called where
    req: "auth_packet env (fst d) = Inr req" "admitted env req parts" "concat parts = eap"
      "get_str req ''User-Name'' = Inr user" "get_str req ''Calling-Station-Id'' = Inr calling"
      "get_str req ''Called-Station-Id'' = Inr called" "get_bytes req ''State'' = Inr None"
      "\<And>name. rq_any req name \<noteq> Some []" "lookup_key None (snd d) calling eap = k"
    and other: "\<not> (5 \<le> length eap \<and> unat (eap ! 4) = EAP_TYPE_TLS)"
    using assms(4) unfolding greeting_def by blast
  let ?w = "(v, seen, r # rest)" and ?now = "fst (monotonic env (v, seen, r # rest))"
  let ?s = "new_session k (table_mode t) (table_upstream_fragment_size t) (table_downstream_fragment_size t)
    (table_max_message_len t) (Some (snd d)) ?now"
  let ?t1 = "store_session k ?s t"
  have look: "lookup_session env None (snd d) calling (concat parts) (t, ?w) = Some (Inr k, (?t1, ?w))"
    using new by (simp add: lookup_session_def req(3,9) get_or_create_def store_session_def Let_def case_prod_beta clk)
  have find: "sessions ?t1 k = Some ?s" by simp
  obtain a where obs: "observe_request req (?s, ?w) =
      Some (Inr (), (?s\<lparr>last_ap_authenticator := Some (rq_authenticator req), ap_attrs := a\<rparr>, ?w))"
    by (rule observe_ok [of req ?s ?w]) (use req(8) in simp_all)
  let ?s1 = "?s\<lparr>last_ap_authenticator := Some (rq_authenticator req), ap_attrs := a\<rparr>"
  let ?u = "case user of None \<Rightarrow> [] | Some u \<Rightarrow> u"
  let ?q = "build_request client ?s1 eap ?u (radius_state ?s1) calling called"
  let ?s2 = "exchanged r ?s1" and ?w2 = "(v, seen @ [?q], rest)"
  have routed: "route env (concat parts) ?u calling called (?s1, ?w) = Some (Inr (mk_outcome Challenge (Some m) None), (?s2, ?w2))"
    unfolding req(3) by (rule greeting_routed [OF send other r(1,3)])
  have new2: "key ?s2 = k" "downstream_state ?s2 = None" "mode ?s2 = table_mode t" "result ?s2 = None"
    "up_reasm ?s2 = new_reassembler (table_max_message_len t)" "down_reasm ?s2 = new_reassembler (table_max_message_len t)"
    "down_outbox ?s2 = []" "upstream_round_trips ?s2 = 1" "upstream_fragment_size ?s2 = table_upstream_fragment_size t"
    "downstream_fragment_size ?s2 = table_downstream_fragment_size t"
    by (simp_all add: exchanged_def after_exchange_def new_session_def Let_def)
  have msgs: "concat_eap_messages (pr_attrs r ''EAP-Message'') = [m]" using r(3) by (simp add: normalised_def)
  have parsed: "parse m = Inr p" using r(1,3) by (auto simp: flight_reply_def)
  have "upstream_last_eap_req_id ?s2 = next_request_id [m] (upstream_last_eap_req_id ?s1)"
    by (simp add: exchanged_def after_exchange_def msgs Let_def)
  moreover have "2 \<le> length m \<and> unat (m ! 0) = 1 \<and> unat (m ! 1) = eap_identifier p"
    using parsed r(2) by (auto simp: parse_def Let_def split: if_splits)
  ultimately have id: "upstream_last_eap_req_id ?s2 = Some (eap_identifier p)" by (simp add: next_request_id_def)
  let ?s3 = "?s2\<lparr>downstream_state := Some st, key := state_key st\<rparr>"
  have found2: "sessions (store_session k ?s2 ?t1) k = Some ?s2" by simp
  obtain t3 where mint: "mint_state env k (store_session k ?s2 ?t1, ?w2) = Some (Inr (state_key st), (t3, ?w2))"
    and t3: "sessions t3 = (sessions (store_session k ?s2 ?t1))(k := None, state_key st \<mapsto> ?s3)"
    using mint_run [OF found2 new2(1), of env ?w2] minted_sessions [OF found2 new2(1), of st] new2(2) tok [of ?w2] by simp
  have find3: "sessions t3 (state_key st) = Some ?s3" by (simp add: t3)
  obtain octets where octets: "reply_packet env req AccessChallenge
      (SetItem ''State'' (AOctets st) # eap_calls (eap_bytes (mk_outcome Challenge (Some m) None))) = Inr octets"
    using encode by blast
  have "\<not> terminal ?s3" using new2(4) by (simp add: terminal_def)
  then have "handle_datagram env (fst d) (snd d) (t, ?w) = Some (Inr (), (t3, (v @ [(octets, snd d)], seen @ [?q], rest)))"
    unfolding handle_admitted [OF req(1,2)]
    by (intro serve_challenge [OF req(4-7) look find obs routed _ calls mint find3 _ octets out]) simp_all
  moreover have "challenged env st (fst d) m octets" using req(1) octets by (auto simp: challenged_def)
  moreover have "sessions t3 = (sessions t)(k := None, state_key st \<mapsto> ?s3)" by (simp add: t3)
  moreover have "resting st (eap_identifier p) ?s3"
    using new2 id cfg assms(7) parse_ids [OF parsed]
    by (simp add: resting_def conversing_def terminal_def ready_def new_reassembler_def table_config_ok_def)
  ultimately show ?thesis
    using new2
    by - (rule exI [of _ octets], rule exI [of _ ?q], rule exI [of _ t3], rule exI [of _ ?s3], intro conjI;
      simp add: new_reassembler_def)
qed

section \<open>Exchanges of records\<close>

lemma mapP_length: "mapP f xs s = Some (Inr ys, s') \<Longrightarrow> length ys = length xs"
  by (induction xs arbitrary: ys s) (auto simp: bindP_eq_Some_Inr returnP_def)

text \<open>
  One exchange of TLS records: the supplicant's record with the datagrams and packets that bring
  it, the server's replies to its chunks but the last, the reply to the last and the further ones
  with the packets they carry, the flight these are the fragments of, and the supplicant's ACK
  datagrams.
\<close>

record round =
  rd_record :: bytes
  rd_datagrams :: "(bytes \<times> address) list"
  rd_packets :: "eap_tls_packet list"
  rd_replies :: "pyrad_reply list"
  rd_answers :: "pyrad_reply list"
  rd_answer_packets :: "eap_tls_packet list"
  rd_flight :: bytes
  rd_acks :: "(bytes \<times> address) list"

text \<open>With the State of the conversation, the octets the proxy collects, and the two fragment sizes.\<close>

definition playable :: "'w server_env \<Rightarrow> bytes \<Rightarrow> int \<Rightarrow> int \<Rightarrow> int \<Rightarrow> round \<Rightarrow> bool" where
  "playable env st limit up_size down_size rd \<longleftrightarrow>
     uploads env st limit (rd_record rd) (rd_datagrams rd) (rd_packets rd) \<and>
     server_flight limit (rd_flight rd) (rd_answers rd) (rd_answer_packets rd) \<and>
     (\<exists>chunks. fragment (rd_record rd) up_size = Inr chunks \<and> length (rd_replies rd) + 1 = length chunks) \<and>
     (\<exists>pieces. fragment (rd_flight rd) down_size = Inr pieces \<and>
        list_all2 (acking env st) (rd_acks rd) (successive ((eap_identifier (last (rd_packets rd)) + 1) mod 256) (length pieces - 1))) \<and>
     (\<forall>r \<in> set (rd_replies rd). proper_reply r) \<and> length (rd_record rd) < 256 ^ 4 \<and> length (rd_flight rd) < 256 ^ 4"

definition datagrams_of :: "round \<Rightarrow> (bytes \<times> address) list" where
  "datagrams_of rd = rd_datagrams rd @ rd_acks rd"

definition replies_of :: "round \<Rightarrow> pyrad_reply list" where
  "replies_of rd = rd_replies rd @ rd_answers rd"

text \<open>
  What the exchange did: the octets sent to the access point and the requests to the server.
  A fresh reassembler of the same limit reads the record out of the requests, another one the
  flight out of the challenges.
\<close>

definition played :: "'w server_env \<Rightarrow> bytes \<Rightarrow> int \<Rightarrow> round \<Rightarrow> bytes list \<times> request_call list list \<Rightarrow> bool" where
  "played env st limit rd lg \<longleftrightarrow>
     (\<exists>acked drawn reqs polls srv peer. snd lg = reqs @ polls \<and> length (fst lg) = length (datagrams_of rd) \<and>
        list_all2 (\<lambda>(d, b) octets. challenged env st (fst d) b octets) (zip (datagrams_of rd) (acked @ drawn)) (fst lg) \<and>
        list_all2 ack_of (butlast (rd_packets rd)) acked \<and>
        mapP receive (map eap_of_calls reqs) (new_reassembler limit) =
          Some (Inr (replicate (length (rd_replies rd)) None @ [Some (rd_record rd)]), srv) \<and>
        list_all2 (\<lambda>q i. build_ack 2 i = Inr (eap_of_calls q)) polls (butlast (map eap_identifier (rd_answer_packets rd))) \<and>
        mapP receive drawn (new_reassembler limit) =
          Some (Inr (replicate (length (rd_acks rd)) None @ [Some (rd_flight rd)]), peer))"

text \<open>A session at rest with nothing left to send and its limits as configured.\<close>

definition settled_at :: "bytes \<Rightarrow> nat \<Rightarrow> int \<Rightarrow> int \<Rightarrow> int \<Rightarrow> session \<Rightarrow> bool" where
  "settled_at st i limit up_size down_size s \<longleftrightarrow>
     resting st i s \<and> down_outbox s = [] \<and> max_message_len (up_reasm s) = limit \<and> max_message_len (down_reasm s) = limit \<and>
     upstream_fragment_size s = up_size \<and> downstream_fragment_size s = down_size"

lemma round_run:
  assumes env: "relaying client env" and find: "sessions t (state_key st) = Some s"
    and at: "settled_at st i limit up_size down_size s" and rd: "playable env st limit up_size down_size rd"
  shows "\<exists>s' octets reqs. serve env (datagrams_of rd) (t, (v, seen, replies_of rd @ rest)) =
      Some (store_session (state_key st) s' t, (v @ zip octets (map snd (datagrams_of rd)), seen @ reqs, rest)) \<and>
    played env st limit rd (octets, reqs) \<and>
    settled_at st (eap_identifier (last (rd_answer_packets rd))) limit up_size down_size s' \<and>
    upstream_round_trips s' = upstream_round_trips s + length (replies_of rd)"
proof -
  obtain chunks pieces where
    rd': "uploads env st limit (rd_record rd) (rd_datagrams rd) (rd_packets rd)"
      "server_flight limit (rd_flight rd) (rd_answers rd) (rd_answer_packets rd)"
      "fragment (rd_record rd) up_size = Inr chunks" "length (rd_replies rd) + 1 = length chunks"
      "fragment (rd_flight rd) down_size = Inr pieces"
      "list_all2 (acking env st) (rd_acks rd) (successive ((eap_identifier (last (rd_packets rd)) + 1) mod 256) (length pieces - 1))"
      "\<forall>r \<in> set (rd_replies rd). proper_reply r" "length (rd_record rd) < 256 ^ 4" "length (rd_flight rd) < 256 ^ 4"
    using rd unfolding playable_def by blast
  have s: "resting st i s" "max_message_len (up_reasm s) = limit" "max_message_len (down_reasm s) = limit"
    "upstream_fragment_size s = up_size" "downstream_fragment_size s = down_size"
    using at by (simp_all add: settled_at_def)
  obtain r fl where answers: "rd_answers rd = r # fl"
    using rd'(2) by (cases "rd_answers rd") (auto simp: server_flight_def data_fragments_def)
  have fits: "int (length (rd_record rd)) \<le> max_message_len (new_reassembler limit)" "ready (new_reassembler limit)"
    "int (length (rd_flight rd)) \<le> max_message_len (new_reassembler limit)"
    using rd'(1,2) by (simp_all add: uploads_def server_flight_def new_reassembler_def ready_def)
  have h: "uploads env st (max_message_len (up_reasm s)) (rd_record rd) (rd_datagrams rd) (rd_packets rd)"
    "server_flight (max_message_len (down_reasm s)) (rd_flight rd) (r # fl) (rd_answer_packets rd)"
    "fragment (rd_record rd) (upstream_fragment_size s) = Inr chunks"
    "fragment (rd_flight rd) (downstream_fragment_size s) = Inr pieces"
    using rd'(1-3,5) s(2-5) answers by simp_all
  obtain s' acked drawn os reqs polls srv' peer' where
    run: "serve env (rd_datagrams rd @ rd_acks rd) (t, (v, seen, rd_replies rd @ r # fl @ rest)) =
      Some (store_session (state_key st) s' t, (v @ zip os (map snd (rd_datagrams rd @ rd_acks rd)), seen @ reqs @ polls, rest))"
    and done1: "list_all2 (\<lambda>(d, b) octets. challenged env st (fst d) b octets) (zip (rd_datagrams rd @ rd_acks rd) (acked @ drawn)) os"
      "list_all2 ack_of (butlast (rd_packets rd)) acked"
      "mapP receive (map eap_of_calls reqs) (new_reassembler limit) =
         Some (Inr (replicate (length (rd_replies rd)) None @ [Some (rd_record rd)]), srv')"
      "list_all2 (\<lambda>q i. build_ack 2 i = Inr (eap_of_calls q)) polls (butlast (map eap_identifier (rd_answer_packets rd)))"
      "mapP receive drawn (new_reassembler limit) = Some (Inr (replicate (length (rd_acks rd)) None @ [Some (rd_flight rd)]), peer')"
    and s': "upstream_round_trips s' = upstream_round_trips s + length chunks + length fl"
      "resting st (eap_identifier (last (rd_answer_packets rd))) s'" "down_outbox s' = []"
      "max_message_len (up_reasm s') = max_message_len (up_reasm s)" "max_message_len (down_reasm s') = max_message_len (down_reasm s)"
      "upstream_fragment_size s' = upstream_fragment_size s" "downstream_fragment_size s' = downstream_fragment_size s"
    using exchange_round_run [OF env find s(1) h rd'(4,7,6,8,9) fits(1,2) fits(3,2), of v seen rest] by blast
  have lens: "length (rd_datagrams rd) = length (rd_packets rd)" "rd_packets rd \<noteq> []"
    using rd'(1) by (auto simp: uploads_def data_fragments_def dest!: list_all2_lengthD)
  have "length drawn = length (rd_acks rd) + 1" using mapP_length [OF done1(5)] by simp
  moreover have "length acked = length (rd_packets rd) - 1" using list_all2_lengthD [OF done1(2)] by simp
  ultimately have "length (acked @ drawn) = length (datagrams_of rd)"
    using lens by (cases "rd_packets rd") (simp_all add: datagrams_of_def)
  then have os: "length os = length (datagrams_of rd)"
    using list_all2_lengthD [OF done1(1)] by (simp add: datagrams_of_def)
  have "played env st limit rd (os, reqs @ polls)"
    unfolding played_def using done1 os
    by - (rule exI [of _ acked], rule exI [of _ drawn], rule exI [of _ reqs], rule exI [of _ polls], rule exI [of _ srv'],
      rule exI [of _ peer'], intro conjI; simp add: datagrams_of_def)
  moreover have "settled_at st (eap_identifier (last (rd_answer_packets rd))) limit up_size down_size s'"
    using s' s by (simp add: settled_at_def)
  moreover have "upstream_round_trips s' = upstream_round_trips s + length (replies_of rd)"
    using s'(1) rd'(4) by (simp add: replies_of_def answers)
  ultimately show ?thesis
    using run by (auto simp: datagrams_of_def replies_of_def answers)
qed

text \<open>What the access point was sent during several exchanges.\<close>

definition sent_in :: "round list \<Rightarrow> (bytes list \<times> request_call list list) list \<Rightarrow> sent" where
  "sent_in rds logs = zip (concat (map fst logs)) (map snd (concat (map datagrams_of rds)))"

lemma sent_in_simps [simp]:
  "sent_in [] [] = []"
  "length (fst lg) = length (datagrams_of rd) \<Longrightarrow>
    sent_in (rd # rds) (lg # logs) = zip (fst lg) (map snd (datagrams_of rd)) @ sent_in rds logs"
  by (simp_all add: sent_in_def)

lemma rounds_run:
  assumes env: "relaying client env"
  shows "sessions t (state_key st) = Some s \<Longrightarrow> settled_at st (eap_identifier p) limit up_size down_size s \<Longrightarrow>
    \<forall>rd \<in> set rds. playable env st limit up_size down_size rd \<Longrightarrow>
    \<exists>s' logs. serve env (concat (map datagrams_of rds)) (t, (v, seen, concat (map replies_of rds) @ rest)) =
        Some (store_session (state_key st) s' t, (v @ sent_in rds logs, seen @ concat (map snd logs), rest)) \<and>
      list_all2 (played env st limit) rds logs \<and>
      settled_at st (eap_identifier (last (p # concat (map rd_answer_packets rds)))) limit up_size down_size s' \<and>
      upstream_round_trips s' = upstream_round_trips s + length (concat (map replies_of rds))"
proof (induction rds arbitrary: t s v seen p)
  case Nil
  then show ?case by (intro exI [of _ s] exI [of _ "[]"]) simp
next
  case (Cons rd rds)
  have rd: "playable env st limit up_size down_size rd" using Cons.prems(3) by simp
  then have ne: "rd_answer_packets rd \<noteq> []" by (simp add: playable_def server_flight_def data_fragments_def)
  from round_run [OF env Cons.prems(1,2) rd, of v seen "concat (map replies_of rds) @ rest"]
  obtain s1 octets reqs where
    one: "serve env (datagrams_of rd) (t, (v, seen, replies_of rd @ concat (map replies_of rds) @ rest)) =
      Some (store_session (state_key st) s1 t, (v @ zip octets (map snd (datagrams_of rd)), seen @ reqs, concat (map replies_of rds) @ rest))"
    and played: "played env st limit rd (octets, reqs)"
    and s1: "settled_at st (eap_identifier (last (rd_answer_packets rd))) limit up_size down_size s1"
      "upstream_round_trips s1 = upstream_round_trips s + length (replies_of rd)"
    by blast
  let ?t1 = "store_session (state_key st) s1 t" and ?v1 = "v @ zip octets (map snd (datagrams_of rd))"
  have find: "sessions ?t1 (state_key st) = Some s1" by simp
  have rest: "\<forall>rd \<in> set rds. playable env st limit up_size down_size rd" using Cons.prems(3) by simp
  obtain s' logs where
    more: "serve env (concat (map datagrams_of rds)) (?t1, (?v1, seen @ reqs, concat (map replies_of rds) @ rest)) =
        Some (store_session (state_key st) s' ?t1, (?v1 @ sent_in rds logs, (seen @ reqs) @ concat (map snd logs), rest))"
      "list_all2 (played env st limit) rds logs"
      "settled_at st (eap_identifier (last (last (rd_answer_packets rd) # concat (map rd_answer_packets rds)))) limit up_size down_size s'"
      "upstream_round_trips s' = upstream_round_trips s1 + length (concat (map replies_of rds))"
    using Cons.IH [OF find s1(1) rest, of ?v1 "seen @ reqs"] by blast
  have "length octets = length (datagrams_of rd)" using played by (auto simp: played_def)
  moreover have "last (p # concat (map rd_answer_packets (rd # rds))) =
      last (last (rd_answer_packets rd) # concat (map rd_answer_packets rds))"
    using ne by simp
  ultimately show ?case
    using one more played s1(2)
    by - (rule exI [of _ s'], rule exI [of _ "(octets, reqs) # logs"], intro conjI; simp add: serve_append)
qed

section \<open>From the first datagram to the Access-Accept\<close>

text \<open>
  C1: a whole EAP-TLS authentication through the receive loop, with any number of exchanges of
  TLS records, any framing on both sides, and any content. The opening datagram creates a
  session, its EAP packet reaches the server unchanged, and the server's Start comes back in a
  challenge with a new State; every exchange brings the supplicant's record whole to the server
  and the server's flight whole to the supplicant, as \<open>played\<close> says; the last ACK fetches the
  Access-Accept, and the access point gets both keys as the server sent them and the EAP-Success
  under the Identifier of that ACK. The session is reported as accepted with the number of round
  trips that went upstream, one per reply of the server, however many datagrams the access
  point's link took; it is gone from the table, and every other session is as before.
\<close>

theorem authentication_relayed:
  assumes env: "relaying client env" and clk: "\<And>w. snd (monotonic env w) = w" and tok: "\<And>w. token_bytes env 16 w = (st, w)"
    and report: "\<And>smry w. fst (report env smry w) = Inr ()"
    and new: "greeting env d0 eap k" "sessions t k = None" "table_config_ok t" "table_mode t \<noteq> ''passthrough''"
    and "flight_reply r0 p0" and "eap_code p0 = 1" and "eap_messages (normalised r0) = [m0]"
    and rounds: "\<forall>rd \<in> set rds. playable env st (table_max_message_len t) (table_upstream_fragment_size t)
      (table_downstream_fragment_size t) rd"
    and final: "acking env st d j" "j < 256"
    and accepted: "proper_reply r" "pr_code r = AccessAccept" "eap_messages (normalised r) = [m]" "2 \<le> length m"
    and keys: "pr_attrs r ''MS-MPPE-Send-Key'' = Some (sk # sks)" "pr_attrs r ''MS-MPPE-Recv-Key'' = Some (rk # rks)"
  shows "\<exists>o0 q0 logs req q octets smry t'.
    serve env (d0 # concat (map datagrams_of rds) @ [d]) (t, (v, seen, r0 # concat (map replies_of rds) @ r # rest)) =
      Some (t', snd (report env smry (v @ (o0, snd d0) # sent_in rds logs @ [(octets, snd d)],
        seen @ q0 # concat (map snd logs) @ [q], rest))) \<and>
    challenged env st (fst d0) m0 o0 \<and> eap_of_calls q0 = eap \<and>
    list_all2 (played env st (table_max_message_len t)) rds logs \<and>
    auth_packet env (fst d) = Inr req \<and> hd q = SetAuthenticator (rq_authenticator req) \<and>
    build_ack 2 (eap_identifier (last (p0 # concat (map rd_answer_packets rds)))) = Inr (eap_of_calls q) \<and>
    reply_packet env req AccessAccept
      ([SetItem ''MS-MPPE-Send-Key'' (AOctets sk), SetItem ''MS-MPPE-Recv-Key'' (AOctets rk)] @
       eap_calls (Some (take 1 m @ [word_of_nat j] @ drop 2 m))) = Inr octets \<and>
    sum_result smry = Some ''accept'' \<and>
    sum_upstream_round_trips smry = length (r0 # concat (map replies_of rds) @ [r]) \<and>
    sessions t' = (sessions t)(state_key st := None)"
proof -
  let ?last = "eap_identifier (last (p0 # concat (map rd_answer_packets rds)))"
  let ?settled = "\<lambda>i. settled_at st i (table_max_message_len t) (table_upstream_fragment_size t) (table_downstream_fragment_size t)"
  obtain o0 q0 t1 s1 where
    first: "handle_datagram env (fst d0) (snd d0) (t, (v, seen, r0 # concat (map replies_of rds) @ r # rest)) =
      Some (Inr (), (t1, (v @ [(o0, snd d0)], seen @ [q0], concat (map replies_of rds) @ r # rest)))"
      "challenged env st (fst d0) m0 o0" "eap_of_calls q0 = eap"
    and t1: "sessions t1 = (sessions t)(k := None, state_key st \<mapsto> s1)"
    and "resting st (eap_identifier p0) s1" "down_outbox s1 = []"
      "upstream_fragment_size s1 = table_upstream_fragment_size t" "downstream_fragment_size s1 = table_downstream_fragment_size t"
      "max_message_len (up_reasm s1) = table_max_message_len t" "max_message_len (down_reasm s1) = table_max_message_len t"
      and trips1: "upstream_round_trips s1 = 1"
    using greeting_run [OF env clk tok new assms(9-11), of v seen "concat (map replies_of rds) @ r # rest"] by blast
  then have settled1: "?settled (eap_identifier p0) s1" by (simp add: settled_at_def)
  have find1: "sessions t1 (state_key st) = Some s1" by (simp add: t1)
  obtain s2 logs where
    middle: "serve env (concat (map datagrams_of rds)) (t1, (v @ [(o0, snd d0)], seen @ [q0], concat (map replies_of rds) @ r # rest)) =
        Some (store_session (state_key st) s2 t1, ((v @ [(o0, snd d0)]) @ sent_in rds logs, (seen @ [q0]) @ concat (map snd logs), r # rest))"
      "list_all2 (played env st (table_max_message_len t)) rds logs"
    and settled2: "?settled ?last s2"
    and trips2: "upstream_round_trips s2 = upstream_round_trips s1 + length (concat (map replies_of rds))"
    using rounds_run [OF env find1 settled1 rounds, of "v @ [(o0, snd d0)]" "seen @ [q0]" "r # rest"] by blast
  let ?t2 = "store_session (state_key st) s2 t1"
  have find2: "sessions ?t2 (state_key st) = Some s2" by simp
  have s2: "resting st ?last s2" "down_outbox s2 = []" using settled2 by (simp_all add: settled_at_def)
  have keyed: "key_of r ''MS-MPPE-Send-Key'' x = Some sk" "key_of r ''MS-MPPE-Recv-Key'' x = Some rk" for x
    using keys by (simp_all add: key_of_def)
  obtain req q smry octets t' where
    final: "auth_packet env (fst d) = Inr req"
      "handle_datagram env (fst d) (snd d) (?t2, ((v @ [(o0, snd d0)]) @ sent_in rds logs, (seen @ [q0]) @ concat (map snd logs), r # rest)) =
        Some (Inr (), (t', snd (report env smry (((v @ [(o0, snd d0)]) @ sent_in rds logs) @ [(octets, snd d)],
          ((seen @ [q0]) @ concat (map snd logs)) @ [q], rest))))"
      "build_ack 2 ?last = Inr (eap_of_calls q)" "hd q = SetAuthenticator (rq_authenticator req)"
      "reply_packet env req AccessAccept
        (set_if_octets ''MS-MPPE-Send-Key'' (Some sk) @ set_if_octets ''MS-MPPE-Recv-Key'' (Some rk) @
         eap_calls (Some (take 1 m @ [word_of_nat j] @ drop 2 m))) = Inr octets"
      "sum_result smry = Some ''accept''" "sum_upstream_round_trips smry = upstream_round_trips s2 + 1"
      "sessions t' = (sessions ?t2)(state_key st := None)"
    using acceptance_run [OF env clk report find2 s2 final accepted, of "(v @ [(o0, snd d0)]) @ sent_in rds logs"
        "(seen @ [q0]) @ concat (map snd logs)" rest] unfolding keyed by blast
  have "serve env (d0 # concat (map datagrams_of rds) @ [d]) (t, (v, seen, r0 # concat (map replies_of rds) @ r # rest)) =
      Some (t', snd (report env smry (v @ (o0, snd d0) # sent_in rds logs @ [(octets, snd d)],
        seen @ q0 # concat (map snd logs) @ [q], rest)))"
    using first(1) middle(1) final(2) by (simp add: serve_append)
  moreover have "sessions t' = (sessions t)(state_key st := None)"
    using new(2) by (auto simp: final(8) t1 fun_eq_iff)
  moreover have "sum_upstream_round_trips smry = length (r0 # concat (map replies_of rds) @ [r])"
    by (simp add: final(7) trips2 trips1)
  ultimately show ?thesis
    using first(2,3) middle(2) final(1,3-6)
    by - (rule exI [of _ o0], rule exI [of _ q0], rule exI [of _ logs], rule exI [of _ req], rule exI [of _ q],
      rule exI [of _ octets], rule exI [of _ smry], rule exI [of _ t'], intro conjI; simp add: set_if_octets_def)
qed

section \<open>An authentication in the lab\<close>

text \<open>
  The surroundings of \<open>relay_env\<close>, where an EAP-Response/Identity comes without a State; fragments
  of one octet on both sides; one exchange, and an Access-Accept with two keys.
\<close>

definition auth_env :: "sent recording server_env" where
  "auth_env = relay_env\<lparr>auth_packet := (\<lambda>d. Inr (lab_request (if 5 \<le> length d \<and> d ! 4 = 1 then None else Some [7]) d)),
     token_bytes := (\<lambda>n w. ([7], w))\<rparr>"

definition auth_table :: session_table where
  "auth_table = new_session_table ''reassemble'' 1 1 262144 30"

definition fragment_of :: "nat \<Rightarrow> nat \<Rightarrow> bool \<Rightarrow> bytes \<Rightarrow> eap_tls_packet" where
  "fragment_of c i mf b = \<lparr>eap_code = c, eap_identifier = i, length_included = False, more_fragments = mf,
     start = False, tls_message_length = None, tls_data = b\<rparr>"

definition auth_round :: round where
  "auth_round =
     \<lparr>rd_record = [9, 4],
      rd_datagrams = [([2, 6, 0, 7, 13, 0x40, 9], (''ap'', 1812)), ([2, 7, 0, 7, 13, 0, 4], (''ap'', 1812))],
      rd_packets = [fragment_of 2 6 True [9], fragment_of 2 7 False [4]],
      rd_replies = [eap_reply 11 [1, 5, 0, 6, 13, 0]], rd_answers = [eap_reply 11 [1, 6, 0, 8, 13, 0, 10, 20]],
      rd_answer_packets = [fragment_of 1 6 False [10, 20]], rd_flight = [10, 20],
      rd_acks = [([2, 8, 0, 6, 13, 0], (''ap'', 1812))]\<rparr>"

definition auth_accept :: pyrad_reply where
  "auth_accept = (eap_reply 2 [3, 6, 0, 4])\<lparr>pr_attrs := (pr_attrs (eap_reply 2 [3, 6, 0, 4]))
     (''MS-MPPE-Send-Key'' \<mapsto> [[1]], ''MS-MPPE-Recv-Key'' \<mapsto> [[2]])\<rparr>"

lemma auth_env_ready:
  "relaying lab_client auth_env" "snd (monotonic auth_env w) = w" "token_bytes auth_env 16 w = ([7], w)"
  "report auth_env smry w = (Inr (), w)" "reply_packet auth_env req c calls = Inr (word_of_nat c # eap_of_calls calls)"
  by (auto simp: auth_env_def relaying_def relay_env_def lossless_def lab_clock_def)

lemma auth_env_quoting: "\<not> (5 \<le> length d \<and> d ! 4 = 1) \<Longrightarrow> quoting auth_env [7] d d"
  by (auto simp: auth_env_def relay_env_def quoting_def admitted_def lab_request_def AccessRequest_def get_str_def get_bytes_def)

lemma auth_greeting: "greeting auth_env ([2, 1, 0, 5, 1], (''ap'', 1812)) [2, 1, 0, 5, 1] ''new:02-00''"
  by (auto simp: auth_env_def relay_env_def greeting_def admitted_def lab_request_def AccessRequest_def get_str_def get_bytes_def
      lookup_key_def EAP_TYPE_TLS_def)

lemma auth_ack: "i < 256 \<Longrightarrow> build_ack 2 i = Inr [2, word_of_nat i, 0, 6, 13, 0]"
  by (simp add: build_ack_Inr buildable_def wire_layout_def wire_length_def length_field_def be_bytes_2 build_flags_def eap_const_defs)

lemma auth_playable: "playable auth_env [7] 262144 1 1 auth_round"
proof -
  have parsed: "parse [2, 6, 0, 7, 13, 0x40, 9] = Inr (fragment_of 2 6 True [9])"
    "parse [2, 7, 0, 7, 13, 0, 4] = Inr (fragment_of 2 7 False [4])"
    "parse [1, 6, 0, 8, 13, 0, 10, 20] = Inr (fragment_of 1 6 False [10, 20])"
    by code_simp+
  have brought: "bringing auth_env [7] ([2, 6, 0, 7, 13, 0x40, 9], (''ap'', 1812)) (fragment_of 2 6 True [9])"
    "bringing auth_env [7] ([2, 7, 0, 7, 13, 0, 4], (''ap'', 1812)) (fragment_of 2 7 False [4])"
    unfolding bringing_def using parsed(1,2) by (auto intro!: exI auth_env_quoting)
  have "uploads auth_env [7] 262144 (rd_record auth_round) (rd_datagrams auth_round) (rd_packets auth_round)"
    using brought by (simp add: auth_round_def uploads_def data_fragments_Cons is_ack_def declared_tml_def fragment_of_def)
  moreover have "server_flight 262144 (rd_flight auth_round) (rd_answers auth_round) (rd_answer_packets auth_round)"
    using flight_eap_reply [OF _ parsed(3)]
    by (simp add: auth_round_def server_flight_def data_fragments_Cons is_ack_def declared_tml_def fragment_of_def)
  moreover have "fragment (rd_record auth_round) 1 = Inr [[9], [4]]" "fragment (rd_flight auth_round) 1 = Inr [[10], [20]]"
    by (simp_all add: auth_round_def fragment_Inr chop.simps)
  moreover have "list_all2 (acking auth_env [7]) (rd_acks auth_round)
      (successive ((eap_identifier (last (rd_packets auth_round)) + 1) mod 256) (length [[10], [20 :: byte]] - 1))"
    using auth_ack [of 8] auth_env_quoting by (simp add: auth_round_def acking_def fragment_of_def)
  ultimately show ?thesis
    by (auto simp: playable_def auth_round_def proper_reply_def eap_reply_def AccessAccept_def)
qed

theorem authentication_relayed_witness:
  "\<exists>t sends reqs (smry :: summary).
    serve auth_env (([2, 1, 0, 5, 1], (''ap'', 1812)) # concat (map datagrams_of [auth_round]) @ [([2, 9, 0, 6, 13, 0], (''ap'', 1812))])
      (auth_table, ([], [], eap_reply 11 [1, 2, 0, 6, 13, 0x20] # concat (map replies_of [auth_round]) @ auth_accept # [])) =
      Some (t, (sends @ [([2, 3, 9, 0, 4], (''ap'', 1812))], reqs, [])) \<and>
    sum_result smry = Some ''accept'' \<and> sum_upstream_round_trips smry = 4 \<and> sessions t = Map.empty"
proof -
  have table: "sessions auth_table ''new:02-00'' = None" "table_config_ok auth_table" "table_mode auth_table \<noteq> ''passthrough''"
    "sessions auth_table = Map.empty"
    by (simp_all add: auth_table_def new_session_table_def table_config_ok_def)
  have parsed: "parse [1, 2, 0, 6, 13, 0x20] = Inr ((fragment_of 1 2 False [])\<lparr>start := True\<rparr>)" by code_simp
  have hello: "flight_reply (eap_reply 11 [1, 2, 0, 6, 13, 0x20]) ((fragment_of 1 2 False [])\<lparr>start := True\<rparr>)"
    "eap_code ((fragment_of 1 2 False [])\<lparr>start := True\<rparr>) = 1"
    "eap_messages (normalised (eap_reply 11 [1, 2, 0, 6, 13, 0x20])) = [[1, 2, 0, 6, 13, 0x20]]"
    using flight_eap_reply [OF _ parsed] eap_reply_messages by (simp_all add: fragment_of_def)
  have rounds: "\<forall>rd \<in> set [auth_round]. playable auth_env [7] (table_max_message_len auth_table)
      (table_upstream_fragment_size auth_table) (table_downstream_fragment_size auth_table) rd"
    using auth_playable by (simp add: auth_table_def new_session_table_def)
  have final: "acking auth_env [7] ([2, 9, 0, 6, 13, 0], (''ap'', 1812)) 9"
    using auth_ack [of 9] auth_env_quoting by (simp add: acking_def)
  have accept: "proper_reply auth_accept" "pr_code auth_accept = AccessAccept" "eap_messages (normalised auth_accept) = [[3, 6, 0, 4]]"
    "pr_attrs auth_accept ''MS-MPPE-Send-Key'' = Some [[1]]" "pr_attrs auth_accept ''MS-MPPE-Recv-Key'' = Some [[2]]"
    by (simp_all add: auth_accept_def eap_reply_def proper_reply_def AccessAccept_def normalised_def concat_eap_messages_def)
  have fin: "fst (report auth_env smry w) = Inr ()" "snd (report auth_env smry w) = w" for smry w
    by (simp_all add: auth_env_ready(4))
  have replies: "length (replies_of auth_round) = 2" by (simp add: replies_of_def auth_round_def)
  have two: "2 \<le> length [3, 6, 0, 4 :: byte]" and nine: "(9 :: nat) < 256" by simp_all
  obtain o0 q0 logs req q octets smry t' where
    run: "serve auth_env (([2, 1, 0, 5, 1], (''ap'', 1812)) # concat (map datagrams_of [auth_round]) @ [([2, 9, 0, 6, 13, 0], (''ap'', 1812))])
      (auth_table, ([], [], eap_reply 11 [1, 2, 0, 6, 13, 0x20] # concat (map replies_of [auth_round]) @ auth_accept # [])) =
      Some (t', snd (report auth_env smry ([] @ (o0, snd ([2, 1, 0, 5, 1 :: byte], (''ap'', 1812))) # sent_in [auth_round] logs @
        [(octets, snd ([2, 9, 0, 6, 13, 0 :: byte], (''ap'', 1812)))], [] @ q0 # concat (map snd logs) @ [q], [])))"
    and reply: "reply_packet auth_env req AccessAccept ([SetItem ''MS-MPPE-Send-Key'' (AOctets [1]), SetItem ''MS-MPPE-Recv-Key'' (AOctets [2])] @
       eap_calls (Some (take 1 [3, 6, 0, 4] @ [word_of_nat 9] @ drop 2 [3, 6, 0, 4]))) = Inr octets"
    and ended: "sum_result smry = Some ''accept''"
      "sum_upstream_round_trips smry = length (eap_reply 11 [1, 2, 0, 6, 13, 0x20] # concat (map replies_of [auth_round]) @ [auth_accept])"
      "sessions t' = (sessions auth_table)(state_key [7] := None)"
    using authentication_relayed [OF auth_env_ready(1-3) fin(1) auth_greeting table(1-3) hello rounds final nine accept(1-3) two accept(4,5),
        of "[]" "[]" "[]"] by blast
  have "octets = [2, 3, 9, 0, 4]" using reply by (simp add: auth_env_ready(5) AccessAccept_def)
  then show ?thesis
    using run ended
    by - (rule exI [of _ t'], rule exI [of _ "(o0, (''ap'', 1812)) # sent_in [auth_round] logs"],
      rule exI [of _ "q0 # concat (map snd logs) @ [q]"], rule exI [of _ smry], intro conjI;
      simp add: fin(2) table(4) replies del: serve.simps)
qed

end
