(* ===== verification/Proxy_Config.thy ===== *)
theory Proxy_Config
  imports Downstream_Conversation
begin

text \<open>
  \<open>proxy/config.py\<close> and \<open>proxy/proxy.py\<close>: the operator's configuration file, its validation,
  the overrides of the command line, and the parts \<open>main\<close> builds from them.

  The YAML parser is not modelled: what \<open>yaml.safe_load\<close> returned is the value \<open>raw\<close>. The namespace
  of the parsed arguments is the record \<open>cli_args\<close>, which \<open>Command_Line\<close> computes. Values keep the type
  the file gave them (\<open>yaml\<close>), because the dataclasses do not check it; a float is a finite
  one. Text is ASCII where \<open>int\<close> reads it.
\<close>

section \<open>Values of a configuration file\<close>

datatype yaml =
    YNull
  | YBool bool
  | YInt int
  | YFloat real
  | YStr string
  | YBytes bytes
  | YList "yaml list"
  | YMap "(yaml \<times> yaml) list"

fun truthy :: "yaml \<Rightarrow> bool" where
  "truthy YNull \<longleftrightarrow> False"
| "truthy (YBool b) \<longleftrightarrow> b"
| "truthy (YInt n) \<longleftrightarrow> n \<noteq> 0"
| "truthy (YFloat x) \<longleftrightarrow> x \<noteq> 0"
| "truthy (YStr s) \<longleftrightarrow> s \<noteq> []"
| "truthy (YBytes b) \<longleftrightarrow> b \<noteq> []"
| "truthy (YList xs) \<longleftrightarrow> xs \<noteq> []"
| "truthy (YMap m) \<longleftrightarrow> m \<noteq> []"

text \<open>A value as the comparison operators see it; \<open>None\<close> cannot be compared with a number.\<close>

fun as_number :: "yaml \<Rightarrow> real option" where
  "as_number (YBool b) = Some (if b then 1 else 0)"
| "as_number (YInt n) = Some (of_int n)"
| "as_number (YFloat x) = Some x"
| "as_number _ = None"

text \<open>\<open>int(text)\<close>: surrounding whitespace, a sign, digits with single underscores between them.\<close>

definition is_digit :: "char \<Rightarrow> bool" where
  "is_digit c \<longleftrightarrow> 48 \<le> (of_char c :: nat) \<and> (of_char c :: nat) \<le> 57"

fun scan_digits :: "nat \<Rightarrow> bool \<Rightarrow> string \<Rightarrow> nat option" where
  "scan_digits acc after_digit [] = (if after_digit then Some acc else None)"
| "scan_digits acc after_digit (c # cs) =
     (if is_digit c then scan_digits (acc * 10 + (of_char c - 48)) True cs
      else if c = CHR ''_'' \<and> after_digit then scan_digits acc False cs else None)"

definition strip_blanks :: "nat list \<Rightarrow> string \<Rightarrow> string" where
  "strip_blanks blanks s =
     (let blank = (\<lambda>c. of_char c \<in> set blanks) in rev (dropWhile blank (rev (dropWhile blank s))))"

definition int_of_text :: "nat list \<Rightarrow> string \<Rightarrow> py_error + int" where
  "int_of_text blanks s =
     (let t = strip_blanks blanks s;
          (neg, digits) = (case t of
             c # cs \<Rightarrow> if c = CHR ''-'' then (True, cs) else if c = CHR ''+'' then (False, cs) else (False, t)
           | [] \<Rightarrow> (False, t)) in
      case scan_digits 0 False digits of
        None \<Rightarrow> Inl (ValueError ''int'')
      | Some n \<Rightarrow> Inr (if neg then - int n else int n))"

definition byte_blanks :: "nat list" where "byte_blanks = [9, 10, 11, 12, 13, 32]"
definition text_blanks :: "nat list" where "text_blanks = byte_blanks @ [28, 29, 30, 31]"

fun py_int :: "yaml \<Rightarrow> py_error + int" where
  "py_int (YInt n) = Inr n"
| "py_int (YBool b) = Inr (if b then 1 else 0)"
| "py_int (YFloat x) = Inr (if 0 \<le> x then \<lfloor>x\<rfloor> else \<lceil>x\<rceil>)"
| "py_int (YStr s) = int_of_text text_blanks s"
| "py_int (YBytes b) = int_of_text byte_blanks (map (\<lambda>x. char_of (unat x)) b)"
| "py_int _ = Inl TypeError"

section \<open>The configuration\<close>

record downstream_config =
  listen_host :: yaml
  listen_port :: yaml
  down_shared_secret :: yaml
  down_fragment_size :: yaml

record upstream_config =
  up_host :: yaml
  up_port :: yaml
  up_shared_secret :: yaml
  up_fragment_size :: yaml
  up_framed_mtu :: yaml
  up_strip_framed_mtu :: yaml

record config =
  cfg_mode :: yaml
  cfg_max_message_len :: int
  cfg_output_dir :: yaml
  cfg_downstream :: downstream_config
  cfg_upstream :: upstream_config

definition bind_error :: "'e + 'a \<Rightarrow> ('a \<Rightarrow> 'e + 'b) \<Rightarrow> 'e + 'b" where
  "bind_error x f = (case x of Inl e \<Rightarrow> Inl e | Inr y \<Rightarrow> f y)"

lemma bind_error_simps [simp]: "bind_error (Inl e) f = Inl e" "bind_error (Inr x) f = f x"
  by (simp_all add: bind_error_def)

lemma bind_error_Inr: "bind_error x f = Inr y \<longleftrightarrow> (\<exists>z. x = Inr z \<and> f z = Inr y)"
  by (cases x) simp_all

text \<open>\<open>1 <= v <= 65000\<close>\<close>

definition in_size_range :: "yaml \<Rightarrow> py_error + bool" where
  "in_size_range v = (case as_number v of None \<Rightarrow> Inl TypeError | Some x \<Rightarrow> Inr (1 \<le> x \<and> x \<le> 65000))"

definition require :: "py_error + bool \<Rightarrow> string \<Rightarrow> py_error + unit" where
  "require c what = bind_error c (\<lambda>b. if b then Inr () else Inl (ValueError what))"

definition validate :: "config \<Rightarrow> py_error + unit" where
  "validate cfg =
     (let d = cfg_downstream cfg; u = cfg_upstream cfg in
      bind_error (require (Inr (cfg_mode cfg = YStr ''reassemble'' \<or> cfg_mode cfg = YStr ''passthrough'')) ''mode'') (\<lambda>_.
      bind_error (require (in_size_range (down_fragment_size d)) ''downstream.fragment_size'') (\<lambda>_.
      bind_error (require (in_size_range (up_fragment_size u)) ''upstream.fragment_size'') (\<lambda>_.
      bind_error (require (if up_framed_mtu u \<noteq> YNull then in_size_range (up_framed_mtu u) else Inr True) ''upstream.framed_mtu'') (\<lambda>_.
      bind_error (require (Inr (up_strip_framed_mtu u = YBool True \<or> up_strip_framed_mtu u = YBool False)) ''upstream.strip_framed_mtu'') (\<lambda>_.
      require (Inr (\<not> cfg_max_message_len cfg < 4096)) ''max_message_len''))))))"

text \<open>\<open>raw[name]\<close>, and keyword arguments from a mapping: required names and names with a default.\<close>

definition item :: "yaml \<Rightarrow> string \<Rightarrow> py_error + yaml" where
  "item raw name =
     (case raw of
        YMap m \<Rightarrow> (case map_of m (YStr name) of None \<Rightarrow> Inl KeyError | Some v \<Rightarrow> Inr v)
      | _ \<Rightarrow> Inl TypeError)"

definition item_or :: "yaml \<Rightarrow> string \<Rightarrow> yaml \<Rightarrow> py_error + yaml" where
  "item_or raw name dflt =
     (case raw of
        YMap m \<Rightarrow> Inr (case map_of m (YStr name) of None \<Rightarrow> dflt | Some v \<Rightarrow> v)
      | _ \<Rightarrow> Inl AttributeError)"

definition keywords_of :: "string list \<Rightarrow> (string \<times> yaml) list \<Rightarrow> yaml \<Rightarrow> py_error + (string \<Rightarrow> yaml)" where
  "keywords_of required defaults v =
     (case v of
        YMap m \<Rightarrow>
          if list_all (\<lambda>k. case k of YStr s \<Rightarrow> s \<in> set required \<or> s \<in> set (map fst defaults) | _ \<Rightarrow> False) (map fst m) \<and>
             list_all (\<lambda>r. map_of m (YStr r) \<noteq> None) required
          then Inr (\<lambda>name. case map_of m (YStr name) of
                             Some x \<Rightarrow> x
                           | None \<Rightarrow> (case map_of defaults name of Some x \<Rightarrow> x | None \<Rightarrow> YNull))
          else Inl TypeError
      | _ \<Rightarrow> Inl TypeError)"

definition downstream_of :: "yaml \<Rightarrow> py_error + downstream_config" where
  "downstream_of v =
     bind_error (keywords_of [''listen_host'', ''listen_port'', ''shared_secret'', ''fragment_size''] [] v) (\<lambda>k.
       Inr \<lparr>listen_host = k ''listen_host'', listen_port = k ''listen_port'', down_shared_secret = k ''shared_secret'',
            down_fragment_size = k ''fragment_size''\<rparr>)"

definition upstream_of :: "yaml \<Rightarrow> py_error + upstream_config" where
  "upstream_of v =
     bind_error (keywords_of [''host'', ''port'', ''shared_secret'', ''fragment_size'']
                   [(''framed_mtu'', YNull), (''strip_framed_mtu'', YBool False)] v) (\<lambda>k.
       Inr \<lparr>up_host = k ''host'', up_port = k ''port'', up_shared_secret = k ''shared_secret'',
            up_fragment_size = k ''fragment_size'', up_framed_mtu = k ''framed_mtu'',
            up_strip_framed_mtu = k ''strip_framed_mtu''\<rparr>)"

definition load_config :: "string \<Rightarrow> yaml \<Rightarrow> py_error + config" where
  "load_config default_output_dir raw =
     bind_error (item raw ''mode'') (\<lambda>m.
     bind_error (item_or raw ''max_message_len'' (YInt 262144)) (\<lambda>l.
     bind_error (py_int l) (\<lambda>maxlen.
     bind_error (item_or raw ''output_dir'' YNull) (\<lambda>out.
     bind_error (item raw ''downstream'') (\<lambda>dv.
     bind_error (downstream_of dv) (\<lambda>d.
     bind_error (item raw ''upstream'') (\<lambda>uv.
     bind_error (upstream_of uv) (\<lambda>u.
     let cfg = \<lparr>cfg_mode = m, cfg_max_message_len = maxlen,
                cfg_output_dir = (if truthy out then out else YStr default_output_dir),
                cfg_downstream = d, cfg_upstream = u\<rparr> in
     bind_error (validate cfg) (\<lambda>_. Inr cfg)))))))))"

section \<open>The command line\<close>

record cli_args =
  arg_config :: string
  arg_mode :: "string option"
  arg_fragment_size :: "int option"
  arg_framed_mtu :: "int option"
  arg_strip_framed_mtu :: bool
  arg_output_dir :: "string option"

text \<open>The namespace of an empty command line.\<close>

definition default_args :: cli_args where
  "default_args = \<lparr>arg_config = ''config.yaml'', arg_mode = None, arg_fragment_size = None, arg_framed_mtu = None,
     arg_strip_framed_mtu = False, arg_output_dir = None\<rparr>"

text \<open>\<open>os.path.exists\<close> is the parameter \<open>present\<close>; \<open>pkg_default\<close> is the file beside the package.\<close>

definition resolve_config :: "(string \<Rightarrow> bool) \<Rightarrow> string \<Rightarrow> string \<Rightarrow> string" where
  "resolve_config present pkg_default path =
     (if present path then path
      else if path = ''config.yaml'' \<and> present pkg_default then pkg_default
      else path)"

definition apply_overrides :: "cli_args \<Rightarrow> config \<Rightarrow> config" where
  "apply_overrides args cfg0 =
     (let cfg1 = (case arg_mode args of None \<Rightarrow> cfg0 | Some m \<Rightarrow> cfg0\<lparr>cfg_mode := YStr m\<rparr>);
          cfg2 = (case arg_fragment_size args of
                    None \<Rightarrow> cfg1
                  | Some n \<Rightarrow> cfg1\<lparr>cfg_downstream := (cfg_downstream cfg1)\<lparr>down_fragment_size := YInt n\<rparr>\<rparr>);
          cfg3 = (case arg_framed_mtu args of
                    None \<Rightarrow> cfg2
                  | Some n \<Rightarrow> cfg2\<lparr>cfg_upstream := (cfg_upstream cfg2)\<lparr>up_framed_mtu := YInt n, up_strip_framed_mtu := YBool False\<rparr>\<rparr>);
          cfg4 = (if arg_strip_framed_mtu args
                  then cfg3\<lparr>cfg_upstream := (cfg_upstream cfg3)\<lparr>up_strip_framed_mtu := YBool True\<rparr>\<rparr> else cfg3) in
      case arg_output_dir args of None \<Rightarrow> cfg4 | Some d \<Rightarrow> cfg4\<lparr>cfg_output_dir := YStr d\<rparr>)"

definition main_config :: "string \<Rightarrow> yaml \<Rightarrow> cli_args \<Rightarrow> py_error + config" where
  "main_config default_output_dir raw args =
     bind_error (load_config default_output_dir raw) (\<lambda>cfg0.
     let cfg = apply_overrides args cfg0 in
     bind_error (validate cfg) (\<lambda>_. Inr cfg))"

section \<open>The parts that are built\<close>

text \<open>\<open>secret if isinstance(secret, bytes) else secret.encode()\<close>\<close>

fun secret_octets :: "yaml \<Rightarrow> py_error + bytes" where
  "secret_octets (YBytes b) = Inr b"
| "secret_octets (YStr s) = Inr (py_encode s)"
| "secret_octets _ = Inl AttributeError"

text \<open>
  The session table and the upstream client hold integers and text. \<open>main\<close> passes the
  configuration's values on as they are; a value of another type has no counterpart in the
  model, and \<open>built\<close> is \<open>None\<close> for it.
\<close>

fun whole :: "yaml \<Rightarrow> int option" where
  "whole (YInt n) = Some n"
| "whole (YBool b) = Some (if b then 1 else 0)"
| "whole _ = None"

fun text_of :: "yaml \<Rightarrow> string option" where
  "text_of (YStr s) = Some s"
| "text_of _ = None"

definition built_table :: "config \<Rightarrow> session_table option" where
  "built_table cfg =
     (case (text_of (cfg_mode cfg), whole (up_fragment_size (cfg_upstream cfg)), whole (down_fragment_size (cfg_downstream cfg))) of
        (Some m, Some u, Some d) \<Rightarrow> Some (new_session_table m u d (cfg_max_message_len cfg) 30)
      | _ \<Rightarrow> None)"

definition built_client :: "config \<Rightarrow> (py_error + upstream_client) option" where
  "built_client cfg =
     (let u = cfg_upstream cfg;
          mtu = (if up_framed_mtu u = YNull then Some None else map_option Some (whole (up_framed_mtu u))) in
      case (text_of (up_host u), whole (up_port u), mtu) of
        (Some h, Some p, Some mtu) \<Rightarrow>
          Some (bind_error (secret_octets (up_shared_secret u)) (\<lambda>s.
            Inr \<lparr>host = h, port = p, secret = s, timeout_s = 10, framed_mtu_override = mtu,
                 strip_framed_mtu = (up_strip_framed_mtu u = YBool True)\<rparr>))
      | _ \<Rightarrow> None)"

section \<open>What validation means\<close>

lemma require_Inr: "require c what = Inr () \<longleftrightarrow> c = Inr True"
  by (cases c) (simp_all add: require_def)

definition size_ok :: "yaml \<Rightarrow> bool" where
  "size_ok v \<longleftrightarrow> (case as_number v of None \<Rightarrow> False | Some x \<Rightarrow> 1 \<le> x \<and> x \<le> 65000)"

lemma in_size_range_Inr: "in_size_range v = Inr True \<longleftrightarrow> size_ok v"
  by (simp add: in_size_range_def size_ok_def split: option.split)

lemma whole_size: "size_ok v \<Longrightarrow> whole v = Some n \<Longrightarrow> 1 \<le> n \<and> n \<le> 65000"
  by (cases v) (auto simp: size_ok_def split: if_splits)

definition valid :: "config \<Rightarrow> bool" where
  "valid cfg \<longleftrightarrow>
     (cfg_mode cfg = YStr ''reassemble'' \<or> cfg_mode cfg = YStr ''passthrough'') \<and>
     size_ok (down_fragment_size (cfg_downstream cfg)) \<and> size_ok (up_fragment_size (cfg_upstream cfg)) \<and>
     (up_framed_mtu (cfg_upstream cfg) = YNull \<or> size_ok (up_framed_mtu (cfg_upstream cfg))) \<and>
     (up_strip_framed_mtu (cfg_upstream cfg) = YBool True \<or> up_strip_framed_mtu (cfg_upstream cfg) = YBool False) \<and>
     4096 \<le> cfg_max_message_len cfg"

lemma validate_valid: "validate cfg = Inr () \<longleftrightarrow> valid cfg"
  by (auto simp: validate_def Let_def bind_error_Inr require_Inr in_size_range_Inr valid_def)

lemma main_config_Inr:
  "main_config out raw args = Inr cfg \<longleftrightarrow>
     (\<exists>cfg0. load_config out raw = Inr cfg0 \<and> cfg = apply_overrides args cfg0 \<and> valid cfg)"
  by (auto simp: main_config_def bind_error_Inr Let_def validate_valid)

lemma overrides_sel:
  "cfg_mode (apply_overrides args cfg) = (case arg_mode args of None \<Rightarrow> cfg_mode cfg | Some m \<Rightarrow> YStr m)"
  "down_fragment_size (cfg_downstream (apply_overrides args cfg)) =
     (case arg_fragment_size args of None \<Rightarrow> down_fragment_size (cfg_downstream cfg) | Some n \<Rightarrow> YInt n)"
  "up_framed_mtu (cfg_upstream (apply_overrides args cfg)) =
     (case arg_framed_mtu args of None \<Rightarrow> up_framed_mtu (cfg_upstream cfg) | Some n \<Rightarrow> YInt n)"
  "up_strip_framed_mtu (cfg_upstream (apply_overrides args cfg)) =
     (if arg_strip_framed_mtu args then YBool True
      else if arg_framed_mtu args \<noteq> None then YBool False else up_strip_framed_mtu (cfg_upstream cfg))"
  "up_fragment_size (cfg_upstream (apply_overrides args cfg)) = up_fragment_size (cfg_upstream cfg)"
  "cfg_max_message_len (apply_overrides args cfg) = cfg_max_message_len cfg"
  by (auto simp: apply_overrides_def Let_def split: option.split)

text \<open>
  What comes out of a validated configuration: an empty table with one of the two modes, both
  fragment sizes within 1 and 65000 and room for at least 4096 octets, and an upstream client
  whose Framed-MTU override, if any, is within 1 and 65000 too.
\<close>

lemma configured_parts_fit:
  assumes "main_config out raw args = Inr cfg" and "built_table cfg = Some t" and "built_client cfg = Some (Inr client)"
  shows "table_ok t" "sessions t = Map.empty" "table_mode t \<in> {''reassemble'', ''passthrough''}"
    "4096 \<le> table_max_message_len t"
    "case framed_mtu_override client of None \<Rightarrow> True | Some n \<Rightarrow> 1 \<le> n \<and> n \<le> 65000"
proof -
  have v: "valid cfg" using assms(1) by (auto simp: main_config_Inr)
  obtain m u d where parts: "text_of (cfg_mode cfg) = Some m" "whole (up_fragment_size (cfg_upstream cfg)) = Some u"
    "whole (down_fragment_size (cfg_downstream cfg)) = Some d" "t = new_session_table m u d (cfg_max_message_len cfg) 30"
    using assms(2) by (auto simp: built_table_def split: option.splits)
  show "table_ok t"
    using v parts(2,3) whole_size by (auto simp: parts(4) valid_def intro!: new_table_ok)
  show "case framed_mtu_override client of None \<Rightarrow> True | Some n \<Rightarrow> 1 \<le> n \<and> n \<le> 65000"
    using assms(3) v whole_size
    by (auto simp: built_client_def Let_def bind_error_Inr valid_def split: option.splits if_splits)
  show "sessions t = Map.empty" "table_mode t \<in> {''reassemble'', ''passthrough''}" "4096 \<le> table_max_message_len t"
    using v parts(1) by (auto simp: parts(4) new_session_table_def valid_def)
qed

text \<open>
  C27: which Framed-MTU the server sees in reassemble mode, from the operator's knobs down to
  the request: stripping asked for on the command line wins; then a value given there, over
  both the value and the stripping of the file; then the file, stripping first. A value
  replaces what the access point sent and is never added.
\<close>

theorem framed_mtu_knobs:
  assumes "load_config out raw = Inr cfg0" and "main_config out raw args = Inr cfg"
    and "built_client cfg = Some (Inr client)" and "mode s = ''reassemble''"
  shows "items_of ''Framed-MTU'' (build_request client s eap u st calling called) =
    (let sent = attr_values ''Framed-MTU'' (ap_attrs s) in
     if arg_strip_framed_mtu args then []
     else case arg_framed_mtu args of
       Some n \<Rightarrow> map (\<lambda>_. AInteger n) sent
     | None \<Rightarrow>
         if up_strip_framed_mtu (cfg_upstream cfg0) = YBool True then []
         else case whole (up_framed_mtu (cfg_upstream cfg0)) of
           None \<Rightarrow> sent
         | Some n \<Rightarrow> map (\<lambda>_. AInteger n) sent)"
proof -
  have cfg: "cfg = apply_overrides args cfg0" using assms(1,2) by (simp add: main_config_Inr)
  have strip: "strip_framed_mtu client \<longleftrightarrow> up_strip_framed_mtu (cfg_upstream cfg) = YBool True"
    and mtu: "if up_framed_mtu (cfg_upstream cfg) = YNull then framed_mtu_override client = None
      else framed_mtu_override client = whole (up_framed_mtu (cfg_upstream cfg)) \<and> whole (up_framed_mtu (cfg_upstream cfg)) \<noteq> None"
    using assms(3) by (auto simp: built_client_def Let_def bind_error_Inr split: option.splits if_splits)
  have "framed_mtu_override client = whole (up_framed_mtu (cfg_upstream cfg))"
    using mtu by (auto split: if_splits)
  then show ?thesis
    using strip assms(4)
    by (subst items_of_build_request) (auto simp: own_attrs_def cfg overrides_sel Let_def split: option.splits)
qed

text \<open>A file, and what is built from it when the command line asks for another Framed-MTU.\<close>

definition lab_raw :: yaml where
  "lab_raw = YMap [(YStr ''mode'', YStr ''reassemble''),
     (YStr ''downstream'', YMap [(YStr ''listen_host'', YStr ''0.0.0.0''), (YStr ''listen_port'', YInt 1812),
        (YStr ''shared_secret'', YStr ''s''), (YStr ''fragment_size'', YInt 1000)]),
     (YStr ''upstream'', YMap [(YStr ''host'', YStr ''127.0.0.1''), (YStr ''port'', YInt 11812),
        (YStr ''shared_secret'', YStr ''s''), (YStr ''fragment_size'', YInt 60000), (YStr ''strip_framed_mtu'', YBool True)])]"

definition lab_args :: cli_args where
  "lab_args = default_args\<lparr>arg_framed_mtu := Some 4000\<rparr>"

definition lab_config :: "bool \<Rightarrow> yaml \<Rightarrow> config" where
  "lab_config strip mtu = \<lparr>cfg_mode = YStr ''reassemble'', cfg_max_message_len = 262144, cfg_output_dir = YStr ''out'',
     cfg_downstream = \<lparr>listen_host = YStr ''0.0.0.0'', listen_port = YInt 1812, down_shared_secret = YStr ''s'', down_fragment_size = YInt 1000\<rparr>,
     cfg_upstream = \<lparr>up_host = YStr ''127.0.0.1'', up_port = YInt 11812, up_shared_secret = YStr ''s'', up_fragment_size = YInt 60000,
       up_framed_mtu = mtu, up_strip_framed_mtu = YBool strip\<rparr>\<rparr>"

lemma lab_valid: "valid (lab_config True YNull)" "valid (lab_config False (YInt 4000))"
  by (simp_all add: valid_def lab_config_def size_ok_def)

lemma lab_loaded: "load_config ''out'' lab_raw = Inr (lab_config True YNull)"
proof -
  have "validate (lab_config True YNull) = Inr ()" using lab_valid(1) by (simp add: validate_valid)
  then show ?thesis
    by (simp add: load_config_def lab_raw_def item_def item_or_def downstream_of_def upstream_of_def keywords_of_def lab_config_def)
qed

lemma lab_configured: "main_config ''out'' lab_raw lab_args = Inr (lab_config False (YInt 4000))"
proof -
  have "apply_overrides lab_args (lab_config True YNull) = lab_config False (YInt 4000)"
    by (simp add: apply_overrides_def lab_args_def default_args_def lab_config_def)
  then show ?thesis using lab_loaded lab_valid(2) by (simp add: main_config_Inr)
qed

definition configured_client :: upstream_client where
  "configured_client = \<lparr>host = ''127.0.0.1'', port = 11812, secret = py_encode ''s'', timeout_s = 10,
     framed_mtu_override = Some 4000, strip_framed_mtu = False\<rparr>"

lemma lab_built:
  "built_table (lab_config False (YInt 4000)) = Some lab_table"
  "built_client (lab_config False (YInt 4000)) = Some (Inr configured_client)"
  by (simp_all add: built_table_def built_client_def lab_config_def lab_table_def configured_client_def)

theorem framed_mtu_knobs_witness:
  "items_of ''Framed-MTU'' (build_request configured_client
      (lab_session\<lparr>ap_attrs := [(''Framed-MTU'', AInteger 1400)]\<rparr>) [2, 1, 0, 4] ''u'' None None None) = [AInteger 4000]"
  using framed_mtu_knobs [OF lab_loaded lab_configured lab_built(2),
      of "lab_session\<lparr>ap_attrs := [(''Framed-MTU'', AInteger 1400)]\<rparr>" "[2, 1, 0, 4]" "''u''" None None None]
  by (simp add: lab_args_def default_args_def attr_values_def)

text \<open>
  Validation compares the fragment sizes but does not look at their type. A size with a
  fraction is accepted, and there is no table with an integer size for it: \<open>range\<close> in
  \<open>eap_tls.fragment\<close> then refuses it on every record.
\<close>

lemma fractional_size_accepted:
  assumes "validate cfg = Inr ()" and "1 \<le> x" and "x \<le> 65000"
  shows "let cfg' = cfg\<lparr>cfg_downstream := (cfg_downstream cfg)\<lparr>down_fragment_size := YFloat x\<rparr>\<rparr> in
    validate cfg' = Inr () \<and> built_table cfg' = None"
  using assms by (auto simp: validate_valid valid_def size_ok_def built_table_def Let_def split: option.split)

end
