(* ===== verification/Proxy_Report.thy ===== *)
theory Proxy_Report
  imports Downstream_Exchange
begin

text \<open>
  \<open>proxy/report.py\<close>: the JSON record and the text block of a finished authentication.

  The program runs over the \<open>Reporter\<close> object and the world. The file system, the two clocks,
  the terminal and \<open>json.dump\<close> are the parameter \<open>report_env\<close>. Byte counts are below \<open>2^53\<close>, where
  Python's division by a power of two is exact.

  The lemmas show that a record that cannot be written stops neither the block nor the end of
  the session and is reported as such, that no record of a run overwrites another, and how far
  the printed sizes are from the true ones.
\<close>

section \<open>Formatting\<close>

text \<open>Division rounded to nearest, ties to even, as the format \<open>.1f\<close> rounds an exact quotient.\<close>

definition round_div :: "nat \<Rightarrow> nat \<Rightarrow> nat" where
  "round_div a b =
     (let q = a div b; r = a mod b in
      if 2 * r < b then q else if b < 2 * r then q + 1 else if even q then q else q + 1)"

definition one_decimal :: "nat \<Rightarrow> nat \<Rightarrow> string" where
  "one_decimal a b = (let t = round_div (10 * a) b in decimal (t div 10) @ ''.'' @ decimal (t mod 10))"

definition human_bytes :: "nat \<Rightarrow> string" where
  "human_bytes n =
     (if n < 1024 then decimal n @ '' B''
      else if n < 1024 * 1024 then one_decimal n 1024 @ '' KB''
      else one_decimal n (1024 * 1024) @ '' MB'')"

definition round_even :: "real \<Rightarrow> int" where
  "round_even x =
     (let f = \<lfloor>x\<rfloor>; d = x - of_int f in
      if d < 1 / 2 then f else if 1 / 2 < d then f + 1 else if even f then f else f + 1)"

text \<open>The formats \<open>.0f\<close>, \<open>>3\<close>, \<open>03d\<close>, and \<open>str.upper\<close> on ASCII.\<close>

definition no_decimal :: "real \<Rightarrow> string" where
  "no_decimal x = (if x < 0 then ''-'' else []) @ decimal (nat \<bar>round_even x\<bar>)"

definition int_text :: "int \<Rightarrow> string" where
  "int_text n = (if n < 0 then ''-'' else []) @ decimal (nat \<bar>n\<bar>)"

definition pad_left :: "char \<Rightarrow> nat \<Rightarrow> string \<Rightarrow> string" where
  "pad_left c n s = replicate (n - length s) c @ s"

definition upper :: "string \<Rightarrow> string" where
  "upper s = map (\<lambda>c. let n = of_char c :: nat in if 97 \<le> n \<and> n \<le> 122 then char_of (n - 32) else c) s"

definition color :: "bool \<Rightarrow> string \<Rightarrow> string \<Rightarrow> string" where
  "color tty code t = (if tty then CHR 0x1B # ''['' @ code @ ''m'' @ t @ CHR 0x1B # ''[0m'' else t)"

text \<open>\<open>os.path.join\<close>\<close>

definition path_join :: "string \<Rightarrow> string \<Rightarrow> string" where
  "path_join a b =
     (if take 1 b = ''/'' then b else if a = [] \<or> last a = CHR ''/'' then a @ b else a @ ''/'' @ b)"

definition join_lines :: "string list \<Rightarrow> string" where
  "join_lines ls = (case ls of [] \<Rightarrow> [] | x # xs \<Rightarrow> x @ concat (map (\<lambda>y. CHR 0x0A # y) xs))"

section \<open>The reporter\<close>

record reporter =
  output_dir :: string
  report_seq :: nat

record 'w report_env =
  abs_path :: "string \<Rightarrow> string"
  make_dirs :: "string \<Rightarrow> 'w \<Rightarrow> (py_error + unit) \<times> 'w"
  utc_now :: "'w \<Rightarrow> string \<times> 'w"
  local_stamp :: "'w \<Rightarrow> string \<times> 'w"
  write_record :: "string \<Rightarrow> string \<times> summary \<Rightarrow> 'w \<Rightarrow> (py_error + unit) \<times> 'w"
  is_tty :: bool
  print_text :: "string \<Rightarrow> 'w \<Rightarrow> (py_error + unit) \<times> 'w"
  error_text :: "py_error \<Rightarrow> string"

definition new_reporter :: "'w report_env \<Rightarrow> string \<Rightarrow> 'w \<Rightarrow> (py_error + reporter) \<times> 'w" where
  "new_reporter env dir w =
     (case make_dirs env (abs_path env dir) w of
        (Inl e, w') \<Rightarrow> (Inl e, w')
      | (Inr _, w') \<Rightarrow> (Inr \<lparr>output_dir = abs_path env dir, report_seq = 0\<rparr>, w'))"

definition record_name :: "string \<Rightarrow> nat \<Rightarrow> string \<Rightarrow> string option \<Rightarrow> string" where
  "record_name ts n m res =
     ts @ ''-'' @ pad_left (CHR ''0'') 3 (decimal n) @ ''-'' @ m @ ''-'' @
     (case res of None \<Rightarrow> ''None'' | Some r \<Rightarrow> r) @ ''.json''"

definition write_json :: "'w report_env \<Rightarrow> summary \<Rightarrow> (reporter \<times> 'w, string) prog" where
  "write_json env smry =
     bindP (getS output_dir) (\<lambda>dir.
     thenP (ioP (make_dirs env dir))
     (thenP (modS (\<lambda>r. r\<lparr>report_seq := report_seq r + 1\<rparr>))
     (bindP (ioP (\<lambda>w. case utc_now env w of (t, w') \<Rightarrow> (Inr t, w'))) (\<lambda>now.
      bindP (ioP (\<lambda>w. case local_stamp env w of (t, w') \<Rightarrow> (Inr t, w'))) (\<lambda>ts.
      bindP (getS report_seq) (\<lambda>n.
      let path = path_join dir (record_name ts n (sum_mode smry) (sum_result smry)) in
      thenP (ioP (write_record env path (now, smry))) (returnP path)))))))"

text \<open>The block; \<open>error\<close> is the text of the failed write.\<close>

definition block_lines :: "bool \<Rightarrow> summary \<Rightarrow> string option \<Rightarrow> string option \<Rightarrow> string list" where
  "block_lines tty s json_path error =
     (let res = upper (case sum_result s of None \<Rightarrow> ''unknown'' | Some r \<Rightarrow> if r \<noteq> [] then r else ''unknown'');
          accepted = (sum_result s = Some ''accept'');
          badge = (if accepted then color tty ''1;32'' res else color tty ''1;31'' res);
          dur_str = (case sum_duration_ms s of None \<Rightarrow> ''-'' | Some d \<Rightarrow> no_decimal d @ '' ms'');
          up = supplicant_to_server s; down = server_to_supplicant s;
          saved = (case json_path of
                     Some p \<Rightarrow> if p \<noteq> [] then p else ''(write failed: '' @ (case error of None \<Rightarrow> ''None'' | Some e \<Rightarrow> e) @ '')''
                   | None \<Rightarrow> ''(write failed: '' @ (case error of None \<Rightarrow> ''None'' | Some e \<Rightarrow> e) @ '')'');
          rule = replicate 68 (CHR ''='') in
      [[], rule,
       ''  '' @ badge @ ''   mode='' @ sum_mode s @ ''   '' @ dur_str @ ''   |   '' @
         decimal (sum_upstream_round_trips s) @ '' upstream round-trip(s)'',
       rule,
       ''  supplicant -> server   '' @ pad_left (CHR '' '') 3 (decimal (sum_fragments up)) @ '' frag in    '' @
         pad_left (CHR '' '') 3 (decimal (sum_acks up)) @ '' acks absorbed    '' @ human_bytes (sum_bytes up),
       ''  server -> supplicant   '' @ pad_left (CHR '' '') 3 (decimal (sum_fragments down)) @ '' frag out   '' @
         pad_left (CHR '' '') 3 (decimal (sum_acks down)) @ '' acks             '' @ human_bytes (sum_bytes down),
       ''  fragment sizes         down='' @ int_text (sum_downstream_fragment_size s) @ ''  up='' @
         int_text (sum_upstream_fragment_size s),
       ''  session                '' @ sum_key s,
       ''  saved                  '' @ saved,
       rule, []])"

text \<open>\<open>except OSError\<close>\<close>

definition except_os_error :: "'w report_env \<Rightarrow> (reporter \<times> 'w, string) prog \<Rightarrow> (reporter \<times> 'w, string option \<times> string option) prog" where
  "except_os_error env m rw =
     (case m rw of
        None \<Rightarrow> None
      | Some (Inl e, rw') \<Rightarrow> Some (if e = OSError then Inr (None, Some (error_text env e)) else Inl e, rw')
      | Some (Inr p, rw') \<Rightarrow> Some (Inr (Some p, None), rw'))"

definition report_summary :: "'w report_env \<Rightarrow> summary \<Rightarrow> (reporter \<times> 'w, string option) prog" where
  "report_summary env smry =
     bindP (except_os_error env (write_json env smry)) (\<lambda>(path, error).
     thenP (ioP (print_text env (join_lines (block_lines (is_tty env) smry path error)))) (returnP path))"

text \<open>The reporter as the server calls it.\<close>

definition report_op :: "'v report_env \<Rightarrow> summary \<Rightarrow> reporter \<times> 'v \<Rightarrow> (py_error + unit) \<times> (reporter \<times> 'v)" where
  "report_op env smry rv =
     (case report_summary env smry rv of
        Some (Inr p, rv') \<Rightarrow> (Inr (), rv')
      | Some (Inl e, rv') \<Rightarrow> (Inl e, rv')
      | None \<Rightarrow> (Inr (), rv))"

section \<open>File names\<close>

definition digits_value :: "string \<Rightarrow> nat" where
  "digits_value = foldl (\<lambda>acc c. acc * 10 + (of_char c - 48)) 0"

lemma digits_value_snoc: "digits_value (ds @ [c]) = digits_value ds * 10 + (of_char c - 48)"
  by (simp add: digits_value_def)

lemma decimal_value: "digits_value (decimal n) = n"
proof (induction n rule: decimal.induct)
  case (1 n)
  show ?case
  proof (cases "n < 10")
    case True
    then show ?thesis by (subst decimal.simps) (simp add: digits_value_def)
  next
    case False
    then show ?thesis using 1 by (subst decimal.simps) (simp add: digits_value_snoc)
  qed
qed

lemma decimal_digits: "c \<in> set (decimal n) \<Longrightarrow> 48 \<le> (of_char c :: nat) \<and> (of_char c :: nat) < 58"
proof (induction n rule: decimal.induct)
  case (1 n)
  show ?case
  proof (cases "n < 10")
    case True
    then show ?thesis using "1.prems" by (subst (asm) decimal.simps) simp
  next
    case False
    then show ?thesis using "1.IH" "1.prems" by (subst (asm) decimal.simps) auto
  qed
qed

lemma digits_value_zeros: "digits_value (replicate k (CHR ''0'') @ ds) = digits_value ds"
  by (induction k) (simp_all add: digits_value_def)

lemma padded_value: "digits_value (pad_left (CHR ''0'') 3 (decimal n)) = n"
  by (simp add: pad_left_def digits_value_zeros decimal_value)

lemma padded_no_dash: "CHR ''-'' \<notin> set (pad_left (CHR ''0'') 3 (decimal n))"
  using decimal_digits [of "CHR ''-''" n] by (auto simp: pad_left_def)

lemma record_name_inject:
  assumes "length ts = length ts'" and "record_name ts n m res = record_name ts' n' m' res'"
  shows "n = n'"
proof -
  let ?pad = "\<lambda>n. pad_left (CHR ''0'') 3 (decimal n)"
  have "ts @ ''-'' @ ?pad n @ ''-'' @ x = ts' @ ''-'' @ ?pad n' @ ''-'' @ y \<Longrightarrow> ?pad n @ ''-'' @ x = ?pad n' @ ''-'' @ y" for x y
    using assms(1) by simp
  then obtain x y where eq: "?pad n @ ''-'' @ x = ?pad n' @ ''-'' @ y"
    using assms(2) unfolding record_name_def by blast
  have "takeWhile (\<lambda>c. c \<noteq> CHR ''-'') (?pad k @ ''-'' @ z) = ?pad k" for k z
    using padded_no_dash [of k] by (subst takeWhile_append2) auto
  then have "?pad n = ?pad n'" using eq by metis
  then show ?thesis by (metis padded_value)
qed

lemma path_join_inject:
  "take 1 b \<noteq> ''/'' \<Longrightarrow> take 1 b' \<noteq> ''/'' \<Longrightarrow> path_join a b = path_join a b' \<Longrightarrow> b = b'"
  by (auto simp: path_join_def split: if_splits)

lemma record_name_relative: "take 1 ts \<noteq> ''/'' \<Longrightarrow> take 1 (record_name ts n m res) \<noteq> ''/''"
  by (cases ts) (simp_all add: record_name_def)

section \<open>Sizes\<close>

lemma round_div_error:
  assumes "0 < b"
  shows "2 * (round_div a b * b) \<le> 2 * a + b \<and> 2 * a \<le> 2 * (round_div a b * b) + b"
proof -
  define p where "p = a div b * b"
  have "a = p + a mod b" "a mod b < b" using assms by (simp_all add: p_def)
  moreover have "round_div a b * b = p \<and> 2 * (a mod b) \<le> b \<or> round_div a b * b = p + b \<and> b \<le> 2 * (a mod b)"
    by (auto simp: round_div_def Let_def p_def distrib_right)
  ultimately show ?thesis by linarith
qed

text \<open>
  The sizes in the block. Below 1024 octets the count is exact; above, what is printed is
  a number of tenths of the unit within half a tenth of the true size, the unit being 1024
  octets up to a mebibyte and a mebibyte from there on.
\<close>

lemma human_bytes_accurate:
  "if n < 1024 then human_bytes n = decimal n @ '' B''
   else \<exists>t u. human_bytes n = decimal (t div 10) @ ''.'' @ decimal (t mod 10) @ (if n < 1024 * 1024 then '' KB'' else '' MB'') \<and>
     u = (if n < 1024 * 1024 then 1024 else 1024 * 1024) \<and>
     \<bar>10 * int n - int t * int u\<bar> \<le> int u div 2"
proof (cases "n < 1024")
  case False
  define u :: nat where "u = (if n < 1024 * 1024 then 1024 else 1024 * 1024)"
  have u: "u = 2 * (u div 2)" "0 < u" by (simp_all add: u_def)
  let ?t = "round_div (10 * n) u"
  have "2 * (?t * u) \<le> 2 * (10 * n) + u \<and> 2 * (10 * n) \<le> 2 * (?t * u) + u"
    by (rule round_div_error [OF u(2)])
  then have "\<bar>10 * int n - int (?t * u)\<bar> \<le> int (u div 2)" using u(1) by linarith
  then have err: "\<bar>10 * int n - int ?t * int u\<bar> \<le> int u div 2" by (simp add: zdiv_int)
  have "human_bytes n = decimal (?t div 10) @ ''.'' @ decimal (?t mod 10) @ (if n < 1024 * 1024 then '' KB'' else '' MB'')"
    using False by (simp add: human_bytes_def one_decimal_def u_def Let_def)
  then show ?thesis using False err u_def by auto
qed (simp add: human_bytes_def)

section \<open>A report that cannot be written\<close>

text \<open>The terminal takes the block.\<close>

definition prints :: "'w report_env \<Rightarrow> bool" where
  "prints env \<longleftrightarrow> (\<forall>t w. fst (print_text env t w) = Inr ())"

lemma write_json_run:
  assumes "make_dirs env (output_dir r) w = (d, w1)" and "utc_now env w1 = (now, w2)" and "local_stamp env w2 = (ts, w3)"
    and "path = path_join (output_dir r) (record_name ts (report_seq r + 1) (sum_mode smry) (sum_result smry))"
    and "write_record env path (now, smry) w3 = (v, w4)"
  shows "write_json env smry (r, w) =
    (case d of Inl e \<Rightarrow> Some (Inl e, (r, w1))
     | Inr _ \<Rightarrow> Some (map_sum id (\<lambda>_. path) v, (r\<lparr>report_seq := report_seq r + 1\<rparr>, w4)))"
  using assms
  by (cases d; cases v)
    (simp_all add: write_json_def prog_simps thenP_def bindP_def ioP_apply modS_apply getS_apply returnP_def Let_def)

text \<open>
  C33: the end of a session does not depend on its record. Whatever the file system answers, the
  block is printed, no exception reaches the server and the session leaves the table. When the
  directory or the file is refused, the block says so with the error, in the line where the path
  would be; otherwise that line is the path the record was written to. The sequence number goes up
  by one as soon as the directory is there.
\<close>

theorem finished_session_reported:
  assumes "report env = report_op renv" and "prints renv"
    and "sessions t k = Some s" and "key s = k" and "result s = Some ''accept'' \<or> result s = Some ''reject''"
    and "make_dirs renv (output_dir r) w = (d, w1)" and "d = Inr () \<or> d = Inl OSError"
    and "utc_now renv w1 = (now, w2)" and "local_stamp renv w2 = (ts, w3)"
    and "path = path_join (output_dir r) (record_name ts (report_seq r + 1) (mode s) (result s))"
    and "write_record renv path (now, session_summary s) w3 = (v, w4)" and "v = Inr () \<or> v = Inl OSError"
    and "block = block_lines (is_tty renv) (session_summary s)" and "lost = error_text renv OSError"
  shows "finish_session env k (t, (r, w)) = Some (Inr (), (drop_session k t,
      (if d = Inr () then r\<lparr>report_seq := report_seq r + 1\<rparr> else r,
       snd (if d = Inr () \<and> v = Inr () then print_text renv (join_lines (block (Some path) None)) w4
            else print_text renv (join_lines (block None (Some lost))) (if d = Inr () then w4 else w1))))) \<and>
    ''  saved                  '' @ path \<in> set (block (Some path) None) \<and>
    ''  saved                  (write failed: '' @ lost @ '')'' \<in> set (block None (Some lost))"
proof (intro conjI)
  let ?sum = "session_summary s"
  have sum: "sum_mode ?sum = mode s" "sum_result ?sum = result s" by (simp_all add: session_summary_def)
  have run: "write_json renv ?sum (r, w) =
    (case d of Inl e \<Rightarrow> Some (Inl e, (r, w1))
     | Inr _ \<Rightarrow> Some (map_sum id (\<lambda>_. path) v, (r\<lparr>report_seq := report_seq r + 1\<rparr>, w4)))"
    by (rule write_json_run) (use assms(6,8-11) sum in simp_all)
  have ended: "finish_session env k (t, (r, w)) = Some (Inr (), (drop_session k t, (r', snd (print_text renv (join_lines (block p err)) w'))))"
    if "except_os_error renv (write_json renv ?sum) (r, w) = Some (Inr (p, err), (r', w'))" for p err r' w'
  proof -
    have "fst (print_text renv (join_lines (block p err)) w') = Inr ()" using assms(2) by (simp add: prints_def)
    then have "report_summary renv ?sum (r, w) = Some (Inr p, (r', snd (print_text renv (join_lines (block p err)) w')))"
      using that by (simp add: report_summary_def assms(13) bindP_Some_Inr thenP_def bindP_def ioP_apply returnP_def)
    then have "report env ?sum (r, w) = (Inr (), (r', snd (print_text renv (join_lines (block p err)) w')))"
      by (simp add: assms(1) report_op_def)
    then show ?thesis
      using assms(3-5) by (auto simp: finish_session_def on_session_read thenP_def bindP_def ioP_apply modS_apply)
  qed
  show "finish_session env k (t, (r, w)) = Some (Inr (), (drop_session k t,
      (if d = Inr () then r\<lparr>report_seq := report_seq r + 1\<rparr> else r,
       snd (if d = Inr () \<and> v = Inr () then print_text renv (join_lines (block (Some path) None)) w4
            else print_text renv (join_lines (block None (Some lost))) (if d = Inr () then w4 else w1)))))"
    using assms(7,12) ended [of "Some path" None "r\<lparr>report_seq := report_seq r + 1\<rparr>" w4]
      ended [of None "Some lost" "r\<lparr>report_seq := report_seq r + 1\<rparr>" w4] ended [of None "Some lost" r w1]
    by (elim disjE) (simp_all add: except_os_error_def run assms(14))
  have "path \<noteq> []" by (auto simp: assms(10) path_join_def record_name_def)
  then show "''  saved                  '' @ path \<in> set (block (Some path) None)"
    by (simp add: assms(13) block_lines_def Let_def)
  show "''  saved                  (write failed: '' @ lost @ '')'' \<in> set (block None (Some lost))"
    by (simp add: assms(13) block_lines_def Let_def)
qed

text \<open>A full disk: no record is written; the world is what was printed.\<close>

definition full_disk :: "string report_env" where
  "full_disk =
     \<lparr>abs_path = (\<lambda>d. d), make_dirs = (\<lambda>d w. (Inr (), w)), utc_now = (\<lambda>w. (''2025-01-01T00:00:00+00:00'', w)),
      local_stamp = (\<lambda>w. (''20250101-000000'', w)), write_record = (\<lambda>p r w. (Inl OSError, w)), is_tty = False,
      print_text = (\<lambda>t w. (Inr (), t)), error_text = (\<lambda>_. ''No space left on device'')\<rparr>"

definition accepted_here :: session where
  "accepted_here = lab_session\<lparr>result := Some ''accept''\<rparr>"

definition reporting_env :: "(reporter \<times> string) server_env" where
  "reporting_env =
     \<lparr>auth_packet = (\<lambda>d. Inl OSError), verifier = None, call_error = (\<lambda>_ _. None), reply_packet = (\<lambda>_ _ _. Inr []),
      token_bytes = (\<lambda>n w. ([], w)), monotonic = lab_clock, sendto = (\<lambda>octets addr w. (Inr (), w)),
      upstream_send = send_eap (constant_net (eap_reply 11 [])) lab_client, report = report_op full_disk\<rparr>"

theorem finished_session_reported_witness:
  "\<exists>block. finish_session reporting_env ''st:00'' (store_session ''st:00'' accepted_here lab_table, (\<lparr>output_dir = ''out'', report_seq = 4\<rparr>, [])) =
     Some (Inr (), (drop_session ''st:00'' (store_session ''st:00'' accepted_here lab_table), (\<lparr>output_dir = ''out'', report_seq = 5\<rparr>, join_lines block))) \<and>
   ''  saved                  (write failed: No space left on device)'' \<in> set block"
proof -
  let ?path = "path_join ''out'' (record_name ''20250101-000000'' 5 (mode accepted_here) (result accepted_here))"
  have env: "report reporting_env = report_op full_disk" by (simp add: reporting_env_def)
  have fine: "prints full_disk" by (simp add: prints_def full_disk_def)
  have find: "sessions (store_session ''st:00'' accepted_here lab_table) ''st:00'' = Some accepted_here" by simp
  have ended: "key accepted_here = ''st:00''" "result accepted_here = Some ''accept'' \<or> result accepted_here = Some ''reject''"
    by (simp_all add: accepted_here_def lab_session_def new_session_def)
  have disk: "make_dirs full_disk (output_dir \<lparr>output_dir = ''out'', report_seq = 4\<rparr>) [] = (Inr (), [])"
    "utc_now full_disk [] = (''2025-01-01T00:00:00+00:00'', [])" "local_stamp full_disk [] = (''20250101-000000'', [])"
    "write_record full_disk ?path (''2025-01-01T00:00:00+00:00'', session_summary accepted_here) [] = (Inl OSError, [])"
    "?path = path_join (output_dir \<lparr>output_dir = ''out'', report_seq = 4\<rparr>) (record_name ''20250101-000000''
      (report_seq \<lparr>output_dir = ''out'', report_seq = 4\<rparr> + 1) (mode accepted_here) (result accepted_here))"
    "snd (print_text full_disk t []) = t" "error_text full_disk OSError = ''No space left on device''" for t
    by (simp_all add: full_disk_def)
  from finished_session_reported [OF env fine find ended disk(1) _ disk(2,3,5,4) _ refl refl]
  show ?thesis unfolding disk(7) 
    by (intro exI [of _ "block_lines (is_tty full_disk) (session_summary accepted_here) None (Some ''No space left on device'')"])
      (simp add: disk(6))
qed

section \<open>The records of one run\<close>

text \<open>
  A run of one reporter: calls of \<open>report\<close> in any worlds, whatever each returns, and the paths
  of the records that were written.
\<close>

inductive reporter_run :: "'w report_env \<Rightarrow> reporter \<Rightarrow> string list \<Rightarrow> reporter \<Rightarrow> bool" for env :: "'w report_env" where
  Begin: "reporter_run env r [] r"
| Report: "reporter_run env r ps r1 \<Longrightarrow> write_json env smry (r1, w) = Some (x, rw) \<Longrightarrow>
    report_summary env smry (r1, w) = Some (y, (r2, w')) \<Longrightarrow>
    reporter_run env r (ps @ (case x of Inl e \<Rightarrow> [] | Inr p \<Rightarrow> [p])) r2"

lemma write_json_cases:
  assumes "write_json env smry (r, w) = Some (x, (r', w'))"
  obtains e where "x = Inl e" "r' = r \<or> r' = r\<lparr>report_seq := report_seq r + 1\<rparr>"
  | w2 where "r' = r\<lparr>report_seq := report_seq r + 1\<rparr>"
      "x = Inr (path_join (output_dir r) (record_name (fst (local_stamp env w2)) (report_seq r + 1) (sum_mode smry) (sum_result smry)))"
proof -
  obtain d w1 now w2 ts w3 where eqs: "make_dirs env (output_dir r) w = (d, w1)" "utc_now env w1 = (now, w2)"
    "local_stamp env w2 = (ts, w3)" by (meson surj_pair)
  let ?path = "path_join (output_dir r) (record_name ts (report_seq r + 1) (sum_mode smry) (sum_result smry))"
  obtain v w4 where "write_record env ?path (now, smry) w3 = (v, w4)" by fastforce
  note run = write_json_run [OF eqs refl this]
  show ?thesis
    using assms run that(1) that(2) [of w2] eqs(3) by (cases d; cases v) auto
qed

lemma report_summary_keeps:
  assumes "write_json env smry (r, w) = Some (x, (r1, w1))" and "report_summary env smry (r, w) = Some (y, (r2, w2))"
  shows "r2 = r1"
  using assms
  by (cases x) (auto simp: report_summary_def except_os_error_def bindP_def thenP_def ioP_def returnP_def
    split: option.splits sum.splits prod.splits if_splits)

text \<open>\<open>time.strftime("%Y%m%d-%H%M%S")\<close>: stamps of one length, with no slash in front.\<close>

definition stamps :: "'w report_env \<Rightarrow> nat \<Rightarrow> bool" where
  "stamps env n \<longleftrightarrow> (\<forall>w. length (fst (local_stamp env w)) = n \<and> take 1 (fst (local_stamp env w)) \<noteq> ''/'')"

definition recorded_between :: "'w report_env \<Rightarrow> string \<Rightarrow> nat \<Rightarrow> nat \<Rightarrow> string \<Rightarrow> bool" where
  "recorded_between env dir a b p \<longleftrightarrow>
     (\<exists>w n m res. p = path_join dir (record_name (fst (local_stamp env w)) n m res) \<and> a < n \<and> n \<le> b)"

lemma recorded_between_mono: "recorded_between env dir a b p \<Longrightarrow> b \<le> c \<Longrightarrow> recorded_between env dir a c p"
  unfolding recorded_between_def using le_trans by blast

lemma recorded_between_apart:
  assumes "stamps env l" and "recorded_between env dir a b p" and "recorded_between env dir b c p"
  shows False
proof -
  obtain w n m res w' n' m' res' where p: "p = path_join dir (record_name (fst (local_stamp env w)) n m res)" "n \<le> b"
    "p = path_join dir (record_name (fst (local_stamp env w')) n' m' res')" "b < n'"
    using assms(2,3) unfolding recorded_between_def by blast
  have relative: "take 1 (record_name (fst (local_stamp env w)) n m res) \<noteq> ''/''" for w n m res
    by (rule record_name_relative) (use assms(1) in \<open>simp add: stamps_def\<close>)
  have "record_name (fst (local_stamp env w)) n m res = record_name (fst (local_stamp env w')) n' m' res'"
    by (rule path_join_inject [OF relative relative trans [OF p(1) [symmetric] p(3)]])
  then have "n = n'" by (rule record_name_inject [rotated]) (use assms(1) in \<open>simp add: stamps_def\<close>)
  then show False using p by simp
qed

lemma reporter_run_paths:
  assumes "reporter_run env r ps r'" and "stamps env l"
  shows "distinct ps \<and> output_dir r' = output_dir r \<and> report_seq r + length ps \<le> report_seq r' \<and>
    (\<forall>p \<in> set ps. recorded_between env (output_dir r) (report_seq r) (report_seq r') p)"
  using assms
proof (induction rule: reporter_run.induct)
  case (Report r ps r1 smry w x rw y r2 w')
  obtain r3 w3 where rw: "rw = (r3, w3)" by fastforce
  have run: "write_json env smry (r1, w) = Some (x, (r3, w3))" using Report.hyps rw by simp
  have same: "r2 = r3" by (rule report_summary_keeps [OF run Report.hyps(3)])
  note IH = Report.IH [OF Report.prems]
  from run show ?case
  proof (cases rule: write_json_cases)
    case (1 e)
    then show ?thesis using IH same by (auto intro: recorded_between_mono)
  next
    case (2 w2)
    let ?p = "path_join (output_dir r1) (record_name (fst (local_stamp env w2)) (report_seq r1 + 1) (sum_mode smry) (sum_result smry))"
    have new: "recorded_between env (output_dir r) (report_seq r1) (report_seq r2) ?p"
      unfolding recorded_between_def using 2 IH same
      by (intro exI [of _ w2] exI [of _ "report_seq r1 + 1"] exI [of _ "sum_mode smry"] exI [of _ "sum_result smry"]) simp
    then have "?p \<notin> set ps" using IH recorded_between_apart [OF Report.prems] by blast
    moreover have "recorded_between env (output_dir r) (report_seq r) (report_seq r2) ?p"
      using new IH unfolding recorded_between_def by (meson add_leD1 le_less_trans)
    ultimately show ?thesis using 2 IH same by (auto intro: recorded_between_mono)
  qed
qed simp

text \<open>
  C34: no record overwrites another. In a run of one reporter, however many sessions end, however
  the clock stands still and whatever the file system and the terminal refuse in between, the
  records that were written have different paths, all in the directory the reporter was given, and
  the sequence number has gone up by at least their number.
\<close>

theorem record_names_distinct:
  assumes "reporter_run env r ps r'" and "stamps env n"
  shows "distinct ps \<and> report_seq r + length ps \<le> report_seq r' \<and>
    (\<forall>p \<in> set ps. \<exists>ts i m res. p = path_join (output_dir r) (record_name ts i m res) \<and>
       report_seq r < i \<and> i \<le> report_seq r')"
  using reporter_run_paths [OF assms] unfolding recorded_between_def by blast

text \<open>A disk that is full now and then.\<close>

definition tight_disk :: "string report_env" where
  "tight_disk = full_disk\<lparr>write_record := (\<lambda>p r w. (if w = ''full'' then Inl OSError else Inr (), w))\<rparr>"

lemma tight_disk_step:
  fixes smry :: summary
  assumes "reporter_run tight_disk r ps r1"
  shows "reporter_run tight_disk r
    (ps @ (if w = ''full'' then [] else [path_join (output_dir r1) (record_name ''20250101-000000'' (report_seq r1 + 1) (sum_mode smry) (sum_result smry))]))
    (r1\<lparr>report_seq := report_seq r1 + 1\<rparr>)"
proof -
  let ?path = "path_join (output_dir r1) (record_name ''20250101-000000'' (report_seq r1 + 1) (sum_mode smry) (sum_result smry))"
  let ?x = "if w = ''full'' then Inl OSError else Inr ?path"
  have run: "write_json tight_disk smry (r1, w) = Some (?x, (r1\<lparr>report_seq := report_seq r1 + 1\<rparr>, w))"
    using write_json_run [of tight_disk r1 w "Inr ()" w "''2025-01-01T00:00:00+00:00''" w "''20250101-000000''" w ?path smry
        "if w = ''full'' then Inl OSError else Inr ()" w]
    by (simp add: tight_disk_def full_disk_def)
  have "print_text tight_disk t v = (Inr (), t)" for t v by (simp add: tight_disk_def full_disk_def)
  then have "\<exists>y w'. report_summary tight_disk smry (r1, w) = Some (y, (r1\<lparr>report_seq := report_seq r1 + 1\<rparr>, w'))"
    using run by (cases "w = ''full''") (simp_all add: report_summary_def except_os_error_def bindP_def thenP_def ioP_def returnP_def)
  then obtain y w' where report: "report_summary tight_disk smry (r1, w) = Some (y, (r1\<lparr>report_seq := report_seq r1 + 1\<rparr>, w'))"
    by blast
  from reporter_run.Report [OF assms run report] show ?thesis
    by (cases "w = ''full''") (simp_all del: Suc_eq_plus1 add_Suc_right add_Suc One_nat_def)
qed

theorem record_names_distinct_witness:
  "\<exists>p q r'. reporter_run tight_disk \<lparr>output_dir = ''out'', report_seq = 0\<rparr> [p, q] r' \<and> report_seq r' = 3 \<and> p \<noteq> q"
proof -
  let ?r = "\<lparr>output_dir = ''out'', report_seq = 0\<rparr>"
  let ?smry = "session_summary accepted_here"
  let ?p = "\<lambda>n. path_join ''out'' (record_name ''20250101-000000'' n (sum_mode ?smry) (sum_result ?smry))"
  note one = tight_disk_step [OF reporter_run.Begin [of tight_disk ?r], where w = "[]" and smry = ?smry]
  note two = tight_disk_step [OF one, where w = "''full''" and smry = ?smry]
  note three = tight_disk_step [OF two, where w = "[]" and smry = ?smry]
  have "stamps tight_disk 15" by (simp add: stamps_def tight_disk_def full_disk_def)
  then have "distinct [?p 1, ?p 3]" using record_names_distinct [OF three] by (simp add: eval_nat_numeral)
  moreover have "reporter_run tight_disk ?r [?p 1, ?p 3] (?r\<lparr>report_seq := 3\<rparr>)" using three by (simp add: eval_nat_numeral)
  ultimately show ?thesis by (intro exI [of _ "?p 1"] exI [of _ "?p 3"] exI) auto
qed

end
