(* ===== verification/Command_Line.thy ===== *)
theory Command_Line
  imports Proxy_Config Proxy_Report
begin

text \<open>
  The command line of \<open>proxy/proxy.py\<close> (\<open>_parse_args\<close>): one positional path that may be left
  out and five options, in the way Python 3.12's \<open>argparse\<close> reads them. Every argument is first
  classified; an option may be abbreviated as long as one option only begins so, and may have its
  value after a \<open>=\<close>; everything after \<open>--\<close> is positional. \<open>argparse\<close> reports a wrong command line
  and the help text by raising \<open>SystemExit\<close>; the text and the status are not modelled. Numbers are
  ASCII, as in \<open>Proxy_Config\<close>.

  The lemmas show that a command line that spells settings out is read as these settings, the
  later ones over the earlier ones.
\<close>

section \<open>Classifying the arguments\<close>

text \<open>What can leave \<open>main\<close>: the \<open>SystemExit\<close> of \<open>argparse\<close>, or an exception of the rest of the program.\<close>

datatype escape = SystemExit | Escape py_error

datatype cli_option = HELP | MODE | FRAGMENT_SIZE | FRAMED_MTU | STRIP_FRAMED_MTU | OUTPUT

definition cli_options :: "(string \<times> cli_option) list" where
  "cli_options =
     [(''-h'', HELP), (''--help'', HELP), (''--mode'', MODE), (''--fragment-size'', FRAGMENT_SIZE),
      (''--framed-mtu'', FRAMED_MTU), (''--strip-framed-mtu'', STRIP_FRAMED_MTU), (''--output'', OUTPUT)]"

datatype cli_token =
    Argument string
  | Given cli_option "string option"
  | Unknown
  | Separator

text \<open>\<open>arg.split('=', 1)\<close>, with no value when there is no \<open>=\<close>.\<close>

definition split_value :: "string \<Rightarrow> string \<times> string option" where
  "split_value a =
     (let name = takeWhile (\<lambda>c. c \<noteq> CHR ''='') a in
      (name, if name = a then None else Some (drop (length name + 1) a)))"

definition starts_with :: "string \<Rightarrow> string \<Rightarrow> bool" where
  "starts_with p s \<longleftrightarrow> take (length p) s = p"

text \<open>The options an argument may abbreviate; after a single hyphen only the first letter counts.\<close>

definition abbreviated :: "string \<Rightarrow> (cli_option \<times> string option) list" where
  "abbreviated a =
     (if starts_with ''--'' a
      then map (\<lambda>p. (snd p, snd (split_value a))) (filter (\<lambda>p. starts_with (fst (split_value a)) (fst p)) cli_options)
      else map (\<lambda>p. (snd p, Some (drop 2 a))) (filter (\<lambda>p. fst p = take 2 a) cli_options))"

text \<open>\<open>^-\d+$|^-\d*\.\d+$\<close>\<close>

definition negative_number :: "string \<Rightarrow> bool" where
  "negative_number a \<longleftrightarrow>
     (case a of
        c # ds \<Rightarrow> c = CHR ''-'' \<and>
          (ds \<noteq> [] \<and> list_all is_digit ds \<or>
           (case dropWhile is_digit ds of
              d # fs \<Rightarrow> d = CHR ''.'' \<and> fs \<noteq> [] \<and> list_all is_digit fs
            | [] \<Rightarrow> False))
      | [] \<Rightarrow> False)"

definition classify :: "string \<Rightarrow> escape + cli_token" where
  "classify a =
     (if take 1 a \<noteq> ''-'' then Inr (Argument a)
      else case map_of cli_options a of
        Some opt \<Rightarrow> Inr (Given opt None)
      | None \<Rightarrow>
          if length a = 1 then Inr (Argument a)
          else case (map_of cli_options (fst (split_value a)), snd (split_value a)) of
            (Some opt, Some v) \<Rightarrow> Inr (Given opt (Some v))
          | _ \<Rightarrow>
              (case abbreviated a of
                 [] \<Rightarrow> Inr (if negative_number a \<or> CHR '' '' \<in> set a then Argument a else Unknown)
               | [(opt, v)] \<Rightarrow> Inr (Given opt v)
               | _ \<Rightarrow> Inl SystemExit))"

fun classify_all :: "string list \<Rightarrow> escape + cli_token list" where
  "classify_all [] = Inr []"
| "classify_all (a # as) =
     (if a = ''--'' then Inr (Separator # map Argument as)
      else bind_error (classify a) (\<lambda>t. bind_error (classify_all as) (\<lambda>ts. Inr (t # ts))))"

section \<open>Reading the options\<close>

text \<open>Store the value of an option; the type and the choices are checked here.\<close>

fun store_option :: "cli_option \<Rightarrow> string \<Rightarrow> cli_args \<Rightarrow> escape + cli_args" where
  "store_option MODE v ns =
     (if v = ''passthrough'' \<or> v = ''reassemble'' then Inr (ns\<lparr>arg_mode := Some v\<rparr>) else Inl SystemExit)"
| "store_option FRAGMENT_SIZE v ns =
     (case int_of_text text_blanks v of Inl e \<Rightarrow> Inl SystemExit | Inr n \<Rightarrow> Inr (ns\<lparr>arg_fragment_size := Some n\<rparr>))"
| "store_option FRAMED_MTU v ns =
     (case int_of_text text_blanks v of Inl e \<Rightarrow> Inl SystemExit | Inr n \<Rightarrow> Inr (ns\<lparr>arg_framed_mtu := Some n\<rparr>))"
| "store_option OUTPUT v ns = Inr (ns\<lparr>arg_output_dir := Some v\<rparr>)"
| "store_option HELP v ns = Inl SystemExit"
| "store_option STRIP_FRAMED_MTU v ns = Inl SystemExit"

text \<open>The positional path is taken once; a \<open>--\<close> beside it is dropped.\<close>

function read_tokens :: "bool \<Rightarrow> cli_token list \<Rightarrow> cli_args \<Rightarrow> escape + cli_args" where
  "read_tokens taken [] ns = Inr ns"
| "read_tokens taken (Argument a # ts) ns =
     (if taken then Inl SystemExit
      else read_tokens True (case ts of Separator # ts' \<Rightarrow> ts' | _ \<Rightarrow> ts) (ns\<lparr>arg_config := a\<rparr>))"
| "read_tokens taken (Separator # ts) ns =
     (if taken then Inl SystemExit
      else case ts of
        [] \<Rightarrow> Inr ns
      | Argument a # ts' \<Rightarrow> read_tokens True ts' (ns\<lparr>arg_config := a\<rparr>)
      | _ \<Rightarrow> Inl SystemExit)"
| "read_tokens taken (Unknown # ts) ns = Inl SystemExit"
| "read_tokens taken (Given opt (Some v) # ts) ns = bind_error (store_option opt v ns) (read_tokens taken ts)"
| "read_tokens taken (Given opt None # ts) ns =
     (if opt = HELP then Inl SystemExit
      else if opt = STRIP_FRAMED_MTU then read_tokens taken ts (ns\<lparr>arg_strip_framed_mtu := True\<rparr>)
      else case ts of
        Argument v # ts' \<Rightarrow> bind_error (store_option opt v ns) (read_tokens taken ts')
      | _ \<Rightarrow> Inl SystemExit)"
  by pat_completeness auto
termination
  by (relation "measure (\<lambda>(_, ts, _). length ts)") (auto split: list.split cli_token.split)

definition parse_args :: "string list \<Rightarrow> escape + cli_args" where
  "parse_args argv = bind_error (classify_all (drop 1 argv)) (\<lambda>ts. read_tokens False ts default_args)"

section \<open>Numbers\<close>

lemma digit_char: "is_digit c \<longleftrightarrow> 48 \<le> (of_char c :: nat) \<and> (of_char c :: nat) < 58"
  by (auto simp: is_digit_def)

lemma decimal_is_digit: "list_all is_digit (decimal n)"
  using decimal_digits by (auto simp: list_all_iff digit_char)

lemma decimal_nonempty: "decimal n \<noteq> []"
  by (subst decimal.simps) simp

lemma scan_digits_foldl:
  "list_all is_digit ds \<Longrightarrow> b \<or> ds \<noteq> [] \<Longrightarrow> scan_digits acc b ds = Some (foldl (\<lambda>acc c. acc * 10 + (of_char c - 48)) acc ds)"
  by (induction ds arbitrary: acc b) auto

lemma scan_decimal: "scan_digits 0 False (decimal n) = Some n"
  using scan_digits_foldl [OF decimal_is_digit, of False n 0] decimal_nonempty [of n] decimal_value [of n]
  by (simp add: digits_value_def)

lemma strip_blanks_solid:
  assumes "s \<noteq> []" and "of_char (hd s) \<notin> set blanks" and "of_char (last s) \<notin> set blanks"
  shows "strip_blanks blanks s = s"
proof -
  have "dropWhile (\<lambda>c. of_char c \<in> set blanks) s = s" using assms(1,2) by (cases s) simp_all
  moreover have "dropWhile (\<lambda>c. of_char c \<in> set blanks) (rev s) = rev s"
    using assms(1,3) by (cases s rule: rev_cases) simp_all
  ultimately show ?thesis by (simp add: strip_blanks_def Let_def)
qed

lemma text_blanks_below: "n \<in> set text_blanks \<Longrightarrow> n < 33"
  by (auto simp: text_blanks_def byte_blanks_def)

lemma decimal_solid: "hd (decimal n) \<in> set (decimal n)" "last (decimal n) \<in> set (decimal n)"
  using decimal_nonempty [of n] by simp_all

lemma digit_not_blank: "is_digit c \<Longrightarrow> of_char c \<notin> set text_blanks"
  using text_blanks_below by (fastforce simp: is_digit_def)

lemma int_text_form:
  obtains d ds where "is_digit d" "list_all is_digit ds" "scan_digits 0 False (d # ds) = Some (nat \<bar>n\<bar>)"
    "int_text n = (if n < 0 then CHR ''-'' # d # ds else d # ds)"
proof (cases "decimal (nat \<bar>n\<bar>)")
  case (Cons d ds)
  then show ?thesis
    using that [of d ds] decimal_is_digit [of "nat \<bar>n\<bar>"] scan_decimal [of "nat \<bar>n\<bar>"] by (simp add: int_text_def)
qed (simp add: decimal_nonempty)

text \<open>\<open>int(str(n)) == n\<close>\<close>

lemma int_of_int_text: "int_of_text text_blanks (int_text n) = Inr n"
proof -
  obtain d ds where d: "is_digit d" "list_all is_digit ds" "scan_digits 0 False (d # ds) = Some (nat \<bar>n\<bar>)"
    and form: "int_text n = (if n < 0 then CHR ''-'' # d # ds else d # ds)"
    by (rule int_text_form)
  have minus: "of_char (CHR ''-'') \<notin> set text_blanks" by (simp add: text_blanks_def byte_blanks_def)
  have final: "is_digit (last (d # ds))" using d(1,2) by (auto simp: list_all_iff)
  have solid: "strip_blanks text_blanks (int_text n) = int_text n"
    using digit_not_blank [OF d(1)] digit_not_blank [OF final] minus
    by (intro strip_blanks_solid) (simp_all add: form)
  have "d \<noteq> CHR ''-''" "d \<noteq> CHR ''+''" using d(1) by (auto simp: is_digit_def)
  then show ?thesis
    using d(3) unfolding int_of_text_def solid by (simp add: form Let_def)
qed

section \<open>Settings spelled out\<close>

datatype setting =
    Path string
  | Mode string
  | Fragment_size int
  | Framed_mtu int
  | Strip
  | Output_dir string

text \<open>A value after \<open>=\<close>, or as an argument of its own.\<close>

definition spell_value :: "bool \<Rightarrow> string \<Rightarrow> string \<Rightarrow> string list" where
  "spell_value joined opt v = (if joined then [opt @ ''='' @ v] else [opt, v])"

fun spell :: "bool \<Rightarrow> setting \<Rightarrow> string list" where
  "spell joined (Path p) = [p]"
| "spell joined (Mode m) = spell_value joined ''--mode'' m"
| "spell joined (Fragment_size n) = spell_value joined ''--fragment-size'' (int_text n)"
| "spell joined (Framed_mtu n) = spell_value joined ''--framed-mtu'' (int_text n)"
| "spell joined Strip = [''--strip-framed-mtu'']"
| "spell joined (Output_dir d) = spell_value joined ''--output'' d"

fun spellable :: "setting \<Rightarrow> bool" where
  "spellable (Path p) \<longleftrightarrow> take 1 p \<noteq> ''-''"
| "spellable (Mode m) \<longleftrightarrow> m = ''passthrough'' \<or> m = ''reassemble''"
| "spellable (Output_dir d) \<longleftrightarrow> take 1 d \<noteq> ''-''"
| "spellable _ \<longleftrightarrow> True"

fun apply_setting :: "setting \<Rightarrow> cli_args \<Rightarrow> cli_args" where
  "apply_setting (Path p) ns = ns\<lparr>arg_config := p\<rparr>"
| "apply_setting (Mode m) ns = ns\<lparr>arg_mode := Some m\<rparr>"
| "apply_setting (Fragment_size n) ns = ns\<lparr>arg_fragment_size := Some n\<rparr>"
| "apply_setting (Framed_mtu n) ns = ns\<lparr>arg_framed_mtu := Some n\<rparr>"
| "apply_setting Strip ns = ns\<lparr>arg_strip_framed_mtu := True\<rparr>"
| "apply_setting (Output_dir d) ns = ns\<lparr>arg_output_dir := Some d\<rparr>"

fun is_path :: "setting \<Rightarrow> bool" where
  "is_path (Path p) \<longleftrightarrow> True"
| "is_path _ \<longleftrightarrow> False"

definition option_name :: "cli_option \<Rightarrow> string" where
  "option_name opt =
     (case opt of HELP \<Rightarrow> ''--help'' | MODE \<Rightarrow> ''--mode'' | FRAGMENT_SIZE \<Rightarrow> ''--fragment-size''
      | FRAMED_MTU \<Rightarrow> ''--framed-mtu'' | STRIP_FRAMED_MTU \<Rightarrow> ''--strip-framed-mtu'' | OUTPUT \<Rightarrow> ''--output'')"

lemma classify_argument: "take 1 a \<noteq> ''-'' \<Longrightarrow> classify a = Inr (Argument a)"
  by (simp add: classify_def)

lemma classify_option: "classify (option_name opt) = Inr (Given opt None)" "option_name opt \<noteq> ''--''"
  by (cases opt; simp add: classify_def option_name_def cli_options_def)+

lemma classify_joined: "classify (option_name opt @ ''='' @ v) = Inr (Given opt (Some v))" "option_name opt @ ''='' @ v \<noteq> ''--''"
  by (cases opt; simp add: classify_def option_name_def cli_options_def split_value_def Let_def)+

lemma split_value_plain: "CHR ''='' \<notin> set a \<Longrightarrow> split_value a = (a, None)"
proof -
  assume "CHR ''='' \<notin> set a"
  then have "takeWhile (\<lambda>c. c \<noteq> CHR ''='') a = a" by (induction a) auto
  then show ?thesis by (simp add: split_value_def)
qed

lemma classify_int_text: "classify (int_text n) = Inr (Argument (int_text n))" "int_text n \<noteq> ''--''"
proof -
  obtain d ds where d: "is_digit d" "list_all is_digit ds" and form: "int_text n = (if n < 0 then CHR ''-'' # d # ds else d # ds)"
    by (rule int_text_form)
  have c: "d \<noteq> CHR ''-''" "d \<noteq> CHR ''h''" "CHR ''='' \<notin> set (CHR ''-'' # d # ds)"
    using d by (auto simp: is_digit_def list_all_iff)
  show "int_text n \<noteq> ''--''" using c by (simp add: form)
  show "classify (int_text n) = Inr (Argument (int_text n))"
  proof (cases "n < 0")
    case True
    have "negative_number (CHR ''-'' # d # ds)" using d by (simp add: negative_number_def)
    moreover have "abbreviated (CHR ''-'' # d # ds) = []" using c by (simp add: abbreviated_def starts_with_def cli_options_def)
    moreover have "map_of cli_options (CHR ''-'' # d # ds) = None" using c by (simp add: cli_options_def)
    ultimately show ?thesis
      using True by (simp add: classify_def form split_value_plain [OF c(3)])
  next
    case False
    then show ?thesis using c by (intro classify_argument) (simp add: form)
  qed
qed

section \<open>A spelled command line is read back\<close>

text \<open>The tokens of a spelled setting.\<close>

fun tokens_of :: "bool \<Rightarrow> setting \<Rightarrow> cli_token list" where
  "tokens_of j (Path p) = [Argument p]"
| "tokens_of j Strip = [Given STRIP_FRAMED_MTU None]"
| "tokens_of j (Mode m) = (if j then [Given MODE (Some m)] else [Given MODE None, Argument m])"
| "tokens_of j (Fragment_size n) =
     (if j then [Given FRAGMENT_SIZE (Some (int_text n))] else [Given FRAGMENT_SIZE None, Argument (int_text n)])"
| "tokens_of j (Framed_mtu n) =
     (if j then [Given FRAMED_MTU (Some (int_text n))] else [Given FRAMED_MTU None, Argument (int_text n)])"
| "tokens_of j (Output_dir d) = (if j then [Given OUTPUT (Some d)] else [Given OUTPUT None, Argument d])"

lemma classify_spelled:
  assumes "spellable s"
  shows "classify_all (spell j s @ rest) = bind_error (classify_all rest) (\<lambda>ts. Inr (tokens_of j s @ ts))"
proof -
  have value_of: "classify_all (spell_value j (option_name opt) v @ rest) =
      bind_error (classify_all rest) (\<lambda>ts. Inr ((if j then [Given opt (Some v)] else [Given opt None, Argument v]) @ ts))"
    if "classify v = Inr (Argument v)" "v \<noteq> ''--''" for opt v
    using that classify_joined [of opt v] classify_option [of opt]
    by (cases "classify_all rest") (simp_all add: spell_value_def)
  have plain: "classify v = Inr (Argument v)" "v \<noteq> ''--''" if "take 1 v \<noteq> ''-''" for v
    using that classify_argument [OF that] by auto
  show ?thesis
  proof (cases s)
    case (Path p)
    then show ?thesis using plain [of p] assms by simp
  next
    case Strip
    then show ?thesis using classify_option [of STRIP_FRAMED_MTU] by (simp add: option_name_def)
  next
    case (Mode m)
    then show ?thesis using value_of [of m MODE] plain [of m] assms by (auto simp: option_name_def)
  next
    case (Fragment_size n)
    then show ?thesis using value_of [OF classify_int_text, of FRAGMENT_SIZE n] by (simp add: option_name_def)
  next
    case (Framed_mtu n)
    then show ?thesis using value_of [OF classify_int_text, of FRAMED_MTU n] by (simp add: option_name_def)
  next
    case (Output_dir d)
    then show ?thesis using value_of [of d OUTPUT] plain [of d] assms by (simp add: option_name_def)
  qed
qed

lemma classify_spelled_all:
  "\<forall>(j, s) \<in> set ss. spellable s \<Longrightarrow>
   classify_all (concat (map (\<lambda>(j, s). spell j s) ss)) = Inr (concat (map (\<lambda>(j, s). tokens_of j s) ss))"
  by (induction ss) (auto simp: classify_spelled)

lemma no_separator: "concat (map (\<lambda>(j, s). tokens_of j s) ss) \<noteq> Separator # ts"
proof (cases ss)
  case (Cons p ps)
  then show ?thesis by (cases p; cases "snd p") auto
qed simp

lemma read_setting:
  assumes "spellable s" and "is_path s \<longrightarrow> \<not> taken" and "\<And>us. ts \<noteq> Separator # us"
  shows "read_tokens taken (tokens_of j s @ ts) ns = read_tokens (taken \<or> is_path s) ts (apply_setting s ns)"
proof (cases s)
  case (Path p)
  then show ?thesis using assms(2,3) by (auto split: list.split cli_token.split)
qed (use assms(1) in \<open>auto simp: int_of_int_text\<close>)

lemma read_settings:
  "\<forall>(j, s) \<in> set ss. spellable s \<Longrightarrow> length (filter (\<lambda>p. is_path (snd p)) ss) \<le> (if taken then 0 else 1) \<Longrightarrow>
   read_tokens taken (concat (map (\<lambda>(j, s). tokens_of j s) ss)) ns = Inr (fold (\<lambda>p. apply_setting (snd p)) ss ns)"
proof (induction ss arbitrary: taken ns)
  case (Cons p ss)
  obtain j s where p: "p = (j, s)" by fastforce
  have path: "is_path s \<longrightarrow> \<not> taken" using Cons.prems(2) p by (auto split: if_splits)
  have "read_tokens taken (tokens_of j s @ concat (map (\<lambda>(j, s). tokens_of j s) ss)) ns =
      read_tokens (taken \<or> is_path s) (concat (map (\<lambda>(j, s). tokens_of j s) ss)) (apply_setting s ns)"
    using Cons.prems(1) p no_separator by (intro read_setting path) auto
  moreover have "length (filter (\<lambda>p. is_path (snd p)) ss) \<le> (if taken \<or> is_path s then 0 else 1)"
    using Cons.prems(2) p by (auto split: if_splits)
  ultimately show ?case using Cons.IH [of "taken \<or> is_path s" "apply_setting s ns"] Cons.prems(1) by (simp add: p)
qed simp

text \<open>
  C26: a command line that spells out settings, in any order, with the value of an option after
  a \<open>=\<close> or as an argument of its own, and with at most one path, is read as exactly these
  settings over the defaults, a later one over an earlier one of the same option. Numbers come
  back as they were, negative ones too.
\<close>

theorem command_line_read_back:
  assumes "\<forall>(j, s) \<in> set ss. spellable s" and "length (filter (\<lambda>p. is_path (snd p)) ss) \<le> 1"
  shows "parse_args (prog # concat (map (\<lambda>(j, s). spell j s) ss)) = Inr (fold (\<lambda>p. apply_setting (snd p)) ss default_args)"
  using classify_spelled_all [OF assms(1)] read_settings [OF assms(1), of False default_args] assms(2)
  by (simp add: parse_args_def)

theorem command_line_read_back_witness:
  "parse_args [''eap-accel'', ''--framed-mtu'', ''-5'', ''lab.yaml'', ''--mode=passthrough'', ''--framed-mtu=4000'', ''--strip-framed-mtu''] =
     Inr \<lparr>arg_config = ''lab.yaml'', arg_mode = Some ''passthrough'', arg_fragment_size = None, arg_framed_mtu = Some 4000,
          arg_strip_framed_mtu = True, arg_output_dir = None\<rparr>"
proof -
  have "int_text (-5) = ''-5''" "int_text 4000 = ''4000''"
    by (simp_all add: int_text_def decimal.simps char_of_def bit_0)
  then show ?thesis
    using command_line_read_back [of "[(False, Framed_mtu (-5)), (False, Path ''lab.yaml''), (True, Mode ''passthrough''),
        (True, Framed_mtu 4000), (False, Strip)]" "''eap-accel''"]
    by (simp add: spell_value_def default_args_def)
qed

text \<open>An abbreviation that fits two options, a path too many and a value that is none end the program.\<close>

lemma wrong_command_lines:
  "parse_args [''eap-accel'', ''--frag'', ''500'', ''cfg.yaml''] = Inr (default_args\<lparr>arg_config := ''cfg.yaml'', arg_fragment_size := Some 500\<rparr>)"
  "parse_args [''eap-accel'', ''--fra'', ''500''] = Inl SystemExit"
  "parse_args [''eap-accel'', ''a.yaml'', ''b.yaml''] = Inl SystemExit"
  "parse_args [''eap-accel'', ''--mode'', ''both''] = Inl SystemExit"
  "parse_args [''eap-accel'', ''--fragment-size=1k''] = Inl SystemExit"
  by code_simp+

end
