(* ===== verification/Radius_Dictionary.thy ===== *)
theory Radius_Dictionary
  imports Downstream_Guarantees
begin

text \<open>
  The two RADIUS dictionaries (\<open>_DICT_DATA\<close> of \<open>proxy/upstream_radius.py\<close> and of
  \<open>proxy/downstream_server.py\<close>). pyrad reads them and refuses a name they do not declare and a
  value that does not fit the declared type; the entries are what the source lists.

  The lemmas follow a property of single sessions through the handling of a datagram
  (\<open>session_law\<close>), and use it to show that whatever the proxy asks pyrad to encode, toward the
  server or toward an access point, names a declared attribute with a value of its type.
\<close>

section \<open>The entries\<close>

datatype attr_kind = STRING | IPADDR | INTEGER | OCTETS

datatype dict_line =
    ATTRIBUTE string nat attr_kind
  | VENDOR string nat
  | BEGIN_VENDOR string
  | END_VENDOR string

definition upstream_dict_data :: "dict_line list" where
  "upstream_dict_data =
    [ATTRIBUTE ''User-Name'' 1 STRING,
     ATTRIBUTE ''NAS-IP-Address'' 4 IPADDR,
     ATTRIBUTE ''NAS-Port'' 5 INTEGER,
     ATTRIBUTE ''Service-Type'' 6 INTEGER,
     ATTRIBUTE ''Framed-MTU'' 12 INTEGER,
     ATTRIBUTE ''State'' 24 OCTETS,
     ATTRIBUTE ''Class'' 25 OCTETS,
     ATTRIBUTE ''Called-Station-Id'' 30 STRING,
     ATTRIBUTE ''Calling-Station-Id'' 31 STRING,
     ATTRIBUTE ''NAS-Identifier'' 32 STRING,
     ATTRIBUTE ''NAS-Port-Type'' 61 INTEGER,
     ATTRIBUTE ''EAP-Message'' 79 OCTETS,
     ATTRIBUTE ''Message-Authenticator'' 80 OCTETS,
     VENDOR ''Microsoft'' 311,
     BEGIN_VENDOR ''Microsoft'',
     ATTRIBUTE ''MS-MPPE-Send-Key'' 16 OCTETS,
     ATTRIBUTE ''MS-MPPE-Recv-Key'' 17 OCTETS,
     END_VENDOR ''Microsoft'']"

definition downstream_dict_data :: "dict_line list" where
  "downstream_dict_data =
    [ATTRIBUTE ''User-Name'' 1 STRING,
     ATTRIBUTE ''NAS-IP-Address'' 4 IPADDR,
     ATTRIBUTE ''NAS-Port'' 5 INTEGER,
     ATTRIBUTE ''Service-Type'' 6 INTEGER,
     ATTRIBUTE ''Framed-MTU'' 12 INTEGER,
     ATTRIBUTE ''State'' 24 OCTETS,
     ATTRIBUTE ''Class'' 25 OCTETS,
     ATTRIBUTE ''Called-Station-Id'' 30 STRING,
     ATTRIBUTE ''Calling-Station-Id'' 31 STRING,
     ATTRIBUTE ''NAS-Identifier'' 32 STRING,
     ATTRIBUTE ''NAS-Port-Type'' 61 INTEGER,
     ATTRIBUTE ''EAP-Message'' 79 OCTETS,
     ATTRIBUTE ''Message-Authenticator'' 80 OCTETS,
     VENDOR ''Microsoft'' 311,
     BEGIN_VENDOR ''Microsoft'',
     ATTRIBUTE ''MS-MPPE-Send-Key'' 16 OCTETS,
     ATTRIBUTE ''MS-MPPE-Recv-Key'' 17 OCTETS,
     END_VENDOR ''Microsoft'']"

text \<open>The type a dictionary declares for a name.\<close>

primrec declared_kind :: "dict_line list \<Rightarrow> string \<Rightarrow> attr_kind option" where
  "declared_kind [] name = None"
| "declared_kind (l # ls) name =
     (case l of ATTRIBUTE n c k \<Rightarrow> if n = name then Some k else declared_kind ls name | _ \<Rightarrow> declared_kind ls name)"

text \<open>The values that fit a type: an integer attribute is an unsigned number of 32 bits.\<close>

fun fits :: "attr_kind \<Rightarrow> attr_value \<Rightarrow> bool" where
  "fits STRING (AText t) \<longleftrightarrow> True"
| "fits IPADDR (AText t) \<longleftrightarrow> True"
| "fits INTEGER (AInteger n) \<longleftrightarrow> 0 \<le> n \<and> n < 2 ^ 32"
| "fits OCTETS (AOctets b) \<longleftrightarrow> True"
| "fits _ _ \<longleftrightarrow> False"

definition fits_declared :: "dict_line list \<Rightarrow> string \<Rightarrow> attr_value \<Rightarrow> bool" where
  "fits_declared data name v \<longleftrightarrow> (case declared_kind data name of None \<Rightarrow> False | Some k \<Rightarrow> fits k v)"

fun known_call :: "dict_line list \<Rightarrow> request_call \<Rightarrow> bool" where
  "known_call data (SetAuthenticator a) \<longleftrightarrow> True"
| "known_call data (SetItem name v) \<longleftrightarrow> fits_declared data name v"
| "known_call data (AddAttribute name b) \<longleftrightarrow> fits_declared data name (AOctets b)"
| "known_call data AddMessageAuthenticator \<longleftrightarrow> declared_kind data ''Message-Authenticator'' = Some OCTETS"

lemma same_dictionary: "downstream_dict_data = upstream_dict_data"
  by (simp add: downstream_dict_data_def upstream_dict_data_def)

lemma declared_simps [simp]:
  "declared_kind upstream_dict_data ''User-Name'' = Some STRING"
  "declared_kind upstream_dict_data ''NAS-IP-Address'' = Some IPADDR"
  "declared_kind upstream_dict_data ''NAS-Port'' = Some INTEGER"
  "declared_kind upstream_dict_data ''Service-Type'' = Some INTEGER"
  "declared_kind upstream_dict_data ''Framed-MTU'' = Some INTEGER"
  "declared_kind upstream_dict_data ''State'' = Some OCTETS"
  "declared_kind upstream_dict_data ''Called-Station-Id'' = Some STRING"
  "declared_kind upstream_dict_data ''Calling-Station-Id'' = Some STRING"
  "declared_kind upstream_dict_data ''NAS-Identifier'' = Some STRING"
  "declared_kind upstream_dict_data ''NAS-Port-Type'' = Some INTEGER"
  "declared_kind upstream_dict_data ''EAP-Message'' = Some OCTETS"
  "declared_kind upstream_dict_data ''Message-Authenticator'' = Some OCTETS"
  "declared_kind upstream_dict_data ''MS-MPPE-Send-Key'' = Some OCTETS"
  "declared_kind upstream_dict_data ''MS-MPPE-Recv-Key'' = Some OCTETS"
  by (simp_all add: upstream_dict_data_def)

section \<open>What a request leaves in the session\<close>

text \<open>The values \<open>capture_attrs\<close> stores, and the session \<open>observe_request\<close> leaves, with an exception too.\<close>

primrec captured :: "ap_request \<Rightarrow> string list \<Rightarrow> (string \<times> attr_value) list" where
  "captured req [] = []"
| "captured req (name # names) =
     (case rq_any req name of
        None \<Rightarrow> captured req names
      | Some [] \<Rightarrow> []
      | Some (v # _) \<Rightarrow> (name, v) # captured req names)"

definition observed_session :: "ap_request \<Rightarrow> session \<Rightarrow> session" where
  "observed_session req s =
     s\<lparr>last_ap_authenticator := Some (rq_authenticator req),
       ap_attrs := (if ap_attrs s = [] then captured req forwarded_attrs else ap_attrs s)\<rparr>"

lemma capture_attrs_state:
  "capture_attrs req names (s, w) = Some (r, (s', w')) \<Longrightarrow> s' = s\<lparr>ap_attrs := ap_attrs s @ captured req names\<rparr>"
proof (induction names arbitrary: s)
  case (Cons n ns)
  show ?case
  proof (cases "rq_any req n")
    case (Some vs)
    then show ?thesis
      using Cons.prems Cons.IH [of "s\<lparr>ap_attrs := ap_attrs s @ [(n, hd vs)]\<rparr>"] by (cases vs) (auto simp: prog_simps)
  qed (use Cons in simp)
qed (simp add: prog_simps)

lemma observe_request_state:
  assumes "observe_request req (s, w) = Some (r, (s', w'))"
  shows "s' = observed_session req s"
  using assms capture_attrs_state [of req forwarded_attrs "s\<lparr>last_ap_authenticator := Some (rq_authenticator req)\<rparr>" w r s' w']
  by (auto simp: observe_request_def observed_session_def prog_simps split: if_splits)

lemma observed_session_sound [simp]: "sound (observed_session req s) = sound s"
  by (simp add: observed_session_def)

lemma observed_session_attrs:
  "ap_attrs (observed_session req s) = (if ap_attrs s = [] then captured req forwarded_attrs else ap_attrs s)"
  by (simp add: observed_session_def)

lemma captured_from:
  "(name, v) \<in> set (captured req names) \<Longrightarrow> name \<in> set names \<and> (\<exists>vs. rq_any req name = Some vs \<and> v \<in> set vs)"
  by (induction names) (auto split: option.splits list.splits)

lemma captured_distinct: "distinct names \<Longrightarrow> distinct (map fst (captured req names))"
  by (induction names) (auto dest: captured_from split: option.split list.split)

section \<open>A law of single sessions\<close>

text \<open>
  \<open>P\<close> is a law of sessions that recording a request of the kind \<open>Q\<close> keeps, that depends on
  what the mediator does not assign, and not on the correlation fields.
\<close>

locale session_law =
  fixes Q :: "ap_request \<Rightarrow> bool" and P :: "session \<Rightarrow> bool"
  assumes lawful_sound: "P s \<Longrightarrow> sound s"
    and created: "1 \<le> u \<Longrightarrow> u \<le> 65000 \<Longrightarrow> 1 \<le> d \<Longrightarrow> d \<le> 65000 \<Longrightarrow> P (new_session k m u d n addr now)"
    and observed: "P s \<Longrightarrow> Q req \<Longrightarrow> P (observed_session req s)"
    and carried: "P s \<Longrightarrow> same_identity s s' \<Longrightarrow> sound s' \<Longrightarrow> P s'"
    and relabelled: "P s \<Longrightarrow> P (s\<lparr>downstream_state := x\<rparr>)" "P s \<Longrightarrow> P (s\<lparr>key := k\<rparr>)"
begin

definition everywhere :: "session_table \<Rightarrow> bool" where
  "everywhere t \<longleftrightarrow> table_config_ok t \<and> (\<forall>k s. sessions t k = Some s \<longrightarrow> P s)"

lemma everywhere_upd: "everywhere t \<Longrightarrow> P s \<Longrightarrow> everywhere (store_session k s t)"
  by (simp add: everywhere_def table_config_ok_def store_session_def)

lemma everywhere_open: "everywhere t \<Longrightarrow> everywhere (snd (get_or_create k addr now t))"
  by (auto simp: everywhere_def table_config_ok_def get_or_create_def Let_def intro: created split: option.split if_splits)

lemma everywhere_rekey: "everywhere t \<Longrightarrow> everywhere (rekey a b t)"
  by (auto simp: everywhere_def table_config_ok_def rekey_def intro: relabelled split: option.split if_splits)

lemma everywhere_drop: "everywhere t \<Longrightarrow> everywhere (drop_session k t)"
  by (auto simp: everywhere_def table_config_ok_def drop_session_def)

lemma on_session_keeps:
  assumes "\<And>s w r s' w'. P s \<Longrightarrow> m (s, w) = Some (r, (s', w')) \<Longrightarrow> P s'"
  shows "ses everywhere (on_session k m) (\<lambda>_. everywhere) (\<lambda>_. everywhere)"
proof -
  have "everywhere t'" if ok: "everywhere t" and run: "on_session k m (t, w) = Some (r, (t', w'))" for t w r t' w'
  proof (cases "sessions t k")
    case (Some s)
    then obtain s' where s': "m (s, w) = Some (r, (s', w'))" "t' = store_session k s' t"
      using run by (auto simp: on_session_Some split: option.splits)
    have "P s" using ok Some by (simp add: everywhere_def)
    then show ?thesis using everywhere_upd [OF ok assms] s' by simp
  qed (use ok run in \<open>simp add: on_session_def\<close>)
  then show ?thesis by (auto intro: sesI)
qed

lemma read_keeps: "ses everywhere (on_session k (getS f)) (\<lambda>_. everywhere) (\<lambda>_. everywhere)"
  by (rule on_session_keeps) (simp add: getS_apply)

lemma io_keeps: "ses everywhere (ioP f) (\<lambda>_. everywhere) (\<lambda>_. everywhere)"
  by (rule sesI) (auto simp: ioP_apply)

lemma lookup_keeps: "ses everywhere (lookup_session env st addr calling eap) (\<lambda>_. everywhere) (\<lambda>_. everywhere)"
  by (rule sesI) (auto simp: lookup_session_def Let_def intro: everywhere_open split: option.splits prod.splits)

lemma mint_keeps: "ses everywhere (mint_state env k) (\<lambda>_. everywhere) (\<lambda>_. everywhere)"
proof -
  have fresh: "ses everywhere (on_session k
        (bindP (ioP (\<lambda>w. case token_bytes env 16 w of (b, w') \<Rightarrow> (Inr b, w'))) (\<lambda>tok.
         thenP (modS (\<lambda>s. s\<lparr>downstream_state := Some tok\<rparr>)) (getS (\<lambda>s. (tok, key s))))))
      (\<lambda>_. everywhere) (\<lambda>_. everywhere)"
    by (rule on_session_keeps)
      (auto simp: bindP_def ioP_apply thenP_modS getS_apply intro: relabelled split: prod.splits)
  show ?thesis
    unfolding mint_state_def Let_def case_prod_beta
    by (intro ses_bindP [OF read_keeps] ses_option ses_returnP ses_bindP [OF fresh [unfolded case_prod_beta]]
        ses_modS [where P' = everywhere]) (simp_all add: everywhere_rekey)
qed

lemma add_calls_keeps: "ses everywhere (add_calls env req calls cs) (\<lambda>_. everywhere) (\<lambda>_. everywhere)"
  by (rule ses_add_calls)

lemma build_reply_keeps: "ses everywhere (build_reply env req k out) (\<lambda>_. everywhere) (\<lambda>_. everywhere)"
  unfolding build_reply_def case_prod_beta
  by (intro ses_bindP [where R = "\<lambda>_. everywhere"] ses_if read_keeps mint_keeps add_calls_keeps ses_returnP)

lemma finish_keeps: "ses everywhere (finish_session env k) (\<lambda>_. everywhere) (\<lambda>_. everywhere)"
  unfolding finish_session_def case_prod_beta
  by (intro ses_bindP [OF read_keeps] ses_if ses_thenP [OF io_keeps] ses_returnP ses_modS_last) (simp_all add: everywhere_drop)

lemma route_keeps:
  assumes "upstream_send env = send_eap net client" and "Q req"
  shows "ses everywhere (on_session k (thenP (observe_request req) (route env eap u ca ce))) (\<lambda>_. everywhere) (\<lambda>_. everywhere)"
proof (rule on_session_keeps)
  fix s w r s' w'
  assume P: "P s" and "thenP (observe_request req) (route env eap u ca ce) (s, w) = Some (r, (s', w'))"
  then obtain r1 s1 w1 where obs: "observe_request req (s, w) = Some (r1, (s1, w1))"
    and rest: "s' = s1 \<or> route env eap u ca ce (s1, w1) = Some (r, (s', w'))"
    by (auto simp: thenP_def bindP_def split: option.splits sum.splits)
  have s1: "P s1" using observed [OF P assms(2)] observe_request_state [OF obs] by simp
  from rest show "P s'"
  proof
    assume "route env eap u ca ce (s1, w1) = Some (r, (s', w'))"
    then show ?thesis using leg.route_run [OF assms(1) lawful_sound [OF s1]] carried [OF s1] by blast
  qed (use s1 in simp)
qed

lemma serve_request_keeps:
  assumes "upstream_send env = send_eap net client" and "Q req"
  shows "ses everywhere (serve_request env req parts addr) (\<lambda>_. everywhere) (\<lambda>_. everywhere)"
  unfolding serve_request_def Let_def case_prod_beta
  by (intro ses_bindP [where R = "\<lambda>_. everywhere"] ses_thenP [where R = everywhere] ses_liftP
      lookup_keeps route_keeps [OF assms] build_reply_keeps io_keeps finish_keeps) simp_all

lemma handle_datagram_keeps:
  assumes "upstream_send env = send_eap net client" and "\<And>octets req. auth_packet env octets = Inr req \<Longrightarrow> Q req"
    and "everywhere t" and "handle_datagram env octets addr (t, w) = Some (r, (t', w'))"
  shows "everywhere t'"
  using assms(4)
proof (cases rule: handle_datagram_cases)
  case (taken req parts)
  note step = serve_request_keeps [OF assms(1) assms(2) [OF taken(1)], of parts addr]
  show ?thesis using ses_Inr [OF step assms(3)] ses_Inl [OF step assms(3)] taken(3) by (cases r) auto
qed (use assms(3) in simp)

lemma run_keeps_law:
  assumes "server_run env (t0, w0) tw" and "upstream_send env = send_eap net client"
    and "\<And>octets req. auth_packet env octets = Inr req \<Longrightarrow> Q req" and "everywhere t0"
  shows "everywhere (fst tw)"
  using assms(1)
proof (induction rule: server_run.induct)
  case (run_datagram tw1 octets addr r tw2)
  then show ?case
    using handle_datagram_keeps [OF assms(2,3), where t = "fst tw1" and w = "snd tw1" and t' = "fst tw2" and w' = "snd tw2"] by simp
qed (use assms(4) in simp_all)

lemma new_table_lawful:
  "1 \<le> u \<Longrightarrow> u \<le> 65000 \<Longrightarrow> 1 \<le> d \<Longrightarrow> d \<le> 65000 \<Longrightarrow> everywhere (new_session_table m u d n idle)"
  by (simp add: everywhere_def table_config_ok_def new_session_table_def)

end

section \<open>What the access point sent is replayed as it was declared\<close>

text \<open>A decoded request whose attributes have values of their declared types.\<close>

definition typed_request :: "ap_request \<Rightarrow> bool" where
  "typed_request req \<longleftrightarrow>
     (\<forall>name vs v. rq_any req name = Some vs \<longrightarrow> v \<in> set vs \<longrightarrow> fits_declared downstream_dict_data name v)"

definition typed_session :: "session \<Rightarrow> bool" where
  "typed_session s \<longleftrightarrow> sound s \<and> distinct (map fst (ap_attrs s)) \<and>
     (\<forall>(name, v) \<in> set (ap_attrs s). name \<in> set forwarded_attrs \<and> fits_declared downstream_dict_data name v)"

lemma distinct_forwarded: "distinct forwarded_attrs"
  by (simp add: forwarded_attrs_def)

interpretation typed: session_law typed_request typed_session
proof
  show "typed_session (new_session k m u d n addr now)" if "1 \<le> u" "u \<le> 65000" "1 \<le> d" "d \<le> 65000" for k m u d n addr now
    using new_session_sound [OF that] by (simp add: typed_session_def) (simp add: new_session_def)
  show "typed_session (observed_session req s)" if "typed_session s" "typed_request req" for s req
  proof (cases "ap_attrs s = []")
    case True
    then show ?thesis
      using that captured_distinct [OF distinct_forwarded]
      by (auto simp: typed_session_def typed_request_def observed_session_attrs dest!: captured_from)
  next
    case False
    then show ?thesis using that by (simp add: typed_session_def observed_session_attrs)
  qed
qed (auto simp: typed_session_def same_identity_def sound_def regular_def queued_def)


text \<open>Every call that builds the upstream request, and every call that builds a reply, is known.\<close>

lemma known_split: "list_all (known_call upstream_dict_data) (map (AddAttribute ''EAP-Message'') bs)"
  by (induction bs) (simp_all add: fits_declared_def)

lemma replayed_known:
  assumes "name \<in> set forwarded_attrs" and "fits_declared downstream_dict_data name v"
    and "case ov of None \<Rightarrow> True | Some n \<Rightarrow> 0 \<le> n \<and> n < 2 ^ 32"
  shows "list_all (known_call upstream_dict_data) (replay_attr strip ov (name, v))"
  using assms by (auto simp: replay_attr_def same_dictionary fits_declared_def split: option.splits)

lemma build_request_known:
  assumes "typed_session s'" and "ap_attrs s = ap_attrs s'" and "case framed_mtu_override client of None \<Rightarrow> True | Some n \<Rightarrow> 0 \<le> n \<and> n < 2 ^ 32"
  shows "list_all (known_call upstream_dict_data) (build_request client s eap user st calling called)"
proof -
  have "list_all (known_call upstream_dict_data) (concat (map (replay_attr strip ov) (ap_attrs s)))"
    if "ov = None \<or> ov = framed_mtu_override client" for strip ov
  proof -
    have "case ov of None \<Rightarrow> True | Some n \<Rightarrow> 0 \<le> n \<and> n < 2 ^ 32" using that assms(3) by auto
    then show ?thesis
      using assms(1,2) replayed_known [where ov = ov and strip = strip]
      by (fastforce simp: typed_session_def list_all_iff simp del: known_call.simps)
  qed
  then show ?thesis
    by (simp add: build_request_def Let_def known_split set_if_text_def fits_declared_def split: option.split)
qed

lemma eap_calls_known: "list_all (known_call downstream_dict_data) (eap_calls e)"
  by (simp add: eap_calls_def same_dictionary known_split split: option.split)

text \<open>Results that satisfy a predicate, in any state.\<close>

abbreviation gives :: "('o \<times> 'w, 'a) prog \<Rightarrow> ('a \<Rightarrow> bool) \<Rightarrow> bool" where
  "gives m A \<equiv> ses (\<lambda>_. True) m (\<lambda>x _. A x) (\<lambda>_ _. True)"

lemma gives_bindP: "gives m B \<Longrightarrow> (\<And>x. B x \<Longrightarrow> gives (k x) A) \<Longrightarrow> gives (bindP m k) A"
  unfolding ses_def hoare_def by (fastforce simp: bindP_def split: option.splits sum.splits)

lemma gives_add_calls:
  "list_all K calls \<Longrightarrow> list_all K cs \<Longrightarrow> gives (add_calls env req calls cs) (list_all K)"
  by (rule sesI) (auto dest!: add_calls_run)

lemma gives_read: "(\<And>s. A (f s)) \<Longrightarrow> gives (on_session k (getS f)) A"
  by (rule sesI) (auto simp: on_session_def getS_apply split: option.splits)

lemma gives_any: "gives m (\<lambda>_. True)"
  by (rule sesI) simp_all

lemma build_reply_known:
  "gives (build_reply env req k out) (\<lambda>(c, calls, k'). list_all (known_call downstream_dict_data) calls)"
proof -
  let ?K = "list_all (known_call downstream_dict_data)"
  have octets: "?K (set_if_octets name v)" if "declared_kind downstream_dict_data name = Some OCTETS" for name v
    using that by (simp add: set_if_octets_def fits_declared_def split: option.split)
  have keys: "?K (set_if_octets ''MS-MPPE-Send-Key'' a @ set_if_octets ''MS-MPPE-Recv-Key'' b)"
    "?K (set_if_octets ''State'' c)" for a b c
    using octets by (simp_all add: same_dictionary)
  have step: "gives (bindP (on_session j (getS f)) (\<lambda>cs. bindP (add_calls env req [] cs) (\<lambda>calls. returnP (c, calls, j))))
      (\<lambda>(c, calls, k'). ?K calls)" if "\<And>s. ?K (f s)" for j f c
    by (rule gives_bindP [OF gives_read [where A = "?K"]], rule that, rule gives_bindP [OF gives_add_calls [where K = "known_call downstream_dict_data"]])
      (auto intro: ses_returnP)
  have front: "gives
      (if action out = Accept then
         bindP (on_session k (getS (\<lambda>s. set_if_octets ''MS-MPPE-Send-Key'' (ms_mppe_send_key s) @
                                        set_if_octets ''MS-MPPE-Recv-Key'' (ms_mppe_recv_key s)))) (\<lambda>keys.
         bindP (add_calls env req [] keys) (\<lambda>calls. returnP (AccessAccept, calls, k)))
       else if action out = Reject then returnP (AccessReject, [], k)
       else
         bindP (mint_state env k) (\<lambda>k'.
         bindP (on_session k' (getS (\<lambda>s. set_if_octets ''State'' (downstream_state s)))) (\<lambda>st.
         bindP (add_calls env req [] st) (\<lambda>calls. returnP (AccessChallenge, calls, k')))))
      (\<lambda>(c, calls, k'). ?K calls)"
    by (intro ses_if step keys gives_bindP [OF gives_any] ses_returnP) simp
  have tail: "gives (bindP (add_calls env req calls (eap_calls (eap_bytes out))) (\<lambda>calls'. returnP (c, calls', k')))
      (\<lambda>(c, calls, k'). ?K calls)" if "?K calls" for c :: nat and calls and k' :: string
    by (rule gives_bindP [OF gives_add_calls [OF that eap_calls_known]]) (auto intro: ses_returnP)
  show ?thesis
    unfolding build_reply_def by (rule gives_bindP [OF front]) (auto intro: tail)
qed

section \<open>Everything the proxy encodes is in its dictionaries\<close>

text \<open>
  C16: whatever the access points send, in whatever order, the proxy asks pyrad only for what
  its dictionaries declare: an upstream request, built at any moment while the mediator serves
  a request on a stored or a new session, and every reply name declared attributes only, with
  values of the declared type. So no conversation dies of a name pyrad does not know. What the
  access point sent has the declared types because pyrad decoded it with the same dictionary.
\<close>

theorem attributes_known:
  assumes "server_run env (new_session_table m u d n idle, w0) (t, w)" and "upstream_send env = send_eap net client"
    and "1 \<le> u" and "u \<le> 65000" and "1 \<le> d" and "d \<le> 65000"
    and "\<And>octets req. auth_packet env octets = Inr req \<Longrightarrow> typed_request req"
    and "case framed_mtu_override client of None \<Rightarrow> True | Some n \<Rightarrow> 0 \<le> n \<and> n < 2 ^ 32"
    and "auth_packet env octets = Inr req" and "lookup_session env st addr calling eap (t, w) = Some (Inr k, (t1, w1))"
    and "sessions t1 k = Some s" and "observe_request req (s, w1) = Some (r, (s1, w2))" and "ap_attrs s2 = ap_attrs s1"
  shows "list_all (known_call upstream_dict_data) (build_request client s2 e user st2 calling2 called2) \<and>
    (case build_reply env req2 k2 out tw of
       Some (Inr (c, calls, k3), tw') \<Rightarrow> list_all (known_call downstream_dict_data) calls
     | _ \<Rightarrow> True)"
proof -
  have "typed.everywhere t"
    using typed.run_keeps_law [OF assms(1,2,7) typed.new_table_lawful [OF assms(3-6)]] by simp
  then have "typed.everywhere t1" by (rule ses_Inr [OF typed.lookup_keeps _ assms(10)])
  then have "typed_session s" using assms(11) by (simp add: typed.everywhere_def)
  then have "typed_session s1"
    using typed.observed [OF _ assms(7) [OF assms(9)]] observe_request_state [OF assms(12)] by simp
  then have up: "list_all (known_call upstream_dict_data) (build_request client s2 e user st2 calling2 called2)"
    by (rule build_request_known [OF _ assms(13,8)])
  have "list_all (known_call downstream_dict_data) calls"
    if "build_reply env req2 k2 out tw = Some (Inr (c, calls, k3), tw')" for c calls k3 tw'
    using that ses_Inr [OF build_reply_known, where s = "fst tw" and w = "snd tw"] by (cases tw') fastforce
  then show ?thesis using up by (auto split: option.split sum.split)
qed

text \<open>An access point that sends its Framed-MTU.\<close>

definition mtu_request :: "bytes \<Rightarrow> ap_request" where
  "mtu_request b = (lab_request None b)\<lparr>rq_any := Map.empty(''Framed-MTU'' \<mapsto> [AInteger 1400])\<rparr>"

definition mtu_env :: "bytes list server_env" where
  "mtu_env = (lab_env None start_server)\<lparr>auth_packet := \<lambda>b. Inr (mtu_request b)\<rparr>"

theorem attributes_known_witness:
  "\<exists>s1. ap_attrs s1 = [(''Framed-MTU'', AInteger 1400)] \<and>
    SetItem ''Framed-MTU'' (AInteger 60000) \<in> set (build_request lab_client s1 [2, 1, 0, 4] ''u'' None None None) \<and>
    list_all (known_call upstream_dict_data) (build_request lab_client s1 [2, 1, 0, 4] ''u'' None None None)"
proof -
  let ?k = "lookup_key None (''ap'', 1812) None [2, 1, 0, 4]"
  let ?s = "new_session ?k ''reassemble'' 60000 1000 262144 (Some (''ap'', 1812)) 1"
  let ?s1 = "?s\<lparr>last_ap_authenticator := Some (replicate 16 0), ap_attrs := [(''Framed-MTU'', AInteger 1400)]\<rparr>"
  have run: "server_run mtu_env (new_session_table ''reassemble'' 60000 1000 262144 30, []) (lab_table, [])"
    unfolding lab_table_def by (rule run_start)
  have send: "upstream_send mtu_env = send_eap (constant_net (eap_reply 11 [1, 2, 0, 6, 13, 0x20])) lab_client"
    by (simp add: mtu_env_def start_server_def)
  have request: "auth_packet mtu_env [] = Inr (mtu_request [])" by (simp add: mtu_env_def)
  have any: "rq_any (mtu_request b) = Map.empty(''Framed-MTU'' \<mapsto> [AInteger 1400])"
    "rq_authenticator (mtu_request b) = replicate 16 0" for b
    by (simp_all add: mtu_request_def lab_request_def)
  then have typed: "typed_request req" if "auth_packet mtu_env b = Inr req" for b req
    using that by (auto simp: mtu_env_def typed_request_def fits_declared_def same_dictionary split: if_splits)
  obtain t where look: "lookup_session mtu_env None (''ap'', 1812) None [2, 1, 0, 4] (lab_table, []) = Some (Inr ?k, (t, []))"
    "sessions t ?k = Some ?s"
    by (simp add: lookup_session_def lab_table_def new_session_table_def lab_clock_def get_or_create_def Let_def mtu_env_def)
  have fresh: "ap_attrs ?s = []" "mode ?s = ''reassemble''" by (simp_all add: new_session_def)
  have obs: "observe_request (mtu_request []) (?s, [] :: bytes list) = Some (Inr (), (?s1, []))"
    by (simp add: observe_request_def forwarded_attrs_def any prog_simps fresh)
  have range: "case framed_mtu_override lab_client of None \<Rightarrow> True | Some n \<Rightarrow> 0 \<le> n \<and> n < 2 ^ 32"
    by (simp add: lab_client_def)
  have "SetItem ''Framed-MTU'' (AInteger 60000) \<in> set (build_request lab_client ?s1 [2, 1, 0, 4] ''u'' None None None)"
    using fresh by (simp add: build_request_def lab_client_def replay_attr_def)
  then show ?thesis
    using attributes_known [OF run send _ _ _ _ typed range request look obs refl, where e = "[2, 1, 0, 4]"
        and user = "''u''" and ?st2.0 = None and ?calling2.0 = None and ?called2.0 = None]
    by (intro exI [of _ ?s1]) simp
qed

end
