(* ===== verification/Proxy_Main.thy ===== *)
theory Proxy_Main
  imports Command_Line Radius_Dictionary
begin

text \<open>
  \<open>main\<close> of \<open>proxy/proxy.py\<close>, \<open>DownstreamServer.__init__\<close> and \<open>serve_forever\<close>: the program from
  its command line to the receive loop, over everything the other theories model. The file
  system, the YAML parser, pyrad, the sockets and the clocks are the parameter \<open>main_env\<close>; the
  log lines are left out. What arrives at the socket is a list: datagrams, an error of the
  receive call, or the operator's interrupt of that call. An interrupt while a datagram is handled
  comes out of the call it hits, as \<open>KeyboardInterrupt\<close>.

  The lemmas show that what \<open>main\<close> builds is fit to serve, that it serves until it is
  interrupted, and what can end it otherwise.
\<close>

section \<open>The server object and its loop\<close>

record downstream_server =
  ds_host :: yaml
  ds_port :: yaml
  ds_secret :: bytes

definition new_downstream_server :: "downstream_config \<Rightarrow> py_error + downstream_server" where
  "new_downstream_server d =
     bind_error (secret_octets (down_shared_secret d)) (\<lambda>s.
       Inr \<lparr>ds_host = listen_host d, ds_port = listen_port d, ds_secret = s\<rparr>)"

datatype arrival = Datagram bytes address | Receive_error py_error | Interrupt

text \<open>
  What ends the loop, if anything does before the arrivals are used up. The \<open>try\<close> is around the
  handling of a datagram, not around the receive call, and catches \<open>Exception\<close>.
\<close>

primrec serve_forever ::
  "'w server_env \<Rightarrow> arrival list \<Rightarrow> session_table \<times> 'w \<Rightarrow> (py_error option \<times> (session_table \<times> 'w)) option" where
  "serve_forever env [] tw = Some (None, tw)"
| "serve_forever env (x # xs) tw =
     (case x of
        Datagram octets addr \<Rightarrow>
          (case handle_datagram env octets addr tw of
             None \<Rightarrow> None
           | Some (r, tw') \<Rightarrow> if r = Inl KeyboardInterrupt then Some (Some KeyboardInterrupt, tw') else serve_forever env xs tw')
      | Receive_error e \<Rightarrow> Some (Some e, tw)
      | Interrupt \<Rightarrow> Some (Some KeyboardInterrupt, tw))"

section \<open>\<open>main\<close>\<close>

text \<open>\<open>radius_world\<close> is pyrad and the server's socket for a shared secret, \<open>upstream_world\<close> pyrad's client.\<close>

record 'v main_env =
  file_exists :: "string \<Rightarrow> bool"
  package_config :: string
  default_output_dir :: string
  read_yaml :: "string \<Rightarrow> 'v \<Rightarrow> (py_error + yaml) \<times> 'v"
  report_world :: "'v report_env"
  radius_world :: "bytes \<Rightarrow> (reporter \<times> 'v) server_env"
  upstream_world :: "upstream_client \<Rightarrow> (reporter \<times> 'v) upstream_net"
  bind_socket :: "yaml \<Rightarrow> yaml \<Rightarrow> 'v \<Rightarrow> (py_error + unit) \<times> 'v"

definition worldP :: "('v \<Rightarrow> (py_error + 'a) \<times> 'v) \<Rightarrow> ('v, 'a) prog" where
  "worldP f = (\<lambda>v. Some (f v))"

text \<open>A part the configuration has no typed counterpart for is outside the model.\<close>

definition knownP :: "'a option \<Rightarrow> ('v, 'a) prog" where
  "knownP x = (case x of None \<Rightarrow> (\<lambda>v. None) | Some y \<Rightarrow> returnP y)"

definition main_parts ::
  "'v main_env \<Rightarrow> cli_args \<Rightarrow> ('v, session_table \<times> upstream_client \<times> reporter \<times> downstream_server) prog" where
  "main_parts env args =
     bindP (worldP (read_yaml env (resolve_config (file_exists env) (package_config env) (arg_config args)))) (\<lambda>raw.
     bindP (liftP (main_config (default_output_dir env) raw args)) (\<lambda>cfg.
     bindP (knownP (built_table cfg)) (\<lambda>t.
     bindP (knownP (built_client cfg)) (\<lambda>c.
     bindP (liftP c) (\<lambda>client.
     bindP (knownP (text_of (cfg_output_dir cfg))) (\<lambda>dir.
     bindP (worldP (new_reporter (report_world env) dir)) (\<lambda>rep.
     bindP (liftP (new_downstream_server (cfg_downstream cfg))) (\<lambda>srv.
     returnP (t, client, rep, srv)))))))))"

definition server_env_of ::
  "'v main_env \<Rightarrow> upstream_client \<Rightarrow> downstream_server \<Rightarrow> (reporter \<times> 'v) server_env" where
  "server_env_of env client srv =
     (radius_world env (ds_secret srv))
       \<lparr>upstream_send := send_eap (upstream_world env client) client, report := report_op (report_world env)\<rparr>"

datatype main_end = Exit nat | Listening

text \<open>\<open>except KeyboardInterrupt\<close>; any other exception of the loop goes on.\<close>

fun loop_result :: "py_error option \<times> (session_table \<times> (reporter \<times> 'v)) \<Rightarrow> (py_error + main_end \<times> session_table) \<times> 'v" where
  "loop_result (None, (t, (rep, v))) = (Inr (Listening, t), v)"
| "loop_result (Some e, (t, (rep, v))) = (if e = KeyboardInterrupt then Inr (Exit 0, t) else Inl e, v)"

definition run_server ::
  "'v main_env \<Rightarrow> session_table \<times> upstream_client \<times> reporter \<times> downstream_server \<Rightarrow> arrival list \<Rightarrow>
   ('v, main_end \<times> session_table) prog" where
  "run_server env parts xs v =
     (case parts of (t, client, rep, srv) \<Rightarrow>
        case bind_socket env (ds_host srv) (ds_port srv) v of
          (Inl e, v1) \<Rightarrow> Some (loop_result (Some e, (t, (rep, v1))))
        | (Inr _, v1) \<Rightarrow> map_option loop_result (serve_forever (server_env_of env client srv) xs (t, (rep, v1))))"

definition escaping :: "('v, 'a) prog \<Rightarrow> 'v \<Rightarrow> ((escape + 'a) \<times> 'v) option" where
  "escaping m v = map_option (\<lambda>(x, v'). (map_sum Escape id x, v')) (m v)"

definition main :: "'v main_env \<Rightarrow> string list \<Rightarrow> arrival list \<Rightarrow> 'v \<Rightarrow> ((escape + main_end \<times> session_table) \<times> 'v) option" where
  "main env argv xs v =
     (case parse_args argv of
        Inl e \<Rightarrow> Some (Inl e, v)
      | Inr args \<Rightarrow> escaping (bindP (main_parts env args) (\<lambda>parts. run_server env parts xs)) v)"

section \<open>The loop\<close>

definition datagrams :: "(bytes \<times> address) list \<Rightarrow> arrival list" where
  "datagrams ds = map (\<lambda>d. Datagram (fst d) (snd d)) ds"

lemma serve_forever_served:
  "serve env ds tw = Some tw' \<Longrightarrow> serve_forever env (datagrams ds @ xs) tw = serve_forever env xs tw'"
  by (induction ds arbitrary: tw) (auto simp: datagrams_def split: option.splits if_splits)

lemma serve_forever_run:
  "server_run env tw0 tw \<Longrightarrow> serve_forever env xs tw = Some (e, tw') \<Longrightarrow> server_run env tw0 tw'"
proof (induction xs arbitrary: tw)
  case (Cons x xs)
  show ?case
  proof (cases x)
    case (Datagram octets addr)
    then obtain r tw1 where step: "handle_datagram env octets addr tw = Some (r, tw1)"
      and rest: "tw' = tw1 \<or> serve_forever env xs tw1 = Some (e, tw')"
      using Cons.prems(2) by (auto split: option.splits if_splits)
    then show ?thesis using run_datagram [OF Cons.prems(1) step] Cons.IH by blast
  qed (use Cons.prems in auto)
qed simp

text \<open>What ends the loop is among the arrivals, or an interrupt.\<close>

lemma serve_forever_ends:
  "serve_forever env xs tw = Some (Some e, tw') \<Longrightarrow> e = KeyboardInterrupt \<or> Receive_error e \<in> set xs"
  by (induction xs arbitrary: tw) (auto split: arrival.splits option.splits if_splits)

section \<open>What is built\<close>

lemma knownP_Some: "bindP (knownP x) k v = Some y \<longleftrightarrow> (\<exists>z. x = Some z \<and> k z v = Some y)"
  by (cases x) (simp_all add: knownP_def bindP_def returnP_def)

lemma worldP_Inr: "bindP (worldP f) k v = Some (Inr y, v') \<longleftrightarrow> (\<exists>x v1. f v = (Inr x, v1) \<and> k x v1 = Some (Inr y, v'))"
  by (cases "f v"; cases "fst (f v)") (auto simp: worldP_def bindP_def)

lemma liftP_Inr: "bindP (liftP r) k v = Some (Inr y, v') \<longleftrightarrow> (\<exists>x. r = Inr x \<and> k x v = Some (Inr y, v'))"
  by (cases r) (auto simp: liftP_def bindP_def)

lemma main_parts_Inr:
  assumes "main_parts env args v = Some (Inr (t, client, rep, srv), v')"
  obtains raw cfg where "main_config (default_output_dir env) raw args = Inr cfg" "built_table cfg = Some t"
    "built_client cfg = Some (Inr client)" "new_downstream_server (cfg_downstream cfg) = Inr srv"
  using assms by (auto simp: main_parts_def knownP_Some worldP_Inr liftP_Inr returnP_def)

lemma run_server_Inr:
  assumes "run_server env (t, client, rep, srv) xs v = Some (Inr (fin, t'), v')"
  obtains "t' = t"
  | v1 e rep' where "serve_forever (server_env_of env client srv) xs (t, (rep, v1)) = Some (e, (t', (rep', v')))"
  using assms
  by (auto simp: run_server_def elim!: loop_result.elims split: prod.splits sum.splits if_splits)

lemma main_Inr:
  assumes "main env argv xs v = Some (Inr y, v')"
  obtains args parts v1 where "parse_args argv = Inr args" "main_parts env args v = Some (Inr parts, v1)"
    "run_server env parts xs v1 = Some (Inr y, v')"
proof -
  obtain args where args: "parse_args argv = Inr args" using assms by (cases "parse_args argv") (auto simp: main_def)
  then obtain x where "bindP (main_parts env args) (\<lambda>parts. run_server env parts xs) v = Some (x, v')" "map_sum Escape id x = Inr y"
    using assms by (auto simp: main_def escaping_def)
  then have "bindP (main_parts env args) (\<lambda>parts. run_server env parts xs) v = Some (Inr y, v')" by (cases x) simp_all
  then show ?thesis using args that by (auto simp: bindP_eq_Some_Inr)
qed

text \<open>
  C14: whatever the command line, the file and the arrivals are: when \<open>main\<close> has been interrupted,
  or is listening, every session it holds is well formed and under its own key, is in one of the
  two modes, has fragment sizes within 1 and 65000 and room for at least 4096 octets each way, and
  is keyed by its State if it has one.
\<close>

theorem main_sessions_fit:
  assumes "main env argv xs v = Some (Inr (fin, t), v')" and "sessions t k = Some s"
  shows "sound s \<and> key s = k \<and> mode s \<in> {''reassemble'', ''passthrough''} \<and>
    1 \<le> upstream_fragment_size s \<and> upstream_fragment_size s \<le> 65000 \<and>
    1 \<le> downstream_fragment_size s \<and> downstream_fragment_size s \<le> 65000 \<and>
    4096 \<le> max_message_len (up_reasm s) \<and> 4096 \<le> max_message_len (down_reasm s) \<and>
    (\<forall>st. downstream_state s = Some st \<longrightarrow> k = ''st:'' @ bytes_hex st)"
proof -
  obtain args t0 client rep srv v1 where parts: "main_parts env args v = Some (Inr (t0, client, rep, srv), v1)"
    and ran: "run_server env (t0, client, rep, srv) xs v1 = Some (Inr (fin, t), v')"
    by (rule main_Inr [OF assms(1)]) (metis surj_pair)
  obtain raw cfg where cfg: "main_config (default_output_dir env) raw args = Inr cfg" "built_table cfg = Some t0"
    "built_client cfg = Some (Inr client)"
    by (rule main_parts_Inr [OF parts])
  note fit = configured_parts_fit [OF cfg]
  have send: "upstream_send (server_env_of env client srv) = send_eap (upstream_world env client) client"
    by (simp add: server_env_of_def)
  have "table_ok t \<and> same_config t0 t"
    using ran
  proof (cases rule: run_server_Inr)
    case (2 v2 e rep')
    then have run: "server_run (server_env_of env client srv) (t0, (rep, v2)) (t, (rep', v'))"
      by (intro serve_forever_run [OF run_start])
    show ?thesis using run_keeps [OF run send fit(1)] by simp
  qed (use fit(1) in simp)
  then show ?thesis
    using stored_ok [OF _ assms(2)] same_config_fields [of t0 t] fit(1,3,4)
    by (auto simp: session_ok_def state_key_def table_ok_def table_config_ok_def)
qed

lemma main_bound:
  assumes "parse_args argv = Inr args" and "main_parts env args v = Some (Inr (t, client, rep, srv), v1)"
    and "bind_socket env (ds_host srv) (ds_port srv) v1 = (Inr (), v2)"
  shows "main env argv ys v =
    map_option (\<lambda>y. case loop_result y of (x, v') \<Rightarrow> (map_sum Escape id x, v'))
      (serve_forever (server_env_of env client srv) ys (t, (rep, v2)))"
  using assms by (simp add: main_def escaping_def bindP_def run_server_def option.map_comp comp_def)

text \<open>
  C13: once the parts are built and the socket is bound, and as long as the authentication server's
  fragments carry data, the program serves every datagram that comes, listens for more, and
  returns 0 when the operator interrupts it, with the table as the datagrams left it. An interrupt
  that hits the handling of a datagram ends the program with 0 too, with the table as it was then;
  what arrives later is not looked at.
\<close>

theorem main_serves:
  assumes "parse_args argv = Inr args" and "main_parts env args v = Some (Inr (t, client, rep, srv), v1)"
    and "bind_socket env (ds_host srv) (ds_port srv) v1 = (Inr (), v2)"
    and "progressive (send_eap (upstream_world env client) client)"
  shows "(calm (server_env_of env client srv) \<longrightarrow>
      (\<exists>t' rep' v3. serve (server_env_of env client srv) ds (t, (rep, v2)) = Some (t', (rep', v3)) \<and>
        main env argv (datagrams ds) v = Some (Inr (Listening, t'), v3) \<and>
        main env argv (datagrams ds @ Interrupt # xs) v = Some (Inr (Exit 0, t'), v3))) \<and>
    (\<forall>tw d t' rep' v3. serve (server_env_of env client srv) ds (t, (rep, v2)) = Some tw \<longrightarrow>
      handle_datagram (server_env_of env client srv) (fst d) (snd d) tw = Some (Inl KeyboardInterrupt, (t', (rep', v3))) \<longrightarrow>
      main env argv (datagrams (ds @ [d]) @ xs) v = Some (Inr (Exit 0, t'), v3))"
proof (intro conjI impI allI)
  let ?env = "server_env_of env client srv"
  note run = main_bound [OF assms(1-3)]
  assume calm: "calm ?env"
  have send: "upstream_send ?env = send_eap (upstream_world env client) client"
    by (simp add: server_env_of_def)
  obtain t' rep' v3 where served: "serve ?env ds (t, (rep, v2)) = Some (t', (rep', v3))"
    using calm_serves [OF assms(4) send calm, of ds "(t, (rep, v2))"] by (metis surj_pair)
  then show "\<exists>t' rep' v3. serve ?env ds (t, (rep, v2)) = Some (t', (rep', v3)) \<and>
      main env argv (datagrams ds) v = Some (Inr (Listening, t'), v3) \<and>
      main env argv (datagrams ds @ Interrupt # xs) v = Some (Inr (Exit 0, t'), v3)"
    using run serve_forever_served [OF served, of "[]"] serve_forever_served [OF served, of "Interrupt # xs"] by simp
next
  let ?env = "server_env_of env client srv"
  fix tw d t' rep' v3
  assume served: "serve ?env ds (t, (rep, v2)) = Some tw"
    and cut: "handle_datagram ?env (fst d) (snd d) tw = Some (Inl KeyboardInterrupt, (t', (rep', v3)))"
  have "datagrams (ds @ [d]) @ xs = datagrams ds @ Datagram (fst d) (snd d) # xs" by (simp add: datagrams_def)
  then show "main env argv (datagrams (ds @ [d]) @ xs) v = Some (Inr (Exit 0, t'), v3)"
    using main_bound [OF assms(1-3)] serve_forever_served [OF served, of "Datagram (fst d) (snd d) # xs"] cut by simp
qed

text \<open>
  C15: an exception leaves \<open>main\<close> in two ways only: at start-up, whatever arrives later, or out
  of the receive call. No datagram, from anybody, makes the program end with an exception.
\<close>

theorem main_errors:
  assumes "main env argv xs v = Some (Inl e, v')"
  shows "(\<forall>ys. main env argv ys v = Some (Inl e, v')) \<or> (\<exists>e'. e = Escape e' \<and> Receive_error e' \<in> set xs)"
proof (cases "parse_args argv")
  case (Inl e')
  then show ?thesis using assms by (simp add: main_def)
next
  case (Inr args)
  show ?thesis
  proof (cases "\<exists>e v1. main_parts env args v = Some (Inl e, v1)")
    case True
    then show ?thesis using assms Inr by (auto simp: main_def escaping_def bindP_def)
  next
    case False
    then obtain t client rep srv v1 where parts: "main_parts env args v = Some (Inr (t, client, rep, srv), v1)"
      using assms Inr by (fastforce simp: main_def escaping_def bindP_def split: option.splits sum.splits)
    show ?thesis
    proof (cases "bind_socket env (ds_host srv) (ds_port srv) v1")
      case (Pair r v2)
      show ?thesis
      proof (cases r)
        case (Inl e')
        then show ?thesis using assms Pair Inr parts by (simp add: main_def escaping_def bindP_def run_server_def)
      next
        case (Inr u)
        then have bound: "bind_socket env (ds_host srv) (ds_port srv) v1 = (Inr (), v2)" using Pair by simp
        obtain y where "serve_forever (server_env_of env client srv) xs (t, (rep, v2)) = Some y"
          "(case loop_result y of (x, v') \<Rightarrow> (map_sum Escape id x, v')) = (Inl e, v')"
          using assms main_bound [OF \<open>parse_args argv = Inr args\<close> parts bound, of xs] by auto
        then show ?thesis
          using serve_forever_ends [of "server_env_of env client srv" xs "(t, (rep, v2))"]
          by (cases y rule: loop_result.cases) (auto split: if_splits)
      qed
    qed
  qed
qed

section \<open>A start of the program\<close>

text \<open>A lab configuration, pyrad as in \<open>lab_env\<close>, and a server that answers with the EAP-TLS Start.\<close>

definition main_radius :: "(reporter \<times> string) server_env" where
  "main_radius = reporting_env\<lparr>auth_packet := (\<lambda>d. Inr (lab_request None d)), verifier := Some (\<lambda>_. Inr True)\<rparr>"

definition lab_main :: "string main_env" where
  "lab_main =
     \<lparr>file_exists = (\<lambda>p. False), package_config = ''/opt/config.yaml'', default_output_dir = ''out'',
      read_yaml = (\<lambda>p v. if p = ''lab.yaml'' then (Inr lab_raw, v) else (Inl OSError, v)), report_world = full_disk,
      radius_world = (\<lambda>_. main_radius), upstream_world = (\<lambda>_. constant_net (eap_reply 11 [1, 2, 0, 6, 13, 0x20])),
      bind_socket = (\<lambda>h p v. (Inr (), v))\<rparr>"

definition lab_argv :: "string list" where
  "lab_argv = [''eap-accel'', ''--framed-mtu'', ''4000'', ''lab.yaml'']"

definition lab_server :: downstream_server where
  "lab_server = \<lparr>ds_host = YStr ''0.0.0.0'', ds_port = YInt 1812, ds_secret = py_encode ''s''\<rparr>"

lemma lab_parsed: "parse_args lab_argv = Inr (lab_args\<lparr>arg_config := ''lab.yaml''\<rparr>)"
  by code_simp

lemma lab_parts:
  "main_parts lab_main (lab_args\<lparr>arg_config := ''lab.yaml''\<rparr>) v =
     Some (Inr (lab_table, configured_client, \<lparr>output_dir = ''out'', report_seq = 0\<rparr>, lab_server), v)"
proof -
  have read: "read_yaml lab_main (resolve_config (file_exists lab_main) (package_config lab_main)
      (arg_config (lab_args\<lparr>arg_config := ''lab.yaml''\<rparr>))) v = (Inr lab_raw, v)"
    by (simp add: lab_main_def resolve_config_def)
  have "main_config ''out'' lab_raw (lab_args\<lparr>arg_config := ''lab.yaml''\<rparr>) = Inr (lab_config False (YInt 4000))"
    using lab_configured by (simp add: main_config_def apply_overrides_def lab_args_def)
  moreover have "cfg_output_dir (lab_config False (YInt 4000)) = YStr ''out''"
    "cfg_downstream (lab_config False (YInt 4000)) =
       \<lparr>listen_host = YStr ''0.0.0.0'', listen_port = YInt 1812, down_shared_secret = YStr ''s'', down_fragment_size = YInt 1000\<rparr>"
    by (simp_all add: lab_config_def)
  ultimately show ?thesis
    using lab_built unfolding main_parts_def worldP_def read
    by (simp add: lab_main_def resolve_config_def lab_args_def bindP_def liftP_def knownP_def returnP_def new_reporter_def full_disk_def
        new_downstream_server_def lab_server_def)
qed

lemma lab_main_run:
  "\<exists>t s. main lab_main lab_argv [Datagram [2, 1, 0, 5, 1] (''ap'', 1812)] [] = Some (Inr (Listening, t), []) \<and>
     sessions t (state_key []) = Some s"
proof -
  let ?env = "server_env_of lab_main configured_client lab_server" and ?w = "(\<lparr>output_dir = ''out'', report_seq = 0\<rparr>, [] :: string)"
  have "\<exists>t s. handle_datagram ?env [2, 1, 0, 5, 1] (''ap'', 1812) (lab_table, ?w) = Some (Inr (), (t, ?w)) \<and>
      sessions t (state_key []) = Some s \<and> result s = None \<and> downstream_state s = Some []"
    by (rule identity_run) (simp_all add: server_env_of_def lab_main_def main_radius_def reporting_env_def)
  then obtain t s where run: "handle_datagram ?env [2, 1, 0, 5, 1] (''ap'', 1812) (lab_table, ?w) = Some (Inr (), (t, ?w))"
    and s: "sessions t (state_key []) = Some s" by blast
  have "bind_socket lab_main (ds_host lab_server) (ds_port lab_server) [] = (Inr (), [])" by (simp add: lab_main_def)
  then have "main lab_main lab_argv [Datagram [2, 1, 0, 5, 1] (''ap'', 1812)] [] = Some (Inr (Listening, t), [])"
    using lab_parsed lab_parts [of "[]"] run by (simp add: main_def escaping_def bindP_def run_server_def)
  then show ?thesis using s by blast
qed

theorem main_sessions_fit_witness:
  "\<exists>t s. main lab_main lab_argv [Datagram [2, 1, 0, 5, 1] (''ap'', 1812)] [] = Some (Inr (Listening, t), []) \<and>
     sessions t ''st:'' = Some s \<and> sound s \<and> mode s \<in> {''reassemble'', ''passthrough''} \<and> 4096 \<le> max_message_len (up_reasm s)"
proof -
  obtain t s where run: "main lab_main lab_argv [Datagram [2, 1, 0, 5, 1] (''ap'', 1812)] [] = Some (Inr (Listening, t), [])"
    and s: "sessions t ''st:'' = Some s"
    using lab_main_run by (auto simp: state_key_def)
  with main_sessions_fit [OF run s] show ?thesis by blast
qed

lemma lab_main_calm: "calm (server_env_of lab_main client srv)"
proof -
  have "calm_net (upstream_world lab_main client)" by (simp add: calm_net_def lab_main_def constant_net_def)
  then have leg: "calm_leg (send_eap (upstream_world lab_main client) client)" by (rule calm_send_eap)
  have "fst (report_op full_disk smry rw) \<noteq> Inl KeyboardInterrupt" for smry rw
    by (cases rw) (auto simp: report_op_def report_summary_def prog_simps bindP_eq_Some_Inl except_os_error_def full_disk_def thenP_def
        ioP_apply returnP_def write_json_def bindP_def split: option.splits sum.splits if_splits)
  then show ?thesis
    using leg by (simp add: calm_def server_env_of_def) (simp add: lab_main_def main_radius_def reporting_env_def)
qed

theorem main_serves_witness:
  "\<exists>t v. main lab_main lab_argv (datagrams [([2, 1, 0, 5, 1], (''ap'', 1812)), ([], (''ap'', 1812))] @ [Interrupt]) [] =
     Some (Inr (Exit 0, t), v)"
proof -
  have bound: "bind_socket lab_main (ds_host lab_server) (ds_port lab_server) [] = (Inr (), [])" by (simp add: lab_main_def)
  have "progressive (send_eap (upstream_world lab_main configured_client) configured_client)"
    using start_progressive by (simp add: lab_main_def)
  from main_serves [OF lab_parsed lab_parts bound this] lab_main_calm show ?thesis by blast
qed

theorem main_errors_witness:
  "main lab_main [''eap-accel''] [Interrupt] [] = Some (Inl (Escape OSError), [])"
proof -
  have args: "parse_args [''eap-accel''] = Inr default_args" by code_simp
  have run: "main lab_main [''eap-accel''] ys [] = Some (Inl (Escape OSError), [])" for ys
    by (simp add: main_def escaping_def liftP_def bindP_def args main_parts_def worldP_def default_args_def resolve_config_def lab_main_def)
  show ?thesis using main_errors [OF run [of "[]"]] by simp
qed

end
