(* ===== verification/Spec2Isabelle.thy ===== *)
theory Spec2Isabelle
  imports Client_Composition Downstream_Authentication Proxy_Main
begin

text \<open>
  The EAP Acceleration proxy (the Python package \<open>src/proxy\<close>), a model in Isabelle/HOL.

  \<^bold>\<open>The program.\<close> The proxy stands between an access point and an authentication server and speaks
  RADIUS to both. EAP-TLS cuts every TLS message into fragments and acknowledges each of them, so a
  long certificate chain costs one round trip to the server per fragment. In the mode
  \<open>reassemble\<close> the proxy acknowledges the fragments itself on both sides, puts the TLS message
  together, and cuts it again to the size that suits the other side; in the mode \<open>passthrough\<close> it
  relays. It never looks into TLS. A datagram of an access point goes through these parts:
  the receive loop and the handling of one datagram (\<open>downstream_server.py\<close>), which find the
  session (\<open>session.py\<close>) by the RADIUS State the proxy minted; the mediator (\<open>mediator.py\<close>), which
  feeds the session's reassemblers and fragments (\<open>eap_tls.py\<close>) and calls the upstream client
  (\<open>upstream_radius.py\<close>) when the server has to be asked; the reply; and, at the end of an
  authentication, the reporter (\<open>report.py\<close>). \<open>config.py\<close> and \<open>proxy.py\<close> start the whole.

  \<^bold>\<open>How the code is modelled.\<close> A Python object is a record, and a method that assigns to it a
  program over that record and the outside world: \<open>('s, 'a) prog\<close> in \<open>Proxy_Prelude\<close> is a function
  from a state to an optional result and state. \<open>Inl e\<close> is an exception, with the state the code
  had reached when it raised it; \<open>None\<close> is a call that does not return. \<open>bindP\<close> sequences,
  \<open>getS\<close>, \<open>modS\<close> and \<open>onS\<close> work on the object, \<open>ioP\<close> on the world. \<open>KeyboardInterrupt\<close> is one of
  these exceptions, raised by a call into the surroundings that the operator interrupts; the
  clauses \<open>except Exception\<close> let it through. \<open>SystemExit\<close> comes from \<open>argparse\<close> only and is kept apart
  (\<open>escape\<close> in \<open>Command_Line\<close>). Octets are words of 8 bits,
  Python's integers \<open>int\<close> or \<open>nat\<close>, clocks real numbers, text the list of its UTF-8 octets.

  \<^bold>\<open>The theories\<close>, in the order of their dependence:

  \<^item> \<open>Proxy_Prelude\<close>: octets and slices, \<open>int.from_bytes\<close> and \<open>int.to_bytes\<close>, chunks, the exceptions,
    programs and their Hoare logic, and the collections \<open>prog_simps\<close> and \<open>hoare_rules\<close>.
  \<^item> \<open>Eap_Tls\<close> and \<open>Eap_Reassembly\<close> (\<open>eap_tls.py\<close>): \<open>parse\<close>, \<open>build\<close>, \<open>build_ack\<close>; \<open>Reassembler\<close> with
    \<open>reset\<close> and \<open>ingest\<close>; \<open>fragment\<close>. The packets that are accepted, round trips of the codec and of
    fragmentation with reassembly, bounds of the buffer and of the chunks, and the refinement of an
    abstract machine that appends payloads (locale \<open>reassembly\<close>, interpreted by \<open>ingest\<close>).
  \<^item> \<open>Proxy_Session\<close> (\<open>session.py\<close>): \<open>Session\<close>, its counters and summary, and \<open>SessionTable\<close> as a
    finite map. The laws of a table that moves entries between keys are the locale \<open>session_store\<close>.
  \<^item> \<open>Radius_Wire\<close> (\<open>upstream_radius.py\<close>, \<open>downstream_server.py\<close>): the packet decoder that replaces
    pyrad's, with the values it stores of plain and of vendor attributes, and the splitting and joining of EAP-Message attributes (locale \<open>eap_attributes\<close>, with
    one interpretation for each side's copy of the code).
  \<^item> \<open>Upstream_Radius\<close> (\<open>UpstreamClient.send_eap\<close>): the request as the list of calls on the pyrad
    packet, the reply, the Identifier and the keys it leaves in the session; what a request
    contains. The mediator relies on the locale \<open>upstream_leg\<close> only, which \<open>send_eap\<close> interprets.
  \<^item> \<open>Radius_Client\<close> (\<open>_BigReplyClient._SendPacket\<close>): the retries, the waiting for a reply and its
    verification; how often a request goes out and when the client returns.
    \<open>Client_Composition\<close> puts this client under \<open>send_eap\<close> and the mediator: the composition is the
    \<open>send_eap\<close> of the other theories over a network made of the socket, and the round trips a session
    counts bound the datagrams sent for it (locale \<open>metered_leg\<close>).
  \<^item> \<open>Mediator\<close> (\<open>mediator.py\<close>): one definition per method. \<open>Mediator_Properties\<close> has the delivery of
    a server's record by fragment and ACK; \<open>Mediator_Upstream\<close> the traffic with the server:
    a record sent in fragments, a flight drained; \<open>Mediator_Discipline\<close> what holds on every path of
    the handler: the Identifiers, the session's well-formedness (\<open>sound\<close>), and the exceptions: which
    can escape, and that each of them does;
    \<open>Mediator_Liveness\<close> when the handler returns, passthrough, and the odd paths.
  \<^item> \<open>Downstream_Server\<close> (\<open>downstream_server.py\<close>): a datagram from decoding to the end of its session,
    and the loop over datagrams. \<open>Downstream_Properties\<close> confines a datagram to one session and
    carries the table's invariant \<open>table_ok\<close>; \<open>Downstream_Exchange\<close> runs a datagram to its challenge;
    \<open>Interrupts\<close> shows where a \<open>KeyboardInterrupt\<close> can come from while a datagram is handled (\<open>calm\<close>);
    \<open>Downstream_Guarantees\<close> states the invariant over all reachable tables (\<open>server_run\<close>), isolation,
    correlation by State, the Identifiers on both ways of an EAP packet, the reply's contents, and
    what stops the loop.
  \<^item> \<open>Downstream_Conversation\<close>, \<open>Downstream_Relay\<close>, \<open>Downstream_Acceptance\<close>, \<open>Downstream_Authentication\<close>:
    the composition of loop, table, mediator, codec and client over many datagrams: the fragments
    of a record, a whole exchange of records, the acceptance, and a whole authentication with
    any number of exchanges. The server is a script of replies, and the world records what the
    access point was sent and the server was asked.
  \<^item> \<open>Radius_Dictionary\<close>: the attribute dictionaries, and that everything the proxy encodes is in
    them; the locale \<open>session_law\<close> carries a law of single sessions through the server.
  \<^item> \<open>Proxy_Config\<close> (\<open>config.py\<close>, \<open>proxy.py\<close>): the configuration with its validation, the overrides of
    the command line, and the parts built from it; values keep the type the file gave them.
  \<^item> \<open>Proxy_Report\<close> (\<open>report.py\<close>): the JSON record and the printed block, also when writing fails,
    and the records of one run (\<open>reporter_run\<close>).
  \<^item> \<open>Command_Line\<close> and \<open>Proxy_Main\<close> (\<open>proxy.py\<close>): the arguments as \<open>argparse\<close> of Python 3.12 reads them,
    and \<open>main\<close> from the arguments to the interrupt, between datagrams or inside one, over all of
    the above.

  \<^bold>\<open>Parameters.\<close> What is not in the repository is an argument of the definitions: pyrad's encoding,
  decoding and verification, the sockets, the clocks, the random source, the file system, the
  terminal and the YAML parser. They are fields of \<open>upstream_net\<close>, \<open>radius_io\<close>, \<open>pyrad_client\<close>,
  \<open>server_env\<close>, \<open>report_env\<close> and \<open>main_env\<close>, and the hooks of the decoder; they may return any value
  and raise any exception. A statement that needs more of them says so in its hypotheses, and a
  theorem beside it instantiates them with concrete functions.

  \<^bold>\<open>Loops.\<close> The mediator's drain loop and the client's waiting for a reply may run for ever. They are
  partial functions into \<open>option\<close> with no fuel: \<open>None\<close> means that the code does not return. That they
  return is proved: the drain when every server fragment with the M bit carries data, since the
  reassembler's limit bounds what it can take; the client when its clock advances by a fixed
  amount with each poll. All other loops recurse over data and always return. The receive loop runs
  over the list of what arrives, of any length.

  \<^bold>\<open>Bounds.\<close> EAP Identifiers are kept below 256 with the masks written out, EAP and RADIUS lengths
  are 16 bits wide and \<open>build\<close> raises beyond, TLS lengths are 32 bits wide. Fragment sizes are
  those validation admits, 1 to 65000. The reported sizes assume byte counts below \<open>2 ^ 53\<close>, where
  Python's division by a power of two is exact; text read by \<open>int\<close> is ASCII.

  \<^bold>\<open>What the model showed.\<close> \<open>parse\<close> raises \<open>IndexError\<close> on a packet of five octets; an overflow leaves
  the reassembler in progress, so its buffer keeps growing; empty fragments with the M bit hold
  the drain loop, and with it the single thread, for ever; a retransmitted Access-Request is
  collected twice; a flight the server breaks off is delivered as if it were whole, and an
  EAP-TLS ACK of the server has the last record delivered again; passthrough drops the
  EAP-Failure of a rejection; a fragment size with a fraction passes validation; a session that
  is abandoned is never reaped, because nothing calls \<open>reap_idle\<close>.

  \<^bold>\<open>Not modelled.\<close> Log lines, help texts and the exit status of \<open>argparse\<close>; \<open>main_cli\<close>, which passes
  \<open>sys.argv\<close> to \<open>main\<close>; an interrupt that hits between two steps of the proxy's own code instead
  of a call into its surroundings; the inside of pyrad and of the
  operating system; a configuration whose hosts, ports or sizes are neither text nor whole
  numbers, for which the record fields have no counterpart (\<open>main\<close> is \<open>None\<close> there); \<open>src/scripts\<close>,
  which only draws charts of recorded results; and the lab set-up, which is shell scripts,
  service configurations and patches of other programs.
\<close>

end
